(* ===== verification/Prelude.thy ===== *)
theory Prelude
  imports
    Main
    "HOL-Library.AList"
    "HOL-Library.Sublist"
    "HOL-Library.Char_ord"
    "HOL-Library.List_Lexorder"
begin

text \<open>
  Shared vocabulary of the development: Python strings, ordered dictionaries, the
  order-preserving deduplication idiom, and stable sorting.

  A Python \<open>str\<close> is a list of characters.  The string primitives below agree with
  CPython on ASCII text (file paths, CWE ids, gate names, verdict labels); text outside
  ASCII is not modelled.  A Python \<open>dict\<close> is an association list without repeated
  keys, in insertion order: an update of an existing key keeps its position, as
  \<^const>\<open>AList.update\<close> does.
\<close>

section \<open>Collections of rules\<close>

named_theorems pystr_eval \<open>unfolding rules that evaluate the string primitives\<close>
named_theorems dict_simps \<open>rules about ordered dictionaries\<close>
named_theorems uniq_simps \<open>rules about order-preserving deduplication\<close>

section \<open>Strings\<close>

type_synonym pystr = string

definition py_space :: "char \<Rightarrow> bool" where
  "py_space c \<longleftrightarrow>
     (let n = (of_char c :: nat) in 9 \<le> n \<and> n \<le> 13 \<or> 28 \<le> n \<and> n \<le> 32)"

definition py_digit :: "char \<Rightarrow> bool" where
  "py_digit c \<longleftrightarrow> (let n = (of_char c :: nat) in 48 \<le> n \<and> n \<le> 57)"

definition lower_char :: "char \<Rightarrow> char" where
  "lower_char c =
     (let n = (of_char c :: nat) in if 65 \<le> n \<and> n \<le> 90 then char_of (n + 32) else c)"

definition upper_char :: "char \<Rightarrow> char" where
  "upper_char c =
     (let n = (of_char c :: nat) in if 97 \<le> n \<and> n \<le> 122 then char_of (n - 32) else c)"

definition py_lower :: "pystr \<Rightarrow> pystr" where
  "py_lower s = map lower_char s"

definition py_upper :: "pystr \<Rightarrow> pystr" where
  "py_upper s = map upper_char s"

definition py_lstrip :: "pystr \<Rightarrow> pystr" where
  "py_lstrip s = dropWhile py_space s"

definition py_rstrip :: "pystr \<Rightarrow> pystr" where
  "py_rstrip s = rev (dropWhile py_space (rev s))"

definition py_strip :: "pystr \<Rightarrow> pystr" where
  "py_strip s = py_rstrip (py_lstrip s)"

text \<open>\<open>s.isdigit()\<close>: false on the empty string.\<close>

definition py_isdigit :: "pystr \<Rightarrow> bool" where
  "py_isdigit s \<longleftrightarrow> s \<noteq> [] \<and> list_all py_digit s"

definition digit_val :: "char \<Rightarrow> nat" where
  "digit_val c = of_char c - 48"

text \<open>\<open>int(s)\<close> on a string of digits.\<close>

definition digits_val :: "pystr \<Rightarrow> nat" where
  "digits_val s = foldl (\<lambda>n c. 10 * n + digit_val c) 0 s"

text \<open>\<open>s.replace(a, b)\<close> for two one-character strings.\<close>

definition replace_char :: "char \<Rightarrow> char \<Rightarrow> pystr \<Rightarrow> pystr" where
  "replace_char a b s = map (\<lambda>c. if c = a then b else c) s"

fun split_on :: "char \<Rightarrow> pystr \<Rightarrow> pystr list" where
  "split_on d [] = [[]]"
| "split_on d (c # cs) =
     (if c = d then [] # split_on d cs
      else case split_on d cs of [] \<Rightarrow> [[c]] | w # ws \<Rightarrow> (c # w) # ws)"

fun join_with :: "pystr \<Rightarrow> pystr list \<Rightarrow> pystr" where
  "join_with d [] = []"
| "join_with d [w] = w"
| "join_with d (w # v # ws) = w @ d @ join_with d (v # ws)"

text \<open>\<open>str.splitlines()\<close> (without \<open>keepends\<close>): a final line break opens no line.\<close>

definition line_break :: "char \<Rightarrow> bool" where
  "line_break c \<longleftrightarrow>
     (let n = (of_char c :: nat) in 10 \<le> n \<and> n \<le> 13 \<or> 28 \<le> n \<and> n \<le> 30)"

fun splitlines_from :: "bool \<Rightarrow> pystr \<Rightarrow> pystr \<Rightarrow> pystr list" where
  "splitlines_from cr cur [] = (if cur = [] then [] else [rev cur])"
| "splitlines_from cr cur (c # cs) =
     (if cr \<and> c = CHR 0x0A then splitlines_from False [] cs
      else if line_break c then rev cur # splitlines_from (c = CHR 0x0D) [] cs
      else splitlines_from False (c # cur) cs)"

definition splitlines :: "pystr \<Rightarrow> pystr list" where
  "splitlines s = splitlines_from False [] s"

text \<open>\<open>str(n)\<close> of a non-negative integer.\<close>

fun show_nat :: "nat \<Rightarrow> pystr" where
  "show_nat n =
     (if n < 10 then [char_of (48 + n)] else show_nat (n div 10) @ [char_of (48 + n mod 10)])"

declare show_nat.simps [simp del]

definition show_int :: "int \<Rightarrow> pystr" where
  "show_int i = (if i < 0 then CHR ''-'' # show_nat (nat (- i)) else show_nat (nat i))"

lemmas pystr_defs [pystr_eval] =
  py_space_def py_digit_def lower_char_def upper_char_def py_lower_def py_upper_def
  py_lstrip_def py_rstrip_def py_strip_def py_isdigit_def digit_val_def digits_val_def
  replace_char_def line_break_def splitlines_def Let_def

lemma lower_char_idem [simp]: "lower_char (lower_char c) = lower_char c"
  by (auto simp: lower_char_def Let_def)

lemma py_lower_idem [simp]: "py_lower (py_lower s) = py_lower s"
  by (simp add: py_lower_def)

lemma py_strip_Nil [simp]: "py_strip [] = []"
  by (simp add: py_strip_def py_rstrip_def py_lstrip_def)

lemma py_lower_Nil [simp]: "py_lower [] = []"
  by (simp add: py_lower_def)

lemma dropWhile_rev_hd:
  assumes "dropWhile p xs = xs"
  shows "dropWhile p (rev (dropWhile p (rev xs))) = rev (dropWhile p (rev xs))"
proof (cases xs)
  case Nil
  then show ?thesis by simp
next
  case (Cons y ys)
  have "\<not> p y"
  proof
    assume "p y"
    with assms Cons have "length (dropWhile p ys) = length (y # ys)" by simp
    with length_dropWhile_le[of p ys] show False by simp
  qed
  moreover from Cons have "rev (dropWhile p (rev xs)) = y # rev (dropWhile p (rev ys))"
    using \<open>\<not> p y\<close> by (simp add: dropWhile_append)
  ultimately show ?thesis by simp
qed

lemma py_strip_idem [simp]: "py_strip (py_strip s) = py_strip s"
proof -
  let ?p = py_space and ?l = "dropWhile py_space s"
  have "dropWhile ?p ?l = ?l"
    by (metis dropWhile_idem)
  then have "dropWhile ?p (rev (dropWhile ?p (rev ?l))) = rev (dropWhile ?p (rev ?l))"
    by (rule dropWhile_rev_hd)
  then show ?thesis
    by (simp add: py_strip_def py_rstrip_def py_lstrip_def)
qed

lemma split_on_nonempty [simp]: "split_on d s \<noteq> []"
  by (induction s) (auto split: list.splits)

lemma join_split_on: "join_with [d] (split_on d s) = s"
proof (induction s)
  case Nil
  then show ?case by simp
next
  case (Cons c cs)
  obtain w ws where "split_on d cs = w # ws"
    by (meson neq_Nil_conv split_on_nonempty)
  with Cons show ?case by (cases ws) auto
qed

lemma split_on_parts: "w \<in> set (split_on d s) \<Longrightarrow> d \<notin> set w"
  by (induction s arbitrary: w) (auto split: if_splits list.splits)

lemma in_set_replace_char: "a \<noteq> b \<Longrightarrow> a \<notin> set (replace_char a b s)"
  by (auto simp: replace_char_def)

section \<open>Order-preserving deduplication\<close>

text \<open>
  \<open>list(dict.fromkeys(xs))\<close> keeps the first occurrence of each element.  The
  closures \<open>_add\<close> of several modules build the same list one element at a time,
  with a \<open>seen\<close> set that holds the elements of the list.
\<close>

fun fromkeys_seen :: "'a list \<Rightarrow> 'a list \<Rightarrow> 'a list" where
  "fromkeys_seen seen [] = []"
| "fromkeys_seen seen (x # xs) =
     (if x \<in> set seen then fromkeys_seen seen xs else x # fromkeys_seen (x # seen) xs)"

definition fromkeys :: "'a list \<Rightarrow> 'a list" where
  "fromkeys xs = fromkeys_seen [] xs"

definition add_new :: "'a \<Rightarrow> 'a list \<Rightarrow> 'a list" where
  "add_new x out = (if x \<in> set out then out else out @ [x])"

lemma set_fromkeys_seen: "set (fromkeys_seen seen xs) = set xs - set seen"
  by (induction seen xs rule: fromkeys_seen.induct) auto

lemma distinct_fromkeys_seen: "distinct (fromkeys_seen seen xs)"
  by (induction seen xs rule: fromkeys_seen.induct) (auto simp: set_fromkeys_seen)

lemma set_fromkeys [simp, uniq_simps]: "set (fromkeys xs) = set xs"
  by (simp add: fromkeys_def set_fromkeys_seen)

lemma distinct_fromkeys [simp, uniq_simps]: "distinct (fromkeys xs)"
  by (simp add: fromkeys_def distinct_fromkeys_seen)

lemma fromkeys_seen_cong: "set s = set t \<Longrightarrow> fromkeys_seen s xs = fromkeys_seen t xs"
proof (induction xs arbitrary: s t)
  case Nil
  then show ?case by simp
next
  case (Cons x xs)
  from Cons.prems have "set (x # s) = set (x # t)" by simp
  from Cons.IH [OF this] Cons.IH [OF Cons.prems] Cons.prems show ?case by simp
qed

lemma fromkeys_seen_id: "distinct xs \<Longrightarrow> set xs \<inter> set seen = {} \<Longrightarrow> fromkeys_seen seen xs = xs"
  by (induction seen xs rule: fromkeys_seen.induct) auto

lemma fromkeys_id [uniq_simps]: "distinct xs \<Longrightarrow> fromkeys xs = xs"
  by (simp add: fromkeys_def fromkeys_seen_id)

lemma subseq_fromkeys_seen: "subseq (fromkeys_seen seen xs) xs"
  by (induction seen xs rule: fromkeys_seen.induct) auto

lemma subseq_fromkeys: "subseq (fromkeys xs) xs"
  by (simp add: fromkeys_def subseq_fromkeys_seen)

lemma set_add_new [simp]: "set (add_new x out) = insert x (set out)"
  by (auto simp: add_new_def)

lemma distinct_add_new [simp]: "distinct (add_new x out) = distinct out"
  by (auto simp: add_new_def)

lemma fold_add_new: "fold add_new xs out = out @ fromkeys_seen out xs"
proof (induction xs arbitrary: out)
  case Nil
  then show ?case by simp
next
  case (Cons x xs)
  have "fromkeys_seen (out @ [x]) xs = fromkeys_seen (x # out) xs"
    by (rule fromkeys_seen_cong) auto
  with Cons show ?case by (simp add: add_new_def)
qed

lemma fold_add_new_Nil [uniq_simps]: "fold add_new xs [] = fromkeys xs"
  by (simp add: fold_add_new fromkeys_def)

section \<open>Ordered dictionaries\<close>

type_synonym ('k, 'v) pydict = "('k \<times> 'v) list"

abbreviation dict_get :: "('k, 'v) pydict \<Rightarrow> 'k \<Rightarrow> 'v option" where
  "dict_get d k \<equiv> map_of d k"

abbreviation dict_set :: "'k \<Rightarrow> 'v \<Rightarrow> ('k, 'v) pydict \<Rightarrow> ('k, 'v) pydict" where
  "dict_set k v d \<equiv> AList.update k v d"

abbreviation dict_keys :: "('k, 'v) pydict \<Rightarrow> 'k list" where
  "dict_keys d \<equiv> map fst d"

text \<open>\<open>d.get(k, default)\<close> and \<open>d.setdefault(k, v)\<close>.\<close>

definition dict_get_or :: "('k, 'v) pydict \<Rightarrow> 'k \<Rightarrow> 'v \<Rightarrow> 'v" where
  "dict_get_or d k v = (case dict_get d k of None \<Rightarrow> v | Some w \<Rightarrow> w)"

definition dict_setdefault :: "'k \<Rightarrow> 'v \<Rightarrow> ('k, 'v) pydict \<Rightarrow> ('k, 'v) pydict" where
  "dict_setdefault k v d = (case dict_get d k of None \<Rightarrow> d @ [(k, v)] | Some _ \<Rightarrow> d)"

text \<open>\<open>d.setdefault(k, []).append(v)\<close>, the grouping idiom.\<close>

definition dict_append :: "'k \<Rightarrow> 'v \<Rightarrow> ('k, 'v list) pydict \<Rightarrow> ('k, 'v list) pydict" where
  "dict_append k v d = dict_set k (dict_get_or d k [] @ [v]) d"

definition wf_dict :: "('k, 'v) pydict \<Rightarrow> bool" where
  "wf_dict d \<longleftrightarrow> distinct (dict_keys d)"

lemma dict_get_set [dict_simps]:
  "dict_get (dict_set k v d) k' = (if k = k' then Some v else dict_get d k')"
  by (simp add: update_conv')

lemma dict_keys_set [dict_simps]:
  "dict_keys (dict_set k v d) = (if k \<in> set (dict_keys d) then dict_keys d else dict_keys d @ [k])"
  by (induction d) auto

lemma set_dict_keys_set [dict_simps]:
  "fst ` set (dict_set k v d) = insert k (fst ` set d)"
  by (induction d) auto

lemma dict_get_Some_key: "dict_get d k = Some v \<Longrightarrow> k \<in> fst ` set d"
  by (metis domI dom_map_of_conv_image_fst)

lemma wf_dict_Nil [simp]: "wf_dict []"
  by (simp add: wf_dict_def)

lemma wf_dict_set [simp]: "wf_dict d \<Longrightarrow> wf_dict (dict_set k v d)"
  by (simp add: wf_dict_def distinct_update)

lemma dict_get_setdefault [dict_simps]:
  "dict_get (dict_setdefault k v d) k' =
     (if k = k' \<and> dict_get d k = None then Some v else dict_get d k')"
  by (auto simp: dict_setdefault_def map_add_def split: option.splits)

lemma wf_dict_setdefault [simp]: "wf_dict d \<Longrightarrow> wf_dict (dict_setdefault k v d)"
  by (auto simp: wf_dict_def dict_setdefault_def map_of_eq_None_iff split: option.splits)

lemma dict_get_append [dict_simps]:
  "dict_get (dict_append k v d) k' =
     (if k = k' then Some (dict_get_or d k [] @ [v]) else dict_get d k')"
  by (simp add: dict_append_def dict_get_set)

lemma wf_dict_append [simp]: "wf_dict d \<Longrightarrow> wf_dict (dict_append k v d)"
  by (simp add: dict_append_def)

lemma set_dict_keys_append [dict_simps]:
  "fst ` set (dict_append k v d) = insert k (fst ` set d)"
  by (simp add: dict_append_def set_dict_keys_set)

lemma wf_dict_get [dict_simps]: "wf_dict d \<Longrightarrow> (k, v) \<in> set d \<longleftrightarrow> dict_get d k = Some v"
  by (simp add: wf_dict_def)

text \<open>Grouping a list of pairs by key collects, per key, the values in order.\<close>

lemma dict_get_group:
  "dict_get (fold (\<lambda>(k, v). dict_append k v) ps d) k =
     (if k \<in> fst ` set d \<union> fst ` set ps
      then Some (dict_get_or d k [] @ map snd (filter (\<lambda>p. fst p = k) ps)) else None)"
proof (induction ps arbitrary: d)
  case Nil
  then show ?case
    by (cases "dict_get d k") (auto simp: dict_get_or_def map_of_eq_None_iff dest: dict_get_Some_key)
next
  case (Cons p ps)
  obtain a v where p: "p = (a, v)" by (cases p)
  show ?case
    by (simp add: p Cons.IH set_dict_keys_append)
      (auto simp: dict_get_or_def dict_get_append split: option.splits)
qed

lemma wf_dict_group: "wf_dict d \<Longrightarrow> wf_dict (fold (\<lambda>(k, v). dict_append k v) ps d)"
  by (induction ps arbitrary: d) (auto simp: case_prod_beta)

section \<open>Stable sorting\<close>

text \<open>
  \<open>sorted(xs, key=f)\<close> is \<^const>\<open>sort_key\<close>, which is stable.
  \<open>sorted(xs, key=f, reverse=True)\<close> keeps the original order of equal keys too, so it
  sorts by the negated key.
\<close>

definition sort_desc :: "('a \<Rightarrow> 'b::{linorder, uminus}) \<Rightarrow> 'a list \<Rightarrow> 'a list" where
  "sort_desc f xs = sort_key (\<lambda>x. - f x) xs"

section \<open>Lists\<close>

lemma in_map_filter: "y \<in> set (List.map_filter f xs) \<longleftrightarrow> (\<exists>x \<in> set xs. f x = Some y)"
  unfolding List.map_filter_def by force


lemma filter_filter_empty: "(\<And>x. P x \<Longrightarrow> \<not> Q x) \<Longrightarrow> filter P (filter Q xs) = []"
  by (induction xs) auto

lemma the_elem_length1: "length xs = 1 \<Longrightarrow> x \<in> set xs \<Longrightarrow> xs = [x]"
  by (cases xs) auto

lemma map_of_map_pair:
  "map_of (map (\<lambda>x. (f x, g x)) xs) k = map_option g (find (\<lambda>x. f x = k) xs)"
  by (induction xs) auto

section \<open>Errors as values\<close>

text \<open>\<open>and_then r f\<close> goes on with the result of \<open>r\<close>, or stops with its error.\<close>

definition and_then :: "'e + 'a \<Rightarrow> ('a \<Rightarrow> 'e + 'b) \<Rightarrow> 'e + 'b" where
  "and_then r f = (case r of Inl e \<Rightarrow> Inl e | Inr x \<Rightarrow> f x)"

lemma and_then_simps [simp]:
  "and_then (Inl e) f = Inl e" "and_then (Inr x) f = f x"
  by (simp_all add: and_then_def)

lemma and_then_Inr [simp]: "and_then r f = Inr y \<longleftrightarrow> (\<exists>x. r = Inr x \<and> f x = Inr y)"
  by (cases r) simp_all

definition or_raise :: "'a option \<Rightarrow> 'e \<Rightarrow> 'e + 'a" where
  "or_raise r e = (case r of Some x \<Rightarrow> Inr x | None \<Rightarrow> Inl e)"

lemma or_raise_Inr [simp]: "or_raise r e = Inr x \<longleftrightarrow> r = Some x"
  by (simp add: or_raise_def split: option.splits)

end
