(* ===== verification/Binary64.thy ===== *)
theory Binary64
  imports Prelude Complex_Main "HOL-Library.Log_Nat"
begin

text \<open>
  Python floats.  A finite double is the rational number it denotes, and every
  arithmetic operation of the source is the exact rational operation followed by
  \<open>fl\<close>, rounding to 53 significant bits, ties to even.  The program's numbers stay
  between \<open>2^-100\<close> and \<open>2^20\<close>, so overflow, subnormals, infinities and NaN do not
  arise and are left out (code that tests for NaN or infinity does so on a value type of
  its own).  \<open>round_dec\<close> is the built-in \<open>round(x, ndigits)\<close>: correctly rounded in
  decimal, then the nearest double.

  The lemmas are the ones scoring needs: \<open>fl\<close> is monotone, exact on small integers, and
  has relative error at most \<open>2^-53\<close>.
\<close>

section \<open>Rounding to an integer, ties to even\<close>

definition round_even :: "rat \<Rightarrow> int" where
  "round_even x =
     (let n = \<lfloor>x\<rfloor>; r = x - of_int n in
      if r < 1 / 2 then n else if 1 / 2 < r then n + 1 else if even n then n else n + 1)"

lemma round_even_err: "\<bar>of_int (round_even x) - x\<bar> \<le> 1 / 2"
proof -
  have "of_int \<lfloor>x\<rfloor> \<le> x" "x < of_int \<lfloor>x\<rfloor> + 1" by linarith+
  then show ?thesis by (auto simp: round_even_def Let_def abs_le_iff)
qed

lemma round_even_of_int [simp]: "round_even (of_int n) = n"
  by (simp add: round_even_def)

lemma round_even_mono: "x \<le> y \<Longrightarrow> round_even x \<le> round_even y"
proof -
  assume le: "x \<le> y"
  then have fl: "\<lfloor>x\<rfloor> \<le> \<lfloor>y\<rfloor>" by (rule floor_mono)
  show ?thesis
  proof (cases "\<lfloor>x\<rfloor> = \<lfloor>y\<rfloor>")
    case True
    with le show ?thesis by (auto simp: round_even_def Let_def)
  next
    case False
    with fl have "\<lfloor>x\<rfloor> + 1 \<le> \<lfloor>y\<rfloor>" by simp
    moreover have "round_even x \<le> \<lfloor>x\<rfloor> + 1" "\<lfloor>y\<rfloor> \<le> round_even y"
      by (auto simp: round_even_def Let_def)
    ultimately show ?thesis by linarith
  qed
qed

lemma round_even_ge: "of_int n \<le> x \<Longrightarrow> n \<le> round_even x"
  using round_even_mono [of "of_int n" x] by simp

lemma round_even_le: "x \<le> of_int n \<Longrightarrow> round_even x \<le> n"
  using round_even_mono [of x "of_int n"] by simp

lemma round_even_minus: "round_even (- x) = - round_even x"
proof (cases "x = of_int \<lfloor>x\<rfloor>")
  case True
  have "round_even (- of_int \<lfloor>x\<rfloor>) = - \<lfloor>x\<rfloor>"
    using round_even_of_int [of "- \<lfloor>x\<rfloor>"] by simp
  with True show ?thesis by (metis round_even_of_int)
next
  case False
  then have "\<lfloor>- x\<rfloor> = - \<lfloor>x\<rfloor> - 1" by (simp add: floor_minus ceiling_altdef)
  then show ?thesis by (auto simp: round_even_def Let_def)
qed

section \<open>The binade of a positive number\<close>

definition ilog2 :: "rat \<Rightarrow> int" where
  "ilog2 x =
     (if 1 \<le> x then int (floorlog 2 (nat \<lfloor>x\<rfloor>)) - 1
      else - int (floorlog 2 (nat (\<lceil>1 / x\<rceil> - 1))))"

lemma ilog2_bounds_ge1:
  assumes "1 \<le> x"
  shows "2 powi ilog2 x \<le> x \<and> x < 2 powi (ilog2 x + 1)"
proof -
  let ?n = "nat \<lfloor>x\<rfloor>" and ?k = "floorlog 2 (nat \<lfloor>x\<rfloor>)"
  from assms have n: "0 < ?n" by (simp add: one_le_floor)
  then have k: "0 < ?k" by (auto simp: floorlog_eq_zero_iff zero_less_iff_neq_zero)
  have b: "2 ^ (?k - 1) \<le> ?n" "?n < 2 ^ ?k"
    using floorlog_bounds [OF n, of 2] by simp_all
  have lo: "(2::rat) ^ (?k - 1) \<le> x"
  proof -
    have "(2::rat) ^ (?k - 1) = of_nat (2 ^ (?k - 1))" by simp
    also have "\<dots> \<le> of_nat ?n" using b(1) of_nat_le_iff by blast
    also have "\<dots> \<le> x" using assms by (simp add: of_nat_nat)
    finally show ?thesis .
  qed
  have hi: "x < (2::rat) ^ ?k"
  proof -
    have "x < of_int \<lfloor>x\<rfloor> + 1" by linarith
    also have "\<dots> = of_nat (?n + 1)" using assms by simp
    also have "\<dots> \<le> of_nat (2 ^ ?k)" using b(2) by (metis Suc_eq_plus1 Suc_leI of_nat_le_iff)
    also have "\<dots> = (2::rat) ^ ?k" by simp
    finally show ?thesis .
  qed
  have e: "ilog2 x = int (?k - 1)" "ilog2 x + 1 = int ?k"
    using assms k by (simp_all add: ilog2_def of_nat_diff)
  have "2 powi ilog2 x = (2::rat) ^ (?k - 1)" "2 powi (ilog2 x + 1) = (2::rat) ^ ?k"
    by (simp only: e(1) power_int_of_nat, simp only: e(2) power_int_of_nat)
  with lo hi show ?thesis by simp
qed

lemma ilog2_bounds_lt1:
  assumes "0 < x" "x < 1"
  shows "2 powi ilog2 x \<le> x \<and> x < 2 powi (ilog2 x + 1)"
proof -
  let ?y = "1 / x"
  let ?n = "nat (\<lceil>?y\<rceil> - 1)" and ?k = "floorlog 2 (nat (\<lceil>1 / x\<rceil> - 1))"
  from assms have y: "1 < ?y" by simp
  then have c: "2 \<le> \<lceil>?y\<rceil>" by linarith
  then have n: "0 < ?n" by simp
  then have k: "0 < ?k" by (auto simp: floorlog_eq_zero_iff zero_less_iff_neq_zero)
  have b: "2 ^ (?k - 1) \<le> ?n" "?n < 2 ^ ?k"
    using floorlog_bounds [OF n, of 2] by simp_all
  have "int (nat (z - 1)) + 1 = z" if "2 \<le> z" for z :: int
    using that by simp
  from this [OF c] have "int ?n + 1 = \<lceil>?y\<rceil>" .
  then have nc: "of_nat ?n + 1 = (of_int \<lceil>?y\<rceil> :: rat)"
    by (metis of_int_1 of_int_add of_int_of_nat_eq)
  have hi: "?y \<le> (2::rat) ^ ?k"
  proof -
    have "?y \<le> of_int \<lceil>?y\<rceil>" by linarith
    also have "\<dots> = of_nat (?n + 1)" using nc by simp
    also have "\<dots> \<le> of_nat (2 ^ ?k)" using b(2) by (metis Suc_eq_plus1 Suc_leI of_nat_le_iff)
    also have "\<dots> = (2::rat) ^ ?k" by simp
    finally show ?thesis .
  qed
  have lo: "(2::rat) ^ (?k - 1) < ?y"
  proof -
    have "(2::rat) ^ (?k - 1) = of_nat (2 ^ (?k - 1))" by simp
    also have "\<dots> \<le> of_nat ?n" using b(1) of_nat_le_iff by blast
    also have "\<dots> < ?y" using nc by linarith
    finally show ?thesis .
  qed
  have e: "ilog2 x = - int ?k" "ilog2 x + 1 = - int (?k - 1)"
    using assms k by (simp_all add: ilog2_def of_nat_diff)
  have "(2::rat) powi ilog2 x = 1 / 2 ^ ?k"
    by (simp only: e(1) power_int_minus power_int_of_nat inverse_eq_divide)
  moreover have "(2::rat) powi (ilog2 x + 1) = 1 / 2 ^ (?k - 1)"
    by (simp only: e(2) power_int_minus power_int_of_nat inverse_eq_divide)
  moreover have "1 / 2 ^ ?k \<le> x" "x < 1 / 2 ^ (?k - 1)"
    using hi lo assms by (simp_all add: field_simps)
  ultimately show ?thesis by simp
qed

lemma ilog2_bounds:
  assumes "0 < x"
  shows "2 powi ilog2 x \<le> x" and "x < 2 powi (ilog2 x + 1)"
  using ilog2_bounds_ge1 [of x] ilog2_bounds_lt1 [OF assms] by (cases "1 \<le> x"; simp)+

lemma two_powi_mono: "a \<le> b \<Longrightarrow> (2::rat) powi a \<le> 2 powi b"
  by (rule power_int_increasing) auto

lemma ilog2_mono:
  assumes "0 < x" "x \<le> y"
  shows "ilog2 x \<le> ilog2 y"
proof (rule ccontr)
  assume "\<not> ?thesis"
  then have "ilog2 y + 1 \<le> ilog2 x" by simp
  then have "(2::rat) powi (ilog2 y + 1) \<le> 2 powi ilog2 x" by (rule two_powi_mono)
  with ilog2_bounds [OF assms(1)] ilog2_bounds [of y] assms show False by simp
qed

section \<open>Rounding to 53 bits\<close>

definition fl :: "rat \<Rightarrow> rat" where
  "fl x =
     (if x = 0 then 0
      else let e = ilog2 \<bar>x\<bar> - 52 in of_int (round_even (x / 2 powi e)) * 2 powi e)"

lemma fl_0 [simp]: "fl 0 = 0"
  by (simp add: fl_def)

lemma fl_minus [simp]: "fl (- x) = - fl x"
  by (simp add: fl_def Let_def round_even_minus)

lemma two_powi_pos [simp]: "0 < (2::rat) powi e"
  by (simp add: zero_less_power_int)

lemma fl_err: "\<bar>fl x - x\<bar> \<le> \<bar>x\<bar> / 2 ^ 53"
proof (cases "x = 0")
  case True
  then show ?thesis by simp
next
  case False
  let ?k = "ilog2 \<bar>x\<bar>" and ?q = "x / 2 powi (ilog2 \<bar>x\<bar> - 52)"
  let ?p = "(2::rat) powi (ilog2 \<bar>x\<bar> - 52)"
  have x: "x = ?q * ?p" by simp
  have "fl x - x = (of_int (round_even ?q) - ?q) * ?p"
    using False by (simp add: fl_def Let_def algebra_simps)
  then have "\<bar>fl x - x\<bar> = \<bar>of_int (round_even ?q) - ?q\<bar> * ?p"
    by (simp add: abs_mult abs_of_pos)
  also have "\<dots> \<le> 1 / 2 * ?p"
    by (rule mult_right_mono) (use round_even_err in \<open>auto simp: less_imp_le\<close>)
  also have "\<dots> = 2 powi ?k / 2 ^ 53"
    by (simp add: power_int_diff)
  also have "\<dots> \<le> \<bar>x\<bar> / 2 ^ 53"
    using ilog2_bounds(1) [of "\<bar>x\<bar>"] False by (simp add: divide_right_mono)
  finally show ?thesis .
qed

lemma fl_binade:
  assumes "0 < x"
  shows "2 powi ilog2 x \<le> fl x" and "fl x \<le> 2 powi (ilog2 x + 1)"
proof -
  let ?e = "ilog2 x - 52" and ?p = "(2::rat) powi (ilog2 x - 52)"
  have lo: "of_int (2 ^ 52) \<le> x / ?p"
    using ilog2_bounds(1) [OF assms] by (simp add: field_simps power_int_diff)
  have hi: "x / ?p \<le> of_int (2 ^ 53)"
    using ilog2_bounds(2) [OF assms] by (simp add: field_simps power_int_diff power_int_add)
  have f: "fl x = of_int (round_even (x / ?p)) * ?p"
    using assms by (simp add: fl_def Let_def)
  have "(2::rat) powi ilog2 x = of_int (2 ^ 52) * ?p"
    by (simp add: power_int_diff)
  also have "\<dots> \<le> fl x"
    unfolding f by (rule mult_right_mono) (use round_even_ge [OF lo] of_int_le_iff in \<open>auto simp: less_imp_le\<close>)
  finally show "2 powi ilog2 x \<le> fl x" .
  have "fl x \<le> of_int (2 ^ 53) * ?p"
    unfolding f by (rule mult_right_mono) (use round_even_le [OF hi] of_int_le_iff in \<open>auto simp: less_imp_le\<close>)
  also have "\<dots> = 2 powi (ilog2 x + 1)"
    by (simp add: power_int_diff power_int_add)
  finally show "fl x \<le> 2 powi (ilog2 x + 1)" .
qed

lemma fl_pos: "0 < x \<Longrightarrow> 0 < fl x"
  using fl_binade(1) [of x] two_powi_pos [of "ilog2 x"] by linarith

lemma fl_nonneg: "0 \<le> x \<Longrightarrow> 0 \<le> fl x"
  using fl_pos [of x] by (cases "x = 0") auto

lemma fl_mono_pos:
  assumes "0 < x" "x \<le> y"
  shows "fl x \<le> fl y"
proof (cases "ilog2 x = ilog2 y")
  case True
  have "x / 2 powi (ilog2 y - 52) \<le> y / 2 powi (ilog2 y - 52)"
    using assms by (intro divide_right_mono) (auto simp: less_imp_le)
  then have "round_even (x / 2 powi (ilog2 y - 52)) \<le> round_even (y / 2 powi (ilog2 y - 52))"
    by (rule round_even_mono)
  with True assms show ?thesis
    by (simp add: fl_def Let_def mult_right_mono less_imp_le)
next
  case False
  with ilog2_mono [OF assms] have "ilog2 x + 1 \<le> ilog2 y" by simp
  then have "(2::rat) powi (ilog2 x + 1) \<le> 2 powi ilog2 y" by (rule two_powi_mono)
  with fl_binade [of x] fl_binade [of y] assms show ?thesis by linarith
qed

lemma fl_mono: "x \<le> y \<Longrightarrow> fl x \<le> fl y"
proof (cases "0 < x")
  case True
  then show "x \<le> y \<Longrightarrow> fl x \<le> fl y" by (rule fl_mono_pos)
next
  case False
  assume le: "x \<le> y"
  show ?thesis
  proof (cases "0 \<le> y")
    case True
    with False have "0 \<le> fl y" "0 \<le> fl (- x)" by (simp_all add: fl_nonneg del: fl_minus)
    then show ?thesis by simp
  next
    case neg: False
    with le have "fl (- y) \<le> fl (- x)" by (intro fl_mono_pos) auto
    then show ?thesis by simp
  qed
qed

lemma fl_of_int:
  assumes "\<bar>n\<bar> < 2 ^ 53"
  shows "fl (of_int n) = of_int n"
proof (cases "n = 0")
  case True
  then show ?thesis by simp
next
  case False
  let ?x = "of_int n :: rat"
  let ?k = "ilog2 \<bar>?x\<bar>"
  have x: "0 < \<bar>?x\<bar>" using False by simp
  have "(2::rat) powi ?k < 2 powi 53"
  proof -
    have "(2::rat) powi ?k \<le> \<bar>?x\<bar>" by (rule ilog2_bounds(1) [OF x])
    also have "\<dots> < 2 ^ 53" using assms by (metis of_int_abs of_int_less_iff of_int_numeral of_int_power)
    also have "(2::rat) ^ 53 = 2 powi 53" by simp
    finally show ?thesis .
  qed
  then have "?k < 53"
    using two_powi_mono [of 53 ?k] by (meson leD leI)
  then have "0 \<le> 52 - ?k" by simp
  then obtain m :: nat where "52 - ?k = int m" by (rule nonneg_int_cases)
  then have m: "?k - 52 = - int m" by simp
  have p: "(2::rat) powi (?k - 52) = 1 / 2 ^ m"
    by (simp only: m power_int_minus power_int_of_nat inverse_eq_divide)
  have q: "?x / 2 powi (?k - 52) = of_int (n * 2 ^ m)"
    by (simp only: p) simp
  have "fl ?x = of_int (round_even (?x / 2 powi (?k - 52))) * 2 powi (?k - 52)"
    unfolding fl_def Let_def using False by simp
  also have "\<dots> = ?x / 2 powi (?k - 52) * 2 powi (?k - 52)"
    by (simp only: q round_even_of_int)
  also have "\<dots> = ?x" by simp
  finally show ?thesis .
qed

lemma fl_1 [simp]: "fl 1 = 1"
  using fl_of_int [of 1] by simp

lemma ilog2_unique:
  assumes "2 powi k \<le> x" "x < 2 powi (k + 1)"
  shows "ilog2 x = k"
proof -
  have x: "0 < x" using two_powi_pos [of k] assms(1) by linarith
  have "\<not> ilog2 x + 1 \<le> k"
    using two_powi_mono [of "ilog2 x + 1" k] ilog2_bounds [OF x] assms by linarith
  moreover have "\<not> k + 1 \<le> ilog2 x"
    using two_powi_mono [of "k + 1" "ilog2 x"] ilog2_bounds [OF x] assms by linarith
  ultimately show ?thesis by simp
qed

text \<open>Scaling by a power of two commutes with rounding, so results are representable.\<close>

lemma ilog2_scale:
  assumes "0 < x"
  shows "ilog2 (x * 2 powi e) = ilog2 x + e"
proof (rule ilog2_unique)
  have split: "(2::rat) powi (a + e) = 2 powi a * 2 powi e" for a
    by (simp add: power_int_add)
  show "2 powi (ilog2 x + e) \<le> x * 2 powi e"
    unfolding split using ilog2_bounds(1) [OF assms] by (simp add: mult_right_mono less_imp_le)
  have "ilog2 x + e + 1 = (ilog2 x + 1) + e" by simp
  then show "x * 2 powi e < 2 powi (ilog2 x + e + 1)"
    using split [of "ilog2 x + 1"] ilog2_bounds(2) [OF assms] by (metis mult_strict_right_mono two_powi_pos)
qed

lemma fl_scale: "fl (x * 2 powi e) = fl x * 2 powi e"
proof (cases "x = 0")
  case True
  then show ?thesis by simp
next
  case False
  have abs: "\<bar>x * 2 powi e\<bar> = \<bar>x\<bar> * 2 powi e" by (simp add: abs_mult abs_of_pos)
  have il: "ilog2 \<bar>x * 2 powi e\<bar> - 52 = (ilog2 \<bar>x\<bar> - 52) + e"
    unfolding abs using ilog2_scale [of "\<bar>x\<bar>" e] False by simp
  have "x * 2 powi e / 2 powi ((ilog2 \<bar>x\<bar> - 52) + e) = x / 2 powi (ilog2 \<bar>x\<bar> - 52)"
    by (simp add: power_int_add)
  with False show ?thesis
    unfolding fl_def Let_def il by (simp add: power_int_add)
qed

lemma fl_representable: "\<bar>n\<bar> < 2 ^ 53 \<Longrightarrow> fl (of_int n * 2 powi e) = of_int n * 2 powi e"
  by (simp add: fl_scale fl_of_int)

lemma fl_two_powi [simp]: "fl (2 powi e) = 2 powi e"
  using fl_representable [of 1 e] by simp

lemma fl_idem_pos:
  assumes "0 < x"
  shows "fl (fl x) = fl x"
proof (cases "fl x = 2 powi (ilog2 x + 1)")
  case True
  then show ?thesis by simp
next
  case False
  let ?e = "ilog2 x - 52"
  define n where "n = round_even (x / 2 powi ?e)"
  have f: "fl x = of_int n * 2 powi ?e" using assms by (simp add: fl_def Let_def n_def)
  have "fl x < 2 powi (ilog2 x + 1)" using fl_binade(2) [OF assms] False by simp
  also have "(2::rat) powi (ilog2 x + 1) = 2 ^ 53 * 2 powi ?e"
    by (simp add: power_int_diff power_int_add)
  finally have "(of_int n :: rat) < 2 ^ 53" unfolding f using two_powi_pos [of ?e] by simp
  then have "n < 2 ^ 53" by (metis of_int_less_iff of_int_numeral of_int_power)
  moreover have "0 \<le> n"
    unfolding n_def by (rule round_even_ge) (use assms in \<open>simp add: less_imp_le\<close>)
  ultimately show ?thesis unfolding f by (intro fl_representable) simp
qed

lemma fl_idem [simp]: "fl (fl x) = fl x"
proof (cases "x = 0")
  case False
  then show ?thesis
    using fl_idem_pos [of x] fl_idem_pos [of "- x"] by (cases "0 < x") auto
qed simp

section \<open>Decimal rounding\<close>

definition round_dec :: "nat \<Rightarrow> rat \<Rightarrow> rat" where
  "round_dec p x = fl (of_int (round_even (x * 10 ^ p)) / 10 ^ p)"

lemma round_dec_mono: "x \<le> y \<Longrightarrow> round_dec p x \<le> round_dec p y"
  unfolding round_dec_def
  by (intro fl_mono divide_right_mono of_int_le_iff [THEN iffD2] round_even_mono mult_right_mono) auto

lemma round_dec_of_int:
  assumes "\<bar>n\<bar> < 2 ^ 53"
  shows "round_dec p (of_int n) = of_int n"
proof -
  have "round_even (of_int n * 10 ^ p) = n * 10 ^ p"
    using round_even_of_int [of "n * 10 ^ p"] by simp
  with fl_of_int [OF assms] show ?thesis by (simp add: round_dec_def)
qed

lemma round_dec_0 [simp]: "round_dec p 0 = 0" and round_dec_1 [simp]: "round_dec p 1 = 1"
  using round_dec_of_int [of 0 p] round_dec_of_int [of 1 p] by simp_all

section \<open>What rounding promises its clients\<close>

text \<open>
  The interface the scoring code relies on: a monotone, idempotent rounding that fixes
  \<open>0\<close> and \<open>1\<close> and has a relative error bound.  The lemmas bound sums that round after
  every addition, the way a Python loop accumulates.
\<close>

locale float_rounding =
  fixes rnd :: "rat \<Rightarrow> rat" and u :: rat
  assumes rnd_mono: "x \<le> y \<Longrightarrow> rnd x \<le> rnd y"
    and rnd_idem: "rnd (rnd x) = rnd x"
    and rnd_zero: "rnd 0 = 0"
    and rnd_one: "rnd 1 = 1"
    and rnd_err: "\<bar>rnd x - x\<bar> \<le> u * \<bar>x\<bar>"
    and unit_range: "0 \<le> u" "u \<le> 1"
begin

lemma rnd_nonneg: "0 \<le> x \<Longrightarrow> 0 \<le> rnd x"
  using rnd_mono [of 0 x] by (simp add: rnd_zero)

lemma rnd_le_one: "x \<le> 1 \<Longrightarrow> rnd x \<le> 1"
  using rnd_mono [of x 1] by (simp add: rnd_one)

text \<open>A product with a factor at most one does not exceed a representable number.\<close>

lemma rnd_scaled_le:
  assumes "rnd w = w" "0 \<le> w" "m \<le> 1"
  shows "rnd (w * m) \<le> w"
  using rnd_mono [of "w * m" w] assms by (simp add: mult_left_le)

lemma rnd_ratio_unit:
  assumes "0 \<le> a" "a \<le> b"
  shows "0 \<le> rnd (a / b)" and "rnd (a / b) \<le> 1"
proof -
  show "0 \<le> rnd (a / b)" by (rule rnd_nonneg) (use assms in auto)
  show "rnd (a / b) \<le> 1"
    by (rule rnd_le_one) (use assms in \<open>cases "b = 0"; auto simp: divide_le_eq_1\<close>)
qed

lemma rnd_sum_nonneg:
  "0 \<le> a \<Longrightarrow> (\<And>x. x \<in> set xs \<Longrightarrow> 0 \<le> f x) \<Longrightarrow> 0 \<le> foldl (\<lambda>s x. rnd (s + f x)) a xs"
proof (induction xs arbitrary: a)
  case (Cons y ys)
  have "0 \<le> rnd (a + f y)" by (rule rnd_nonneg) (use Cons.prems in simp)
  with Cons show ?case by simp
qed simp

lemma rnd_sum_mono:
  "a \<le> b \<Longrightarrow> (\<And>x. x \<in> set xs \<Longrightarrow> f x \<le> g x) \<Longrightarrow>
     foldl (\<lambda>s x. rnd (s + f x)) a xs \<le> foldl (\<lambda>s x. rnd (s + g x)) b xs"
proof (induction xs arbitrary: a b)
  case (Cons y ys)
  have "rnd (a + f y) \<le> rnd (b + g y)" by (intro rnd_mono add_mono) (use Cons.prems in simp_all)
  with Cons show ?case by simp
qed simp

text \<open>
  \<open>near k x y\<close>: the computed \<open>x\<close> is the exact \<open>y\<close> up to \<open>k\<close> roundings.
\<close>

definition near :: "nat \<Rightarrow> rat \<Rightarrow> rat \<Rightarrow> bool" where
  "near k x y \<longleftrightarrow> 0 \<le> y \<and> y * (1 - u) ^ k \<le> x \<and> x \<le> y * (1 + u) ^ k"

lemma near_exact: "0 \<le> y \<Longrightarrow> near 0 y y"
  by (simp add: near_def)

lemma near_nonneg: "near k x y \<Longrightarrow> 0 \<le> x \<and> 0 \<le> y"
proof -
  assume n: "near k x y"
  then have "0 \<le> y * (1 - u) ^ k" using unit_range by (simp add: near_def)
  also have "\<dots> \<le> x" using n by (simp add: near_def)
  finally show ?thesis using n by (simp add: near_def)
qed

lemma near_weaken:
  assumes "near k x y" "k \<le> l"
  shows "near l x y"
proof -
  have "(1 - u) ^ l \<le> (1 - u) ^ k" "(1 + u) ^ k \<le> (1 + u) ^ l"
    using unit_range assms(2) by (simp_all add: power_decreasing power_increasing)
  then have "y * (1 - u) ^ l \<le> y * (1 - u) ^ k" "y * (1 + u) ^ k \<le> y * (1 + u) ^ l"
    using assms(1) by (simp_all add: near_def mult_left_mono)
  with assms(1) show ?thesis unfolding near_def by linarith
qed

lemma near_add: "near k x y \<Longrightarrow> near k x' y' \<Longrightarrow> near k (x + x') (y + y')"
  by (simp add: near_def distrib_right)

lemma near_scale: "near k x y \<Longrightarrow> 0 \<le> c \<Longrightarrow> near k (x * c) (y * c)"
  unfolding near_def by (auto simp: mult.assoc mult.commute mult.left_commute intro: mult_left_mono)

lemma near_rnd:
  assumes "near k x y"
  shows "near (Suc k) (rnd x) y"
proof -
  have x: "0 \<le> x" and y: "0 \<le> y" using near_nonneg [OF assms] by simp_all
  have "\<bar>rnd x - x\<bar> \<le> u * x" using rnd_err [of x] x by simp
  then have b: "x * (1 - u) \<le> rnd x" "rnd x \<le> x * (1 + u)"
    by (simp_all add: algebra_simps abs_le_iff)
  have "y * (1 - u) ^ Suc k \<le> x * (1 - u)" "x * (1 + u) \<le> y * (1 + u) ^ Suc k"
    using assms unit_range mult_right_mono [of "y * (1 - u) ^ k" x "1 - u"]
      mult_right_mono [of x "y * (1 + u) ^ k" "1 + u"]
    by (simp_all add: near_def mult_ac)
  with b y show ?thesis unfolding near_def by linarith
qed

lemma near_const: "0 \<le> y \<Longrightarrow> near 1 (rnd y) y"
  using near_rnd [OF near_exact] by simp

end

text \<open>The unit roundoff of a double.\<close>

definition fl_unit :: rat where
  "fl_unit = 1 / 2 ^ 53"

interpretation f64: float_rounding fl fl_unit
  by unfold_locales (use fl_err in \<open>auto simp: fl_unit_def intro: fl_mono\<close>)

text \<open>Decimal rounding moves a number of the unit interval by half a unit of the last place.\<close>

lemma round_dec_err:
  assumes "0 \<le> x" "x \<le> 1"
  shows "\<bar>round_dec p x - x\<bar> \<le> 1 / (2 * 10 ^ p) + 1 / 2 ^ 53"
proof -
  define y where "y = (of_int (round_even (x * 10 ^ p)) / 10 ^ p :: rat)"
  have "\<bar>of_int (round_even (x * 10 ^ p)) - x * 10 ^ p\<bar> \<le> 1 / 2" by (rule round_even_err)
  then have "\<bar>of_int (round_even (x * 10 ^ p)) - x * 10 ^ p\<bar> / 10 ^ p \<le> 1 / 2 / 10 ^ p"
    by (intro divide_right_mono) auto
  also have "\<bar>of_int (round_even (x * 10 ^ p)) - x * 10 ^ p\<bar> / 10 ^ p = \<bar>y - x\<bar>"
  proof -
    have "(of_int (round_even (x * 10 ^ p)) - x * 10 ^ p) / 10 ^ p = y - x"
      by (simp add: y_def diff_divide_distrib)
    then show ?thesis by (metis abs_divide abs_numeral power_abs)
  qed
  finally have a: "\<bar>y - x\<bar> \<le> 1 / (2 * 10 ^ p)" by simp
  have "of_int 0 \<le> x * 10 ^ p" "x * 10 ^ p \<le> of_int (10 ^ p)"
    using assms by simp_all
  then have "0 \<le> round_even (x * 10 ^ p)" "round_even (x * 10 ^ p) \<le> 10 ^ p"
    using round_even_ge round_even_le by blast+
  then have "0 \<le> y" "y \<le> 1"
    unfolding y_def
    by (simp, metis (no_types, opaque_lifting) divide_le_eq_1_pos of_int_le_iff of_int_numeral of_int_power zero_less_numeral zero_less_power)
  then have "\<bar>fl y - y\<bar> \<le> 1 / 2 ^ 53"
    using fl_err [of y] by (simp add: divide_right_mono order_trans)
  with a show ?thesis unfolding round_dec_def y_def [symmetric] by linarith
qed

end
