(* ===== verification/PyVal.thy ===== *)
theory PyVal
  imports Prelude Complex_Main
begin

text \<open>
  The Python values that cross the trust boundary: what \<open>json.loads\<close> builds from an
  agent's or a model's reply, and what the callers' dictionaries hold.  Everything the
  program narrows with \<open>isinstance\<close> before use has this type.  A float is the rational it
  denotes, with constructors of their own for NaN and the infinities, which Python's JSON
  reader accepts.
\<close>

section \<open>Values\<close>

datatype pyval =
    PNone
  | PBool bool
  | PInt int
  | PFloat rat
  | PNan
  | PInf bool
  | PStr pystr
  | PList "pyval list"
  | PDict "(pystr \<times> pyval) list"

type_synonym pymap = "(pystr, pyval) pydict"

text \<open>\<open>m.get(k)\<close> with the default \<open>None\<close>.\<close>

definition py_get :: "pymap \<Rightarrow> pystr \<Rightarrow> pyval" where
  "py_get m k = dict_get_or m k PNone"

text \<open>Truthiness, \<open>bool(v)\<close>.\<close>

fun truthy :: "pyval \<Rightarrow> bool" where
  "truthy PNone = False"
| "truthy (PBool b) = b"
| "truthy (PInt i) = (i \<noteq> 0)"
| "truthy (PFloat x) = (x \<noteq> 0)"
| "truthy PNan = True"
| "truthy (PInf _) = True"
| "truthy (PStr s) = (s \<noteq> [])"
| "truthy (PList vs) = (vs \<noteq> [])"
| "truthy (PDict m) = (m \<noteq> [])"

fun is_mapping :: "pyval \<Rightarrow> bool" where
  "is_mapping (PDict _) = True"
| "is_mapping _ = False"

fun is_pystr :: "pyval \<Rightarrow> bool" where
  "is_pystr (PStr _) = True"
| "is_pystr _ = False"

text \<open>The mappings among the items of a list, and the strings among them.\<close>

fun mappings_of :: "pyval list \<Rightarrow> pymap list" where
  "mappings_of [] = []"
| "mappings_of (PDict m # vs) = m # mappings_of vs"
| "mappings_of (_ # vs) = mappings_of vs"

fun strings_of :: "pyval list \<Rightarrow> pystr list" where
  "strings_of [] = []"
| "strings_of (PStr s # vs) = s # strings_of vs"
| "strings_of (_ # vs) = strings_of vs"

lemma py_get_Nil [simp]: "py_get [] k = PNone"
  by (simp add: py_get_def dict_get_or_def)

lemma py_get_Cons [simp]: "py_get ((k, v) # m) k' = (if k = k' then v else py_get m k')"
  by (simp add: py_get_def dict_get_or_def)

lemma mappings_of_PDict [simp]: "mappings_of (map PDict ms) = ms"
  by (induction ms) auto

lemma strings_of_PStr [simp]: "strings_of (map PStr ss) = ss"
  by (induction ss) auto

text \<open>
  What a set or a dict key compares: numbers by value, whatever their type.  \<open>None\<close> is the
  \<open>TypeError\<close> of an unhashable value.
\<close>

fun hash_key :: "pyval \<Rightarrow> pyval option" where
  "hash_key (PBool b) = Some (PInt (if b then 1 else 0))"
| "hash_key (PFloat x) = Some (if x = of_int \<lfloor>x\<rfloor> then PInt \<lfloor>x\<rfloor> else PFloat x)"
| "hash_key (PList _) = None"
| "hash_key (PDict _) = None"
| "hash_key v = Some v"

text \<open>
  \<open>str(v)\<close>.  The text of a float, a list or a dict is the interpreter's \<open>repr\<close>, which the
  program never reads back: it is the argument \<open>rep\<close>.
\<close>

fun py_str :: "(pyval \<Rightarrow> pystr) \<Rightarrow> pyval \<Rightarrow> pystr" where
  "py_str rep (PStr s) = s"
| "py_str rep PNone = ''None''"
| "py_str rep (PBool b) = (if b then ''True'' else ''False'')"
| "py_str rep (PInt i) = show_int i"
| "py_str rep v = rep v"

text \<open>A list all of whose items are mappings; \<open>None\<close> when an item is not.\<close>

fun all_mappings :: "pyval list \<Rightarrow> pymap list option" where
  "all_mappings [] = Some []"
| "all_mappings (PDict m # vs) = map_option (\<lambda>ms. m # ms) (all_mappings vs)"
| "all_mappings (_ # vs) = None"

lemma all_mappings_PDict [simp]: "all_mappings (map PDict ms) = Some ms"
  by (induction ms) auto

lemma all_mappings_Some: "all_mappings vs = Some ms \<longleftrightarrow> vs = map PDict ms"
proof
  show "all_mappings vs = Some ms \<Longrightarrow> vs = map PDict ms"
    by (induction vs arbitrary: ms rule: all_mappings.induct) auto
qed simp

text \<open>
  A data file the program loads: it cannot be read, its text does not parse, or it holds a
  value.
\<close>

datatype json_file = Unreadable | NotJson | Json pyval

text \<open>
  Iterating a value in a \<open>for\<close> loop: a list gives its items, a string its characters, a
  mapping its keys.  \<open>None\<close> is the \<open>TypeError\<close> of a value that is not iterable.
\<close>

fun py_iter :: "pyval \<Rightarrow> pyval list option" where
  "py_iter (PList vs) = Some vs"
| "py_iter (PStr s) = Some (map (\<lambda>c. PStr [c]) s)"
| "py_iter (PDict m) = Some (map (PStr \<circ> fst) m)"
| "py_iter _ = None"

text \<open>\<open>v or default\<close>.\<close>

definition py_or :: "pyval \<Rightarrow> pyval \<Rightarrow> pyval" where
  "py_or v d = (if truthy v then v else d)"

end
