(* ===== verification/Gates.thy ===== *)
theory Gates
  imports Binary64 PyVal
begin

text \<open>
  The vocabulary of fix validation: \<open>validation/enums/gates.py\<close>,
  \<open>validation/enums/verdicts.py\<close>, \<open>validation/enums/readiness.py\<close> and the constants of
  \<open>validation/constants/scoring.py\<close> and \<open>validation/constants/synthesis.py\<close>.  An enum
  is a datatype with its \<open>.value\<close>; the wire carries the string.
\<close>

section \<open>Gate statuses\<close>

datatype gate_status = Pass | Partial | Fail | Skip | Invalid

fun gs_value :: "gate_status \<Rightarrow> pystr" where
  "gs_value Pass = ''pass''"
| "gs_value Partial = ''partial''"
| "gs_value Fail = ''fail''"
| "gs_value Skip = ''skip''"
| "gs_value Invalid = ''invalid''"

definition gs_of_value :: "pystr \<Rightarrow> gate_status option" where
  "gs_of_value s = find (\<lambda>g. gs_value g = s) [Pass, Partial, Fail, Skip, Invalid]"

definition parse_status :: "pyval \<Rightarrow> gate_status" where
  "parse_status v =
     (case v of
        PStr s \<Rightarrow> (case gs_of_value (py_lower (py_strip s)) of Some g \<Rightarrow> g | None \<Rightarrow> Invalid)
      | _ \<Rightarrow> Invalid)"

abbreviation parse_status_str :: "pystr \<Rightarrow> gate_status" where
  "parse_status_str s \<equiv> parse_status (PStr s)"

lemma gs_of_value_Some [simp]: "gs_of_value (gs_value g) = Some g"
  by (cases g) (simp_all add: gs_of_value_def)

lemma parse_status_value [simp]: "parse_status_str (gs_value g) = g"
  by (induction g) (code_simp+)

lemma gs_value_inject [simp]: "gs_value g = gs_value h \<longleftrightarrow> g = h"
  by (metis parse_status_value)

text \<open>The most severe status first, as persona synthesis ranks a disagreement.\<close>

definition status_conservative_rank :: "gate_status list" where
  "status_conservative_rank = [Fail, Partial, Pass, Skip, Invalid]"

section \<open>Gate names\<close>

datatype gate_name = RootCause | InstanceCoverage | NoNewVulns | BestPractices

fun gn_value :: "gate_name \<Rightarrow> pystr" where
  "gn_value RootCause = ''root_cause''"
| "gn_value InstanceCoverage = ''instance_coverage''"
| "gn_value NoNewVulns = ''no_new_vulnerabilities''"
| "gn_value BestPractices = ''security_best_practices''"

definition gate_names :: "gate_name list" where
  "gate_names = [RootCause, InstanceCoverage, NoNewVulns, BestPractices]"

text \<open>\<open>GateName(s)\<close>: \<open>None\<close> stands for the \<open>ValueError\<close>.\<close>

definition gn_of_value :: "pystr \<Rightarrow> gate_name option" where
  "gn_of_value s = find (\<lambda>g. gn_value g = s) gate_names"

lemma gn_value_inject [simp]: "gn_value g = gn_value h \<longleftrightarrow> g = h"
  by (cases g; cases h) simp_all

lemma gn_of_value_Some [simp]: "gn_of_value (gn_value g) = Some g"
  by (cases g) (simp_all add: gn_of_value_def gate_names_def)

lemma gn_of_valueD: "gn_of_value s = Some g \<Longrightarrow> gn_value g = s"
  by (auto simp: gn_of_value_def find_Some_iff)

lemma set_gate_names [simp]: "set gate_names = UNIV"
  by (auto simp: gate_names_def intro: gate_name.exhaust)

lemma gn_of_value_None: "gn_of_value s = None \<longleftrightarrow> s \<notin> range gn_value"
  by (auto simp: gn_of_value_def find_None_iff)

section \<open>Verdicts and merge readiness\<close>

datatype fix_verdict = Fixed | PartiallyFixed | NotFixed | Unverifiable

fun fv_value :: "fix_verdict \<Rightarrow> pystr" where
  "fv_value Fixed = ''Fixed''"
| "fv_value PartiallyFixed = ''Partially Fixed''"
| "fv_value NotFixed = ''Not Fixed''"
| "fv_value Unverifiable = ''UNVERIFIABLE''"

definition parse_verdict :: "pystr \<Rightarrow> fix_verdict" where
  "parse_verdict s =
     (case find (\<lambda>v. fv_value v = s) [Fixed, PartiallyFixed, NotFixed, Unverifiable] of
        Some v \<Rightarrow> v | None \<Rightarrow> Unverifiable)"

lemma parse_verdict_value [simp]: "parse_verdict (fv_value v) = v"
  by (cases v) (simp_all add: parse_verdict_def)

lemma fv_value_inject [simp]: "fv_value v = fv_value w \<longleftrightarrow> v = w"
  by (metis parse_verdict_value)

datatype merge_readiness = Ready | NotReady | ReadyWithConditions

section \<open>Scoring constants\<close>

text \<open>A float literal is the double nearest to its decimal value.\<close>

definition gate_weights :: "(pystr, rat) pydict" where
  "gate_weights =
     [(gn_value RootCause, fl (43 / 100)),
      (gn_value InstanceCoverage, fl (2467 / 10000)),
      (gn_value NoNewVulns, fl (1867 / 10000)),
      (gn_value BestPractices, fl (1366 / 10000))]"

definition threshold_fixed :: rat where "threshold_fixed = fl (80 / 100)"

definition threshold_partial :: rat where "threshold_partial = fl (50 / 100)"

definition status_multiplier_tab :: "(pystr, rat) pydict" where
  "status_multiplier_tab =
     [(gs_value Pass, 1), (gs_value Partial, fl (5 / 10)), (gs_value Fail, 0), (gs_value Skip, 0)]"

definition score_floor :: rat where "score_floor = 0"

definition criterion_name_field :: pystr where "criterion_name_field = ''gate_name''"

definition score_precision :: nat where "score_precision = 4"

definition confidence_percent_scale :: int where "confidence_percent_scale = 100"

definition max_evidence_anchors :: nat where "max_evidence_anchors = 5"

definition min_consensus_votes :: nat where "min_consensus_votes = 2"

end
