(* ===== verification/Scoring.thy ===== *)
theory Scoring
  imports Gates "HOL-Library.Multiset"
begin

text \<open>
  The fix-validation scoring engine: \<open>validation/scoring/_engine.py\<close>,
  \<open>_configs.py\<close>, \<open>_justify.py\<close> and \<open>__init__.py\<close>, on the types of
  \<open>validation/models/scoring.py\<close>.  Agents emit one criterion per gate; the engine decides
  whether the set can be scored at all, scores it with weights, and caps the verdict when a
  critical gate is not clean.  A Python \<open>KeyError\<close> is the value \<open>None\<close>.
\<close>

section \<open>Data\<close>

record raw_evidence =
  ev_file :: pystr
  ev_line :: "int option"
  ev_snippet :: pystr

record raw_criterion =
  rc_name :: pystr
  rc_status :: pystr
  rc_summary :: pystr
  rc_details :: pystr
  rc_evidence :: "raw_evidence list"

record verdict_rule =
  vr_min_score :: rat
  vr_label :: pystr

record score_result =
  sr_raw_score :: rat
  sr_label :: pystr
  sr_justification :: pystr

record scoring_config =
  sc_name_field :: pystr
  sc_expected :: "pystr set"
  sc_weights :: "(pystr, rat) pydict"
  sc_multiplier :: "(pystr, rat) pydict"
  sc_verdicts :: "verdict_rule list"
  sc_unverifiable :: pystr
  sc_justify :: "score_result \<Rightarrow> raw_criterion list \<Rightarrow> pymap \<Rightarrow> pystr"
  sc_critical :: "pystr set"

record gate_result =
  gr_gate :: gate_name
  gr_status :: gate_status
  gr_summary :: pystr
  gr_evidence :: "raw_evidence list"
  gr_details :: pystr

record validation_score =
  vs_raw_score :: rat
  vs_fix_status :: fix_verdict
  vs_justification :: pystr
  vs_gate_results :: "gate_result list"
  vs_critical_failure :: bool

section \<open>Narrowing what the agent emitted\<close>

definition str_from :: "pymap \<Rightarrow> pystr \<Rightarrow> pystr" where
  "str_from entry key = (case dict_get entry key of Some (PStr s) \<Rightarrow> s | _ \<Rightarrow> [])"

text \<open>\<open>bool\<close> is a subclass of \<open>int\<close>, which the source excludes first.\<close>

fun int_or_none :: "pyval \<Rightarrow> int option" where
  "int_or_none (PBool _) = None"
| "int_or_none (PInt i) = Some i"
| "int_or_none _ = None"

definition parse_evidence :: "pymap \<Rightarrow> raw_evidence" where
  "parse_evidence e =
     \<lparr>ev_file = str_from e ''file'', ev_line = int_or_none (py_get e ''line''),
      ev_snippet = str_from e ''snippet''\<rparr>"

definition parse_raw_criterion :: "pymap \<Rightarrow> pystr \<Rightarrow> raw_criterion" where
  "parse_raw_criterion entry name_field =
     \<lparr>rc_name = str_from entry name_field,
      rc_status = gs_value (parse_status_str (str_from entry ''status'')),
      rc_summary = str_from entry ''summary'',
      rc_details = str_from entry ''details'',
      rc_evidence =
        (case dict_get_or entry ''evidence'' (PList []) of
           PList vs \<Rightarrow> map parse_evidence (mappings_of vs) | _ \<Rightarrow> [])\<rparr>"

section \<open>The checks before scoring\<close>

definition unverifiable_result :: "scoring_config \<Rightarrow> pystr \<Rightarrow> score_result" where
  "unverifiable_result cfg msg =
     \<lparr>sr_raw_score = 0, sr_label = sc_unverifiable cfg,
      sr_justification = sc_unverifiable cfg @ msg\<rparr>"

definition shape_error :: "scoring_config \<Rightarrow> raw_criterion list \<Rightarrow> score_result option" where
  "shape_error cfg raw =
     (let names = map rc_name raw; provided = set names in
      if provided \<noteq> sc_expected cfg then
        Some (unverifiable_result cfg
          ('': Missing criterion evaluations: '' @
           join_with '', '' (sorted_list_of_set (sc_expected cfg - provided)) @ ''.''))
      else if length names \<noteq> card provided then
        Some (unverifiable_result cfg
          ('': Duplicate criterion evaluations: '' @
           join_with '', '' (sorted_list_of_set (set (filter (\<lambda>n. 1 < count_list names n) names))) @ ''.''))
      else None)"

definition unevaluated :: "pystr list" where
  "unevaluated = [gs_value Skip, gs_value Invalid]"

definition critical_not_clean :: "pystr list" where
  "critical_not_clean = [gs_value Partial, gs_value Fail]"

definition critical_gate_error :: "scoring_config \<Rightarrow> raw_criterion list \<Rightarrow> score_result option" where
  "critical_gate_error cfg raw =
     map_option (\<lambda>c. unverifiable_result cfg
         ('': critical gate '' @ [CHR 0x27] @ rc_name c @ [CHR 0x27] @ '' was not evaluated (status '' @
          [CHR 0x27] @ rc_status c @ [CHR 0x27] @ '').''))
       (find (\<lambda>c. rc_name c \<in> sc_critical cfg \<and> rc_status c \<in> set unevaluated) raw)"

definition precheck :: "scoring_config \<Rightarrow> raw_criterion list \<Rightarrow> score_result option" where
  "precheck cfg raw =
     (case shape_error cfg raw of Some e \<Rightarrow> Some e | None \<Rightarrow> critical_gate_error cfg raw)"

section \<open>The weighted score\<close>

text \<open>
  The loop adds to \<open>active_weight\<close> and \<open>earned\<close>, rounding each operation, and skips a
  skipped gate.  \<open>None\<close> is the \<open>KeyError\<close> of \<open>cfg.weights[c.name]\<close>.
\<close>

fun score_loop :: "scoring_config \<Rightarrow> rat \<Rightarrow> rat \<Rightarrow> raw_criterion list \<Rightarrow> (rat \<times> rat) option" where
  "score_loop cfg earned active [] = Some (earned, active)"
| "score_loop cfg earned active (c # raw) =
     (if rc_status c = gs_value Skip then score_loop cfg earned active raw
      else case dict_get (sc_weights cfg) (rc_name c) of
        None \<Rightarrow> None
      | Some w \<Rightarrow>
          score_loop cfg
            (fl (earned + fl (w * dict_get_or (sc_multiplier cfg) (rc_status c) score_floor)))
            (fl (active + w)) raw)"

definition renormalized_score :: "scoring_config \<Rightarrow> raw_criterion list \<Rightarrow> (score_result + rat) option" where
  "renormalized_score cfg raw =
     (case score_loop cfg 0 0 raw of
        None \<Rightarrow> None
      | Some (earned, active) \<Rightarrow>
          if active \<le> 0 then Some (Inl (unverifiable_result cfg '': no gates were evaluated.''))
          else Some (Inr (round_dec score_precision (min (fl (earned / active)) 1))))"

section \<open>From the score to the verdict\<close>

definition apply_verdicts :: "scoring_config \<Rightarrow> rat \<Rightarrow> pystr" where
  "apply_verdicts cfg s =
     (case find (\<lambda>r. vr_min_score r \<le> s) (sc_verdicts cfg) of
        Some r \<Rightarrow> vr_label r | None \<Rightarrow> sc_unverifiable cfg)"

definition cap_critical_fail :: "scoring_config \<Rightarrow> raw_criterion list \<Rightarrow> pystr \<Rightarrow> pystr" where
  "cap_critical_fail cfg raw label =
     (case sc_verdicts cfg of
        [] \<Rightarrow> label
      | first # rest \<Rightarrow>
          if label \<noteq> vr_label first then label
          else if list_ex (\<lambda>c. rc_name c \<in> sc_critical cfg \<and> rc_status c \<in> set critical_not_clean) raw
          then (case rest of [] \<Rightarrow> label | second # _ \<Rightarrow> vr_label second)
          else label)"

definition score :: "scoring_config \<Rightarrow> raw_criterion list \<Rightarrow> pymap \<Rightarrow> score_result option" where
  "score cfg raw extra =
     (case precheck cfg raw of
        Some e \<Rightarrow> Some e
      | None \<Rightarrow>
          case renormalized_score cfg raw of
            None \<Rightarrow> None
          | Some (Inl e) \<Rightarrow> Some e
          | Some (Inr s) \<Rightarrow>
              let label = cap_critical_fail cfg raw (apply_verdicts cfg s);
                  partial = \<lparr>sr_raw_score = s, sr_label = label, sr_justification = []\<rparr>
              in Some \<lparr>sr_raw_score = s, sr_label = label,
                       sr_justification = sc_justify cfg partial raw extra\<rparr>)"

section \<open>The justification text\<close>

definition confidence_pct :: "score_result \<Rightarrow> int" where
  "confidence_pct r = round_even (fl (sr_raw_score r * of_int confidence_percent_scale))"

definition collect_evidence_anchors :: "raw_criterion list \<Rightarrow> pystr list" where
  "collect_evidence_anchors cs =
     concat (map (\<lambda>c. map (\<lambda>e. case ev_line e of
         Some l \<Rightarrow> ev_file e @ '':'' @ show_int l | None \<Rightarrow> ev_file e) (rc_evidence c)) cs)"

definition anchors_str :: "raw_criterion list \<Rightarrow> pystr" where
  "anchors_str cs = join_with ''; '' (take max_evidence_anchors (collect_evidence_anchors cs))"

definition summaries_where :: "(gate_status \<Rightarrow> bool) \<Rightarrow> raw_criterion list \<Rightarrow> pystr" where
  "summaries_where p cs =
     join_with ''; '' (map rc_summary (filter (\<lambda>c. p (parse_status_str (rc_status c))) cs))"

definition fail_statuses :: "gate_status list" where
  "fail_statuses = [Fail, Partial]"

definition files_needing_fixes :: "raw_criterion list \<Rightarrow> pystr list" where
  "files_needing_fixes cs =
     sorted_list_of_set (set (filter (\<lambda>f. f \<noteq> [])
       (concat (map (\<lambda>c. map ev_file (rc_evidence c))
         (filter (\<lambda>c. parse_status_str (rc_status c) \<in> set fail_statuses) cs)))))"

definition recommended_actions :: "raw_criterion list \<Rightarrow> pystr list" where
  "recommended_actions cs =
     (let actions = map (\<lambda>g. ''Address '' @ rc_name g @ '': '' @ rc_summary g)
                      (filter (\<lambda>g. parse_status_str (rc_status g) = Fail) cs)
      in if actions = [] then [''Review all failing gates and apply fixes''] else actions)"

definition fixed_text :: "score_result \<Rightarrow> raw_criterion list \<Rightarrow> pystr" where
  "fixed_text r cs =
     ''Fix verified: '' @ summaries_where (\<lambda>g. g = Pass) cs @ ''. Fix confidence: '' @
     show_int (confidence_pct r) @ ''%. Evidence: '' @ anchors_str cs @ ''.''"

definition partial_text :: "score_result \<Rightarrow> raw_criterion list \<Rightarrow> pystr" where
  "partial_text r cs =
     (let files = files_needing_fixes cs in
      ''Partial fix: '' @ summaries_where (\<lambda>g. g = Pass) cs @ ''. Gaps: '' @
      summaries_where (\<lambda>g. g \<in> set fail_statuses) cs @ ''. Fix confidence: '' @
      show_int (confidence_pct r) @ ''%. Files needing fixes: '' @
      (if files = [] then ''N/A'' else join_with '', '' files) @ ''.'')"

definition not_fixed_text :: "score_result \<Rightarrow> raw_criterion list \<Rightarrow> pystr" where
  "not_fixed_text r cs =
     (let files = files_needing_fixes cs in
      ''Fix insufficient: '' @ summaries_where (\<lambda>g. g = Fail) cs @
      ''. Vulnerable pattern remains in '' @
      (if files = [] then ''affected files'' else join_with '', '' files) @
      ''. Fix confidence: '' @ show_int (confidence_pct r) @
      ''%. Recommended action: '' @ join_with ''; '' (recommended_actions cs) @ ''.'')"

definition build_fix_justification :: "score_result \<Rightarrow> raw_criterion list \<Rightarrow> pymap \<Rightarrow> pystr" where
  "build_fix_justification r gates extra =
     (if sr_label r = fv_value Unverifiable then sr_justification r
      else if sr_label r = fv_value Fixed then fixed_text r gates
      else if sr_label r = fv_value PartiallyFixed then partial_text r gates
      else not_fixed_text r gates)"

section \<open>The fix-validation path\<close>

definition fix_config :: scoring_config where
  "fix_config =
     \<lparr>sc_name_field = criterion_name_field,
      sc_expected = set (dict_keys gate_weights),
      sc_weights = gate_weights,
      sc_multiplier = status_multiplier_tab,
      sc_verdicts =
        [\<lparr>vr_min_score = threshold_fixed, vr_label = fv_value Fixed\<rparr>,
         \<lparr>vr_min_score = threshold_partial, vr_label = fv_value PartiallyFixed\<rparr>,
         \<lparr>vr_min_score = score_floor, vr_label = fv_value NotFixed\<rparr>],
      sc_unverifiable = fv_value Unverifiable,
      sc_justify = build_fix_justification,
      sc_critical = {gn_value NoNewVulns, gn_value RootCause}\<rparr>"

definition parse_gates :: "pymap list \<Rightarrow> raw_criterion list" where
  "parse_gates raw = map (\<lambda>g. parse_raw_criterion g (sc_name_field fix_config)) raw"

definition has_critical_failure :: "raw_criterion list \<Rightarrow> bool" where
  "has_critical_failure parsed =
     list_ex (\<lambda>c. rc_name c \<in> sc_critical fix_config \<and> rc_status c \<in> set critical_not_clean) parsed"

definition build_gate_results :: "raw_criterion list \<Rightarrow> gate_result list" where
  "build_gate_results parsed =
     List.map_filter (\<lambda>c. map_option (\<lambda>g.
        \<lparr>gr_gate = g, gr_status = parse_status_str (rc_status c), gr_summary = rc_summary c,
         gr_evidence = rc_evidence c, gr_details = rc_details c\<rparr>) (gn_of_value (rc_name c))) parsed"

definition score_parsed :: "raw_criterion list \<Rightarrow> validation_score option" where
  "score_parsed parsed =
     map_option (\<lambda>r.
        \<lparr>vs_raw_score = sr_raw_score r, vs_fix_status = parse_verdict (sr_label r),
         vs_justification = sr_justification r, vs_gate_results = build_gate_results parsed,
         vs_critical_failure = has_critical_failure parsed\<rparr>) (score fix_config parsed [])"

definition score_fix :: "pymap list \<Rightarrow> validation_score option" where
  "score_fix gates = score_parsed (parse_gates gates)"

definition derive_merge_readiness :: "validation_score \<Rightarrow> merge_readiness" where
  "derive_merge_readiness s =
     (case vs_fix_status s of
        Fixed \<Rightarrow> Ready | PartiallyFixed \<Rightarrow> ReadyWithConditions | _ \<Rightarrow> NotReady)"

end
