(* ===== verification/ScoringSpec.thy ===== *)
theory ScoringSpec
  imports Scoring
begin

text \<open>
  What the scoring engine promises, and that it keeps the promise.  The specification is
  stated over exact rationals and over the set of gate statuses, without an order: the
  weighted average of the evaluated gates, two thresholds, and the veto of the critical
  gates.  The refinement shows that the engine's loop over doubles, in whatever order the
  agent listed the gates, reaches the same verdict: rounding never moves a verdict across
  a threshold.
\<close>

section \<open>The specification\<close>

fun weight_exact :: "gate_name \<Rightarrow> rat" where
  "weight_exact RootCause = 43 / 100"
| "weight_exact InstanceCoverage = 2467 / 10000"
| "weight_exact NoNewVulns = 1867 / 10000"
| "weight_exact BestPractices = 1366 / 10000"

fun mult_exact :: "gate_status \<Rightarrow> rat" where
  "mult_exact Pass = 1"
| "mult_exact Partial = 1 / 2"
| "mult_exact _ = 0"

definition active_exact :: "(gate_name \<times> gate_status) list \<Rightarrow> rat" where
  "active_exact gs = (\<Sum>(g, s) \<leftarrow> gs. if s = Skip then 0 else weight_exact g)"

definition earned_exact :: "(gate_name \<times> gate_status) list \<Rightarrow> rat" where
  "earned_exact gs = (\<Sum>(g, s) \<leftarrow> gs. if s = Skip then 0 else weight_exact g * mult_exact s)"

definition spec_score :: "(gate_name \<times> gate_status) list \<Rightarrow> rat" where
  "spec_score gs = earned_exact gs / active_exact gs"

text \<open>A criteria list evaluates each gate once, in any order.\<close>

definition well_shaped :: "raw_criterion list \<Rightarrow> bool" where
  "well_shaped parsed \<longleftrightarrow> mset (map rc_name parsed) = mset (map gn_value gate_names)"

definition status_of :: "raw_criterion list \<Rightarrow> gate_name \<Rightarrow> gate_status" where
  "status_of parsed g =
     (case find (\<lambda>c. rc_name c = gn_value g) parsed of
        Some c \<Rightarrow> parse_status_str (rc_status c) | None \<Rightarrow> Invalid)"

definition gates_of :: "(gate_name \<Rightarrow> gate_status) \<Rightarrow> (gate_name \<times> gate_status) list" where
  "gates_of st = map (\<lambda>g. (g, st g)) gate_names"

definition critical_evaluated :: "(gate_name \<Rightarrow> gate_status) \<Rightarrow> bool" where
  "critical_evaluated st \<longleftrightarrow>
     st RootCause \<notin> {Skip, Invalid} \<and> st NoNewVulns \<notin> {Skip, Invalid}"

definition spec_verdict :: "raw_criterion list \<Rightarrow> fix_verdict" where
  "spec_verdict parsed =
     (let st = status_of parsed; s = spec_score (gates_of st) in
      if \<not> well_shaped parsed \<or> \<not> critical_evaluated st then Unverifiable
      else if 8 / 10 \<le> s \<and> st RootCause = Pass \<and> st NoNewVulns = Pass then Fixed
      else if 1 / 2 \<le> s then PartiallyFixed
      else NotFixed)"

section \<open>Parsed criteria are gates with statuses\<close>

lemma parsed_status: "c \<in> set (parse_gates raw) \<Longrightarrow> \<exists>s. rc_status c = gs_value s"
  by (auto simp: parse_gates_def parse_raw_criterion_def)

definition canonical :: "raw_criterion list \<Rightarrow> bool" where
  "canonical parsed \<longleftrightarrow> (\<forall>c \<in> set parsed. rc_status c \<in> range gs_value)"

lemma canonical_parse_gates [simp]: "canonical (parse_gates raw)"
  by (auto simp: canonical_def dest: parsed_status)

lemma set_expected: "sc_expected fix_config = set (map gn_value gate_names)"
  by (simp add: fix_config_def gate_weights_def gate_names_def)

lemma distinct_gate_values [simp]: "distinct (map gn_value gate_names)"
  by (simp add: gate_names_def)

lemma shape_error_None:
  "shape_error fix_config parsed = None \<longleftrightarrow> well_shaped parsed"
proof -
  have "well_shaped parsed \<longleftrightarrow>
      set (map rc_name parsed) = set (map gn_value gate_names) \<and> distinct (map rc_name parsed)"
    unfolding well_shaped_def
    by (metis distinct_gate_values mset_eq_imp_distinct_iff mset_eq_setD set_eq_iff_mset_eq_distinct)
  moreover have "distinct (map rc_name parsed) \<longleftrightarrow>
      length (map rc_name parsed) = card (set (map rc_name parsed))"
    by (metis card_distinct distinct_card)
  moreover have "shape_error fix_config parsed = None \<longleftrightarrow>
      set (map rc_name parsed) = set (map gn_value gate_names) \<and>
      length (map rc_name parsed) = card (set (map rc_name parsed))"
    unfolding shape_error_def Let_def set_expected by (simp split: if_split)
  ultimately show ?thesis by blast
qed

text \<open>The shape of a scored list: names and statuses are those of \<open>gs\<close>.\<close>

definition gates_list :: "raw_criterion list \<Rightarrow> (gate_name \<times> gate_status) list \<Rightarrow> bool" where
  "gates_list parsed gs \<longleftrightarrow>
     map (\<lambda>c. (rc_name c, rc_status c)) parsed = map (\<lambda>(g, s). (gn_value g, gs_value s)) gs"

lemma gates_listI:
  assumes "well_shaped parsed" "canonical parsed"
  shows "\<exists>gs. gates_list parsed gs \<and> mset gs = mset (gates_of (status_of parsed))"
proof -
  let ?gs = "map (\<lambda>c. (the (gn_of_value (rc_name c)), parse_status_str (rc_status c))) parsed"
  have names: "rc_name c \<in> range gn_value" if "c \<in> set parsed" for c
  proof -
    have "rc_name c \<in># mset (map rc_name parsed)" using that by simp
    then have "rc_name c \<in># mset (map gn_value gate_names)"
      using assms(1) by (simp only: well_shaped_def)
    then show ?thesis by auto
  qed
  have a: "gates_list parsed ?gs"
    using assms(2) names by (fastforce simp: gates_list_def canonical_def)
  have d: "distinct (map rc_name parsed)"
    using assms(1) unfolding well_shaped_def by (metis distinct_gate_values mset_eq_imp_distinct_iff)
  have st: "parse_status_str (rc_status c) = status_of parsed g"
    if "c \<in> set parsed" "rc_name c = gn_value g" for c g
  proof -
    have "find (\<lambda>c. rc_name c = gn_value g) parsed = Some c"
      using d that by (induction parsed) (auto simp: image_iff)
    then show ?thesis by (simp add: status_of_def)
  qed
  have "?gs = map (\<lambda>g. (g, status_of parsed g)) (map (\<lambda>c. the (gn_of_value (rc_name c))) parsed)"
    using names st by fastforce
  also have "mset \<dots> = image_mset (\<lambda>g. (g, status_of parsed g))
       (image_mset (the \<circ> gn_of_value) (mset (map rc_name parsed)))"
    by (simp add: multiset.map_comp comp_def)
  also have "image_mset (the \<circ> gn_of_value) (mset (map rc_name parsed)) = mset gate_names"
    using assms(1) by (simp add: well_shaped_def multiset.map_comp comp_def del: mset_map flip: mset_map)
  finally show ?thesis using a by (auto simp: gates_of_def)
qed

section \<open>The loop computes the exact sums up to rounding\<close>

lemma weights_lookup: "dict_get (sc_weights fix_config) (gn_value g) = Some (fl (weight_exact g))"
  by (cases g) (simp_all add: fix_config_def gate_weights_def)

lemma mult_lookup:
  "dict_get_or (sc_multiplier fix_config) (gs_value s) score_floor = mult_exact s"
proof -
  have "fl (5 / 10) = 1 / 2" using fl_two_powi [of "- 1"] by simp
  then show ?thesis
    by (cases s) (simp_all add: fix_config_def status_multiplier_tab_def dict_get_or_def score_floor_def)
qed

lemma weight_exact_pos [simp]: "0 < weight_exact g"
  by (cases g) simp_all

lemma mult_exact_nonneg [simp]: "0 \<le> mult_exact s"
  by (cases s) simp_all

lemma score_loop_near:
  assumes "gates_list parsed gs" "f64.near (k + 2) e E" "f64.near (k + 2) a A"
  shows "\<exists>e' a'. score_loop fix_config e a parsed = Some (e', a') \<and>
     f64.near (k + 2 + length gs) e' (E + earned_exact gs) \<and>
     f64.near (k + 2 + length gs) a' (A + active_exact gs)"
  using assms
proof (induction gs arbitrary: parsed k e E a A)
  case Nil
  then show ?case by (simp add: gates_list_def earned_exact_def active_exact_def)
next
  case (Cons p gs)
  obtain g s where p: "p = (g, s)" by (cases p)
  from Cons.prems(1) obtain c cs where cs: "parsed = c # cs" "rc_name c = gn_value g"
    "rc_status c = gs_value s" "gates_list cs gs"
    by (auto simp: gates_list_def p map_eq_Cons_conv)
  show ?case
  proof (cases "s = Skip")
    case True
    have "f64.near (Suc k + 2) e E" "f64.near (Suc k + 2) a A"
      using Cons.prems by (auto elim: f64.near_weaken)
    from Cons.IH [OF cs(4) this] True show ?thesis
      by (simp add: cs p earned_exact_def active_exact_def)
  next
    case False
    let ?w = "weight_exact g" and ?m = "mult_exact s"
    have w: "f64.near 1 (fl ?w) ?w" by (rule f64.near_const) (simp add: less_imp_le)
    have "f64.near (Suc 1) (fl (fl ?w * ?m)) (?w * ?m)"
      by (intro f64.near_rnd f64.near_scale w) simp
    then have e': "f64.near (Suc k + 2) (fl (e + fl (fl ?w * ?m))) (E + ?w * ?m)"
      unfolding add_Suc by (intro f64.near_rnd f64.near_add Cons.prems) (auto elim: f64.near_weaken)
    have a': "f64.near (Suc k + 2) (fl (a + fl ?w)) (A + ?w)"
      unfolding add_Suc by (intro f64.near_rnd f64.near_add Cons.prems) (use w in \<open>auto elim: f64.near_weaken\<close>)
    have "gs_value s \<noteq> ''skip''" using False by (cases s) simp_all
    with Cons.IH [OF cs(4) e' a'] False show ?thesis
      by (simp add: cs p weights_lookup mult_lookup earned_exact_def active_exact_def add.assoc)
  qed
qed

lemma unit_factors:
  "(1 - 1 / 10 ^ 12) * (1 + fl_unit) ^ 6 \<le> (1 - fl_unit) ^ 7"
  "(1 + fl_unit) ^ 7 \<le> (1 + 1 / 10 ^ 12) * (1 - fl_unit) ^ 6"
  unfolding fl_unit_def by code_simp+

lemma ratio_close:
  assumes e: "f64.near 6 e E" and a: "f64.near 6 a A" and A: "0 < A" and EA: "E \<le> A"
  shows "0 < a" and "\<bar>min (fl (e / a)) 1 - E / A\<bar> \<le> 1 / 10 ^ 12"
proof -
  let ?u = fl_unit
  have u: "0 < 1 - ?u" "0 < 1 + ?u" by (simp_all add: fl_unit_def)
  have ea: "E * (1 - ?u) ^ 6 \<le> e" "e \<le> E * (1 + ?u) ^ 6"
    "A * (1 - ?u) ^ 6 \<le> a" "a \<le> A * (1 + ?u) ^ 6"
    using e a by (simp_all add: f64.near_def)
  have E0: "0 \<le> E" "0 \<le> e" using f64.near_nonneg [OF e] by simp_all
  have "0 < A * (1 - ?u) ^ 6" using A u by simp
  with ea show a0: "0 < a" by linarith
  define r where "r = E / A"
  have r: "0 \<le> r" "r \<le> 1" using A EA E0 by (simp_all add: r_def divide_le_eq_1)
  have hi: "e / a \<le> r * ((1 + ?u) ^ 6 / (1 - ?u) ^ 6)"
    unfolding r_def times_divide_times_eq
    by (rule frac_le) (use ea E0 A u a0 in \<open>auto intro: mult_pos_pos\<close>)
  have lo: "r * ((1 - ?u) ^ 6 / (1 + ?u) ^ 6) \<le> e / a"
    unfolding r_def times_divide_times_eq
    by (rule frac_le) (use ea E0 A u a0 in auto)
  have err: "\<bar>fl (e / a) - e / a\<bar> \<le> ?u * (e / a)"
    using f64.rnd_err [of "e / a"] E0 a0 by simp
  then have err': "fl (e / a) \<le> e / a * (1 + ?u)" "e / a * (1 - ?u) \<le> fl (e / a)"
    by (simp_all only: abs_le_iff distrib_left right_diff_distrib mult_1_right) (linarith | simp add: mult.commute)+
  have "fl (e / a) \<le> e / a * (1 + ?u)" by (rule err')
  also have "\<dots> \<le> r * ((1 + ?u) ^ 6 / (1 - ?u) ^ 6) * (1 + ?u)"
    by (rule mult_right_mono [OF hi]) (use u in simp)
  also have "\<dots> = r * ((1 + ?u) ^ 7 / (1 - ?u) ^ 6)"
    by (simp add: power_Suc2 numeral_eq_Suc)
  also have "\<dots> \<le> r * (1 + 1 / 10 ^ 12)"
    by (rule mult_left_mono) (use unit_factors(2) u r in \<open>simp_all add: pos_divide_le_eq\<close>)
  finally have up: "fl (e / a) \<le> r + r / 10 ^ 12" by (simp add: algebra_simps)
  have "r * (1 - 1 / 10 ^ 12) \<le> r * ((1 - ?u) ^ 7 / (1 + ?u) ^ 6)"
    by (rule mult_left_mono) (use unit_factors(1) u r in \<open>simp_all add: pos_le_divide_eq\<close>)
  also have "\<dots> = r * ((1 - ?u) ^ 6 / (1 + ?u) ^ 6) * (1 - ?u)"
    by (simp add: power_Suc2 numeral_eq_Suc)
  also have "\<dots> \<le> e / a * (1 - ?u)"
    by (rule mult_right_mono [OF lo]) (use u in simp)
  also have "\<dots> \<le> fl (e / a)" by (rule err')
  finally have low: "r - r / 10 ^ 12 \<le> fl (e / a)" by (simp add: algebra_simps)
  define t where "t = r / 10 ^ 12"
  have t: "t \<le> 1 / 10 ^ 12" using r by (simp add: t_def divide_right_mono)
  have "\<bar>min (fl (e / a)) 1 - r\<bar> \<le> t"
    using up low r unfolding t_def [symmetric] min_def by (auto simp: abs_le_iff)
  with t show "\<bar>min (fl (e / a)) 1 - E / A\<bar> \<le> 1 / 10 ^ 12"
    unfolding r_def [symmetric] by linarith
qed

text \<open>The decimal rounding of a number this close to the exact ratio.\<close>

lemma round4_close:
  assumes "0 \<le> x" "x \<le> 1" "\<bar>x - r\<bar> \<le> 1 / 10 ^ 12"
  shows "\<bar>round_dec 4 x - r\<bar> \<le> 6 / 100000"
proof -
  have "(1::rat) / (2 * 10 ^ 4) + 1 / 2 ^ 53 + 1 / 10 ^ 12 \<le> 6 / 100000" by simp
  with round_dec_err [OF assms(1,2), of 4] assms(3) show ?thesis by linarith
qed

lemma round4_half:
  assumes "\<bar>x - 1 / 2\<bar> \<le> 1 / 10 ^ 12"
  shows "round_dec 4 x = 1 / 2"
proof -
  from assms have "- (1 / 10 ^ 12) \<le> x - 1 / 2" "x - 1 / 2 \<le> 1 / 10 ^ 12" by linarith+
  then have b: "4999 + 3 / 4 \<le> x * 10 ^ 4" "x * 10 ^ 4 \<le> 5000 + 1 / 4" by simp_all
  then have "\<lfloor>x * 10 ^ 4\<rfloor> = 5000 \<or> \<lfloor>x * 10 ^ 4\<rfloor> = 4999" by linarith
  with b have "round_even (x * 10 ^ 4) = 5000" by (auto simp: round_even_def Let_def)
  moreover have "fl (1 / 2) = 1 / 2" using fl_two_powi [of "- 1"] by simp
  ultimately show ?thesis by (simp add: round_dec_def)
qed

section \<open>The gates of a scored list\<close>

lemma sum_list_mset_cong:
  fixes f :: "'a \<Rightarrow> 'b::comm_monoid_add"
  assumes "mset xs = mset ys"
  shows "sum_list (map f xs) = sum_list (map f ys)"
proof -
  have "sum_list (map f zs) = sum_mset (image_mset f (mset zs))" for zs
    by (simp flip: mset_map sum_mset_sum_list)
  with assms show ?thesis by simp
qed

lemma exact_sums_mset:
  assumes "mset gs = mset gs'"
  shows "earned_exact gs = earned_exact gs'" and "active_exact gs = active_exact gs'"
  unfolding earned_exact_def active_exact_def by (rule sum_list_mset_cong [OF assms])+

text \<open>The signed distance of the score from a threshold \<open>t\<close> is a sum of four terms.\<close>

fun margin_term :: "rat \<Rightarrow> gate_name \<Rightarrow> gate_status \<Rightarrow> rat" where
  "margin_term t g s = (if s = Skip then 0 else weight_exact g * (mult_exact s - t))"

lemma active_bounds:
  assumes "critical_evaluated st"
  shows "1 / 2 \<le> active_exact (gates_of st)" and "active_exact (gates_of st) \<le> 1"
  using assms by (auto simp: active_exact_def gates_of_def gate_names_def critical_evaluated_def)

lemma earned_bounds: "0 \<le> earned_exact (gates_of st)" "earned_exact (gates_of st) \<le> active_exact (gates_of st)"
proof -
  have "mult_exact s \<le> 1" for s by (cases s) simp_all
  then have "weight_exact g * mult_exact s \<le> weight_exact g" for g s
    by (simp add: mult_left_le less_imp_le)
  moreover have "0 \<le> weight_exact g * mult_exact s" for g s by (simp add: less_imp_le)
  ultimately show "0 \<le> earned_exact (gates_of st)"
    "earned_exact (gates_of st) \<le> active_exact (gates_of st)"
    unfolding active_exact_def earned_exact_def gates_of_def
    by (auto intro!: sum_list_nonneg sum_list_mono simp: less_imp_le)
qed

lemma margin_sum:
  "earned_exact (gates_of st) - t * active_exact (gates_of st) =
     margin_term t RootCause (st RootCause) + margin_term t InstanceCoverage (st InstanceCoverage) +
     margin_term t NoNewVulns (st NoNewVulns) + margin_term t BestPractices (st BestPractices)"
proof -
  define e where "e g = (if st g = Skip then 0 else weight_exact g * mult_exact (st g))" for g
  define a where "a g = (if st g = Skip then 0 else weight_exact g)" for g
  have "margin_term t g (st g) = e g - t * a g" for g
    by (simp add: e_def a_def algebra_simps)
  moreover have "earned_exact (gates_of st) = e RootCause + (e InstanceCoverage + (e NoNewVulns + e BestPractices))"
    "active_exact (gates_of st) = a RootCause + (a InstanceCoverage + (a NoNewVulns + a BestPractices))"
    by (simp_all only: active_exact_def earned_exact_def gates_of_def gate_names_def e_def a_def
        list.map prod.case sum_list.Cons sum_list.Nil add_0_right)
  ultimately show ?thesis by (simp only: distrib_left)
qed

lemma margin_term_cases:
  "s \<notin> {Skip, Invalid} \<Longrightarrow> margin_term t g s \<in>
     {weight_exact g * (1 - t), weight_exact g * (1 / 2 - t), - (weight_exact g * t)}"
  "margin_term t g s \<in>
     {weight_exact g * (1 - t), weight_exact g * (1 / 2 - t), - (weight_exact g * t), 0}"
  by (cases s; simp)+

text \<open>
  No combination of statuses scores within \<open>10^-4\<close> of a threshold, except the
  combinations that score exactly one half.
\<close>

lemma margin_fixed:
  fixes x1 x2 x3 x4 :: rat
  assumes "x1 \<in> {43/500, - (129/1000), - (43/125)}" "x3 \<in> {1867/50000, - (5601/100000), - (1867/12500)}"
    and "x2 \<in> {2467/50000, - (7401/100000), - (2467/12500), 0}"
    and "x4 \<in> {683/25000, - (2049/50000), - (683/6250), 0}"
  shows "1 / 10 ^ 4 < \<bar>x1 + x2 + x3 + x4\<bar>"
proof -
  have "list_all (\<lambda>x1. list_all (\<lambda>x2. list_all (\<lambda>x3. list_all (\<lambda>x4. 1 / 10 ^ 4 < \<bar>x1 + x2 + x3 + x4\<bar>)
     [683/25000, - (2049/50000), - (683/6250), 0 :: rat]) [1867/50000, - (5601/100000), - (1867/12500)]) [2467/50000, - (7401/100000), - (2467/12500), 0]) [43/500, - (129/1000), - (43/125)]"
    by simp
  with assms show ?thesis by (auto simp del: insert_iff simp: list_all_iff)
qed

lemma margin_half:
  fixes x1 x2 x3 x4 :: rat
  assumes "x1 \<in> {43/200, 0, - (43/200)}" "x3 \<in> {1867/20000, 0, - (1867/20000)}"
    and "x2 \<in> {2467/20000, 0, - (2467/20000)}"
    and "x4 \<in> {683/10000, 0, - (683/10000)}"
  shows "x1 + x2 + x3 + x4 = 0 \<or> 1 / 10 ^ 4 < \<bar>x1 + x2 + x3 + x4\<bar>"
proof -
  have "list_all (\<lambda>x1. list_all (\<lambda>x2. list_all (\<lambda>x3. list_all (\<lambda>x4. x1 + x2 + x3 + x4 = 0 \<or> 1 / 10 ^ 4 < \<bar>x1 + x2 + x3 + x4\<bar>)
     [683/10000, 0, - (683/10000) :: rat]) [1867/20000, 0, - (1867/20000)]) [2467/20000, 0, - (2467/20000)]) [43/200, 0, - (43/200)]"
    by simp
  with assms show ?thesis by (auto simp del: insert_iff simp: list_all_iff)
qed

lemma spec_score_unit:
  assumes "critical_evaluated st"
  shows "0 \<le> spec_score (gates_of st)" "spec_score (gates_of st) \<le> 1"
  using earned_bounds [of st] active_bounds [OF assms]
  by (simp_all add: spec_score_def divide_le_eq_1)

lemma spec_score_margin:
  assumes "critical_evaluated st" "1 / 10 ^ 4 < \<bar>earned_exact (gates_of st) - t * active_exact (gates_of st)\<bar>"
  shows "1 / 10 ^ 4 < \<bar>spec_score (gates_of st) - t\<bar>"
proof -
  let ?a = "active_exact (gates_of st)"
  have a: "0 < ?a" "?a \<le> 1" using active_bounds [OF assms(1)] by simp_all
  have "earned_exact (gates_of st) - t * ?a = (spec_score (gates_of st) - t) * ?a"
    using a by (simp add: spec_score_def left_diff_distrib)
  then have "1 / 10 ^ 4 < \<bar>spec_score (gates_of st) - t\<bar> * ?a"
    using assms(2) a by (simp add: abs_mult)
  also have "\<dots> \<le> \<bar>spec_score (gates_of st) - t\<bar>" using a by (simp add: mult_left_le)
  finally show ?thesis .
qed

lemma spec_score_gap_fixed:
  assumes "critical_evaluated st"
  shows "1 / 10 ^ 4 < \<bar>spec_score (gates_of st) - 8 / 10\<bar>"
proof (rule spec_score_margin [OF assms], unfold margin_sum, rule margin_fixed)
  note [simp del] = margin_term.simps
  show "margin_term (8 / 10) RootCause (st RootCause) \<in> {43/500, - (129/1000), - (43/125)}"
    "margin_term (8 / 10) NoNewVulns (st NoNewVulns) \<in> {1867/50000, - (5601/100000), - (1867/12500)}"
    using margin_term_cases(1) [of "st RootCause" "8 / 10" RootCause]
      margin_term_cases(1) [of "st NoNewVulns" "8 / 10" NoNewVulns] assms
    by (simp_all add: critical_evaluated_def)
  show "margin_term (8 / 10) InstanceCoverage (st InstanceCoverage) \<in> {2467/50000, - (7401/100000), - (2467/12500), 0}"
    "margin_term (8 / 10) BestPractices (st BestPractices) \<in> {683/25000, - (2049/50000), - (683/6250), 0}"
    using margin_term_cases(2) [of "8 / 10" InstanceCoverage "st InstanceCoverage"]
      margin_term_cases(2) [of "8 / 10" BestPractices "st BestPractices"] by simp_all
qed

lemma spec_score_gap_half:
  assumes "critical_evaluated st"
  shows "spec_score (gates_of st) = 1 / 2 \<or> 1 / 10 ^ 4 < \<bar>spec_score (gates_of st) - 1 / 2\<bar>"
proof -
  let ?d = "earned_exact (gates_of st) - 1 / 2 * active_exact (gates_of st)"
  have h: "margin_term (1 / 2) g s \<in> {weight_exact g / 2, 0, - (weight_exact g / 2)}" for g s
    by (cases s) simp_all
  have t: "margin_term (1 / 2) RootCause (st RootCause) \<in> {43/200, 0, - (43/200)}"
    "margin_term (1 / 2) NoNewVulns (st NoNewVulns) \<in> {1867/20000, 0, - (1867/20000)}"
    "margin_term (1 / 2) InstanceCoverage (st InstanceCoverage) \<in> {2467/20000, 0, - (2467/20000)}"
    "margin_term (1 / 2) BestPractices (st BestPractices) \<in> {683/10000, 0, - (683/10000)}"
    using h [of RootCause "st RootCause"] h [of NoNewVulns "st NoNewVulns"]
      h [of InstanceCoverage "st InstanceCoverage"] h [of BestPractices "st BestPractices"]
    by (simp_all del: margin_term.simps)
  have "?d = 0 \<or> 1 / 10 ^ 4 < \<bar>?d\<bar>"
    unfolding margin_sum by (rule margin_half [OF t(1,2,3,4)])
  then show ?thesis
  proof
    assume "?d = 0"
    then have "spec_score (gates_of st) = 1 / 2"
      using active_bounds [OF assms] by (simp add: spec_score_def field_simps)
    then show ?thesis ..
  qed (use spec_score_margin [OF assms] in blast)
qed

lemma renormalized_close:
  assumes ws: "well_shaped parsed" and can: "canonical parsed"
    and crit: "critical_evaluated (status_of parsed)"
  defines "r \<equiv> spec_score (gates_of (status_of parsed))"
  shows "\<exists>s. renormalized_score fix_config parsed = Some (Inr s) \<and> 0 \<le> s \<and> s \<le> 1 \<and>
           \<bar>s - r\<bar> \<le> 6 / 100000 \<and> (r = 1 / 2 \<longrightarrow> s = 1 / 2)"
proof -
  obtain gs where gs: "gates_list parsed gs" "mset gs = mset (gates_of (status_of parsed))"
    using gates_listI [OF ws can] by blast
  have len: "length gs = 4"
    using arg_cong [OF gs(2), of size] by (simp add: gates_of_def gate_names_def)
  have "f64.near (0 + 2) 0 0" by (rule f64.near_weaken [OF f64.near_exact]) simp_all
  from score_loop_near [OF gs(1) this this] obtain e a where
    loop: "score_loop fix_config 0 0 parsed = Some (e, a)"
      "f64.near 6 e (earned_exact gs)" "f64.near 6 a (active_exact gs)"
    by (auto simp: len)
  note sums = active_bounds [OF crit] earned_bounds [of "status_of parsed"] exact_sums_mset [OF gs(2)]
  have close: "0 < a" "\<bar>min (fl (e / a)) 1 - r\<bar> \<le> 1 / 10 ^ 12"
    using ratio_close [OF loop(2,3)] sums unfolding r_def spec_score_def by simp_all
  let ?x = "min (fl (e / a)) 1"
  have "0 \<le> fl (e / a)"
    using f64.near_nonneg [OF loop(2)] close(1) by (intro fl_nonneg) simp
  then have x: "0 \<le> ?x" "?x \<le> 1" by simp_all
  have "renormalized_score fix_config parsed = Some (Inr (round_dec 4 ?x))"
    using loop(1) close(1) by (simp add: renormalized_score_def score_precision_def)
  moreover have "0 \<le> round_dec 4 ?x" "round_dec 4 ?x \<le> 1"
    using round_dec_mono [OF x(1), of 4] round_dec_mono [OF x(2), of 4] by simp_all
  moreover have "r = 1 / 2 \<longrightarrow> round_dec 4 ?x = 1 / 2"
    using round4_half [of ?x] close(2) by (metis (no_types))
  ultimately show ?thesis using round4_close [OF x close(2)] by blast
qed

end
