(* ===== verification/ScoringProps.thy ===== *)
theory ScoringProps
  imports ScoringSpec
begin

text \<open>
  The refinement: the engine of \<open>validation/scoring\<close> implements the order-free exact
  specification of \<^theory_text>\<open>ScoringSpec\<close>, and the consequences for merge readiness.
\<close>

section \<open>The checks before scoring\<close>

lemma find_critical:
  assumes "well_shaped parsed" "canonical parsed"
  shows "find (\<lambda>c. rc_name c \<in> sc_critical fix_config \<and> rc_status c \<in> set unevaluated) parsed = None
     \<longleftrightarrow> critical_evaluated (status_of parsed)"
proof -
  obtain gs where gs: "gates_list parsed gs" "mset gs = mset (gates_of (status_of parsed))"
    using gates_listI [OF assms] by blast
  have "find (\<lambda>c. rc_name c \<in> sc_critical fix_config \<and> rc_status c \<in> set unevaluated) parsed = None
     \<longleftrightarrow> (\<forall>(n, s) \<in> set (map (\<lambda>c. (rc_name c, rc_status c)) parsed).
            \<not> (n \<in> sc_critical fix_config \<and> s \<in> set unevaluated))"
    by (auto simp: find_None_iff)
  also have "\<dots> \<longleftrightarrow> (\<forall>(g, s) \<in> set gs. \<not> (g \<in> {NoNewVulns, RootCause} \<and> s \<in> {Skip, Invalid}))"
    unfolding gs(1) [unfolded gates_list_def]
    by (simp add: fix_config_def unevaluated_def split_def del: gn_value.simps gs_value.simps)
  also have "set gs = set (gates_of (status_of parsed))" by (rule mset_eq_setD [OF gs(2)])
  finally show ?thesis by (auto simp: gates_of_def gate_names_def critical_evaluated_def)
qed

lemma precheck_None:
  assumes "canonical parsed"
  shows "precheck fix_config parsed = None \<longleftrightarrow>
     well_shaped parsed \<and> critical_evaluated (status_of parsed)"
  using find_critical [OF _ assms] shape_error_None [of parsed]
  by (auto simp: precheck_def critical_gate_error_def split: option.splits)

lemma precheck_Some:
  assumes "precheck cfg parsed = Some r"
  shows "sr_label r = sc_unverifiable cfg \<and> sr_raw_score r = 0"
  using assms
  by (auto simp: precheck_def shape_error_def critical_gate_error_def unverifiable_result_def Let_def
      split: option.splits if_splits)

lemma not_clean_iff:
  assumes "well_shaped parsed" "canonical parsed" "critical_evaluated (status_of parsed)"
  shows "has_critical_failure parsed \<longleftrightarrow>
     \<not> (status_of parsed RootCause = Pass \<and> status_of parsed NoNewVulns = Pass)"
proof -
  obtain gs where gs: "gates_list parsed gs" "mset gs = mset (gates_of (status_of parsed))"
    using gates_listI [OF assms(1,2)] by blast
  have "has_critical_failure parsed \<longleftrightarrow> (\<exists>(n, s) \<in> set (map (\<lambda>c. (rc_name c, rc_status c)) parsed).
            n \<in> sc_critical fix_config \<and> s \<in> set critical_not_clean)"
    by (auto simp: has_critical_failure_def list_ex_iff)
  also have "\<dots> \<longleftrightarrow> (\<exists>(g, s) \<in> set gs. g \<in> {NoNewVulns, RootCause} \<and> s \<in> {Partial, Fail})"
    unfolding gs(1) [unfolded gates_list_def]
    by (simp add: fix_config_def critical_not_clean_def split_def del: gn_value.simps gs_value.simps)
  also have "set gs = set (gates_of (status_of parsed))" by (rule mset_eq_setD [OF gs(2)])
  finally have *: "has_critical_failure parsed \<longleftrightarrow>
      status_of parsed NoNewVulns \<in> {Partial, Fail} \<or> status_of parsed RootCause \<in> {Partial, Fail}"
    by (auto simp: gates_of_def gate_names_def)
  show ?thesis
    unfolding * using assms(3)
    by (cases "status_of parsed NoNewVulns"; cases "status_of parsed RootCause";
        simp add: critical_evaluated_def)
qed

section \<open>The thresholds\<close>

lemma thresholds: "threshold_partial = 1 / 2" "\<bar>threshold_fixed - 8 / 10\<bar> \<le> 1 / 100000"
proof -
  show "threshold_partial = 1 / 2"
    using fl_two_powi [of "- 1"] by (simp add: threshold_partial_def)
  have "\<bar>fl (80 / 100) - 80 / 100\<bar> \<le> (80 / 100) / 2 ^ 53" using fl_err [of "80 / 100"] by simp
  then show "\<bar>threshold_fixed - 8 / 10\<bar> \<le> 1 / 100000" by (simp add: threshold_fixed_def)
qed

lemma apply_verdicts_close:
  assumes s: "0 \<le> s" "\<bar>s - r\<bar> \<le> 6 / 100000" "r = 1 / 2 \<longrightarrow> s = 1 / 2"
    and r: "1 / 10 ^ 4 < \<bar>r - 8 / 10\<bar>" "r = 1 / 2 \<or> 1 / 10 ^ 4 < \<bar>r - 1 / 2\<bar>"
  shows "apply_verdicts fix_config s =
     fv_value (if 8 / 10 \<le> r then Fixed else if 1 / 2 \<le> r then PartiallyFixed else NotFixed)"
proof -
  have d: "1 / 10 ^ 4 = (10 / 100000 :: rat)" by simp
  have "threshold_fixed \<le> s \<longleftrightarrow> 8 / 10 \<le> r"
    using thresholds(2) s(2) r(1) unfolding d by linarith
  moreover have "threshold_partial \<le> s \<longleftrightarrow> 1 / 2 \<le> r"
    using s(2,3) r(2) unfolding d thresholds(1) by linarith
  ultimately show ?thesis
    using s(1) by (auto simp: apply_verdicts_def fix_config_def score_floor_def)
qed

section \<open>The engine on parsed criteria\<close>

lemma score_unverifiable:
  assumes "canonical parsed" "\<not> (well_shaped parsed \<and> critical_evaluated (status_of parsed))"
  shows "\<exists>vs. score_parsed parsed = Some vs \<and> vs_fix_status vs = Unverifiable \<and> vs_raw_score vs = 0"
proof -
  obtain e where e: "precheck fix_config parsed = Some e"
    using precheck_None [OF assms(1)] assms(2) by (cases "precheck fix_config parsed") auto
  with precheck_Some [OF e] show ?thesis
    by (simp add: score_parsed_def score_def fix_config_def del: fv_value.simps)
qed

lemma score_scored:
  assumes can: "canonical parsed" and ws: "well_shaped parsed"
    and crit: "critical_evaluated (status_of parsed)"
  defines "r \<equiv> spec_score (gates_of (status_of parsed))"
  shows "\<exists>vs. score_parsed parsed = Some vs \<and> vs_fix_status vs = spec_verdict parsed \<and>
     0 \<le> vs_raw_score vs \<and> vs_raw_score vs \<le> 1 \<and> \<bar>vs_raw_score vs - r\<bar> \<le> 6 / 100000"
proof -
  obtain s where s: "renormalized_score fix_config parsed = Some (Inr s)" "0 \<le> s" "s \<le> 1"
    "\<bar>s - r\<bar> \<le> 6 / 100000" "r = 1 / 2 \<longrightarrow> s = 1 / 2"
    using renormalized_close [OF ws can crit] unfolding r_def by blast
  define v where "v = (if 8 / 10 \<le> r then Fixed else if 1 / 2 \<le> r then PartiallyFixed else NotFixed)"
  have v: "apply_verdicts fix_config s = fv_value v"
    unfolding v_def r_def
    by (rule apply_verdicts_close [OF s(2) s(4,5) [unfolded r_def]
          spec_score_gap_fixed [OF crit] spec_score_gap_half [OF crit]])
  have cap: "cap_critical_fail fix_config parsed (fv_value v) =
      fv_value (if v = Fixed \<and> has_critical_failure parsed then PartiallyFixed else v)"
    by (simp add: cap_critical_fail_def fix_config_def has_critical_failure_def del: fv_value.simps)
  have "precheck fix_config parsed = None" using precheck_None [OF can] ws crit by simp
  then obtain vs where vs: "score_parsed parsed = Some vs" "vs_raw_score vs = s"
    "vs_fix_status vs = (if v = Fixed \<and> has_critical_failure parsed then PartiallyFixed else v)"
    using s(1) by (simp add: score_parsed_def score_def v cap Let_def)
  have "spec_verdict parsed =
      (if 8 / 10 \<le> r \<and> \<not> has_critical_failure parsed then Fixed
       else if 1 / 2 \<le> r then PartiallyFixed else NotFixed)"
    unfolding not_clean_iff [OF ws can crit] r_def spec_verdict_def Let_def using ws crit by argo
  then have "vs_fix_status vs = spec_verdict parsed"
    unfolding vs(3) v_def by (simp only:) simp
  with vs s show ?thesis by auto
qed

lemma score_fix_total:
  "\<exists>vs. score_fix gates = Some vs \<and> vs_fix_status vs = spec_verdict (parse_gates gates)"
proof (cases "well_shaped (parse_gates gates) \<and> critical_evaluated (status_of (parse_gates gates))")
  case True
  then show ?thesis
    using score_scored [OF canonical_parse_gates, of gates] by (auto simp: score_fix_def)
next
  case False
  then have "spec_verdict (parse_gates gates) = Unverifiable"
    by (auto simp: spec_verdict_def Let_def)
  with score_unverifiable [OF canonical_parse_gates False] show ?thesis
    by (auto simp: score_fix_def)
qed

text \<open>
  C1.  The verdict of \<open>score_fix\<close>, computed with binary floating point in the order the
  agent listed its gates and rounded to four decimals, is the verdict of the exact
  specification, which knows neither order nor rounding.  In particular \<open>score_fix\<close>
  never raises, on any list of dictionaries whatever.
\<close>

theorem score_fix_refines_spec:
  "map_option vs_fix_status (score_fix gates) = Some (spec_verdict (parse_gates gates))"
  using score_fix_total [of gates] by auto

text \<open>
  C2.  The numeric score is a number of the unit interval, within \<open>6/100000\<close> of the exact
  weighted average of the evaluated gates, and zero when the set cannot be scored.
\<close>

theorem score_fix_accuracy:
  "\<exists>vs. score_fix gates = Some vs \<and> 0 \<le> vs_raw_score vs \<and> vs_raw_score vs \<le> 1 \<and>
     (let st = status_of (parse_gates gates) in
      if well_shaped (parse_gates gates) \<and> critical_evaluated st
      then \<bar>vs_raw_score vs - spec_score (gates_of st)\<bar> \<le> 6 / 100000
      else vs_raw_score vs = 0)"
proof (cases "well_shaped (parse_gates gates) \<and> critical_evaluated (status_of (parse_gates gates))")
  case True
  then show ?thesis
    using score_scored [OF canonical_parse_gates, of gates] by (auto simp: score_fix_def Let_def)
next
  case False
  with score_unverifiable [OF canonical_parse_gates False] show ?thesis
    by (auto simp: score_fix_def Let_def)
qed

section \<open>Which patches are ready to merge\<close>

definition ready_combo :: "gate_status \<Rightarrow> gate_status \<Rightarrow> bool" where
  "ready_combo ic bp \<longleftrightarrow>
     (case ic of Pass \<Rightarrow> True | Skip \<Rightarrow> True | Partial \<Rightarrow> bp \<in> {Pass, Partial, Skip} | _ \<Rightarrow> False)"

lemma derive_Ready: "derive_merge_readiness s = Ready \<longleftrightarrow> vs_fix_status s = Fixed"
  by (cases "vs_fix_status s") (simp_all add: derive_merge_readiness_def)

lemma spec_fixed_combo:
  assumes "st RootCause = Pass" "st NoNewVulns = Pass"
  shows "8 / 10 \<le> spec_score (gates_of st) \<longleftrightarrow> ready_combo (st InstanceCoverage) (st BestPractices)"
  by (cases "st InstanceCoverage"; cases "st BestPractices";
      simp add: assms ready_combo_def spec_score_def earned_exact_def active_exact_def gates_of_def
        gate_names_def)

text \<open>
  The decision table.  A patch is ready to merge exactly when every gate was reported
  once, both critical gates pass, and instance coverage passed or was skipped, or is
  partial while best practices did not fail.
\<close>

lemma merge_ready_iff:
  "map_option derive_merge_readiness (score_fix gates) = Some Ready \<longleftrightarrow>
     (let p = parse_gates gates; st = status_of p in
      well_shaped p \<and> st RootCause = Pass \<and> st NoNewVulns = Pass \<and>
      ready_combo (st InstanceCoverage) (st BestPractices))"
proof -
  have "map_option derive_merge_readiness (score_fix gates) = Some Ready \<longleftrightarrow>
      spec_verdict (parse_gates gates) = Fixed"
    using score_fix_total [of gates] derive_Ready by auto
  also have "\<dots> \<longleftrightarrow> (let p = parse_gates gates; st = status_of p in
      well_shaped p \<and> st RootCause = Pass \<and> st NoNewVulns = Pass \<and>
      ready_combo (st InstanceCoverage) (st BestPractices))"
    using spec_fixed_combo [of "status_of (parse_gates gates)"]
    by (auto simp: spec_verdict_def Let_def critical_evaluated_def)
  finally show ?thesis .
qed

section \<open>The veto of critical criteria, for every configuration\<close>











end
