(* ===== verification/Consensus.thy ===== *)
theory Consensus
  imports Scoring "HOL-Library.Product_Lexorder"
begin

text \<open>
  Persona consensus: \<open>validation/synthesis/_consensus.py\<close> on the wire shapes of
  \<open>validation/models/persona_report.py\<close>, and the collection of candidate reports in
  \<open>validation/io/persona_report_stash.py\<close>.  Several reviewer personas grade the gates of
  one finding; the host folds their votes into one verdict per gate.
\<close>

section \<open>Reports\<close>

record persona_gate =
  pg_gate :: pystr
  pg_status :: pystr
  pg_summary :: pystr
  pg_details :: pystr
  pg_evidence :: "raw_evidence list"

record persona_report =
  pr_persona :: pystr
  pr_tracking_id :: pystr
  pr_gates :: "persona_gate list"

record synthesized_gate =
  sg_tracking_id :: pystr
  sg_gate :: pystr
  sg_status :: pystr
  sg_confidence :: pystr
  sg_summary :: pystr
  sg_details :: pystr
  sg_evidence :: "(pystr \<times> raw_evidence) list"
  sg_votes :: "(pystr, pystr) pydict"

text \<open>
  \<open>PersonaGateEntry._canonical_status\<close>: \<open>None\<close> is the \<open>ValueError\<close> that makes the whole
  report invalid.
\<close>

definition canonical_status :: "pystr \<Rightarrow> pystr option" where
  "canonical_status v =
     (let n = py_lower (py_strip v) in
      if n \<in> {gs_value Pass, gs_value Partial, gs_value Fail, gs_value Skip} then Some n else None)"

definition confidence_high :: pystr where "confidence_high = ''HIGH''"

definition confidence_flagged :: pystr where "confidence_flagged = ''FLAGGED''"

section \<open>Synthesis\<close>

definition most_conservative_status :: "pystr list \<Rightarrow> pystr" where
  "most_conservative_status statuses =
     (case find (\<lambda>s. gs_value s \<in> set statuses) status_conservative_rank of
        Some s \<Rightarrow> gs_value s | None \<Rightarrow> gs_value Invalid)"

text \<open>The first loop: entries of the finding, grouped by gate in order of appearance.\<close>

definition group_by_gate ::
    "persona_report list \<Rightarrow> pystr \<Rightarrow> (pystr, (pystr \<times> persona_gate) list) pydict" where
  "group_by_gate reports tid =
     fold (\<lambda>r d. if pr_tracking_id r \<noteq> tid then d
                 else fold (\<lambda>g. dict_append (pg_gate g) (pr_persona r, g)) (pr_gates r) d)
       reports []"

text \<open>One vote per persona: a second entry of the same persona can only make it stricter.\<close>

definition cast_vote :: "pystr \<times> persona_gate \<Rightarrow> (pystr, pystr) pydict \<Rightarrow> (pystr, pystr) pydict" where
  "cast_vote pg votes =
     (let persona = fst pg; s = pg_status (snd pg) in
      case dict_get votes persona of
        Some prior \<Rightarrow> dict_set persona (if prior \<noteq> [] then most_conservative_status [prior, s] else s) votes
      | None \<Rightarrow> dict_set persona s votes)"

definition persona_votes :: "(pystr \<times> persona_gate) list \<Rightarrow> (pystr, pystr) pydict" where
  "persona_votes entries = fold cast_vote entries []"

text \<open>
  The tally over the votes that are not abstentions; \<open>fromkeys\<close> lists the keys of the
  \<open>Counter\<close> in the order it met them.
\<close>

definition tally :: "pystr list \<Rightarrow> pystr \<times> pystr" where
  "tally vote_values =
     (let evaluated = filter (\<lambda>s. s \<noteq> gs_value Skip) vote_values in
      if evaluated = [] then (gs_value Skip, confidence_flagged)
      else
        let top = Max (set (map (count_list evaluated) evaluated));
            tops = filter (\<lambda>s. count_list evaluated s = top) (fromkeys evaluated)
        in if length tops = 1 \<and> min_consensus_votes \<le> top then (hd tops, confidence_high)
           else (most_conservative_status tops, confidence_flagged))"

definition labelled_texts :: "(persona_gate \<Rightarrow> pystr) \<Rightarrow> (pystr \<times> persona_gate) list \<Rightarrow> pystr" where
  "labelled_texts f entries =
     join_with '' | '' (map (\<lambda>(p, g). p @ '': '' @ f g)
       (filter (\<lambda>(p, g). f g \<noteq> []) (sort_key fst entries)))"

definition entry_evidence :: "(pystr \<times> persona_gate) list \<Rightarrow> (pystr \<times> raw_evidence) list" where
  "entry_evidence entries =
     sort_key (\<lambda>(p, e). (ev_file e, case ev_line e of Some l \<Rightarrow> l | None \<Rightarrow> 0))
       (concat (map (\<lambda>(p, g). map (\<lambda>e. (p, e)) (pg_evidence g)) (sort_key fst entries)))"

definition synthesize_gate ::
    "pystr \<Rightarrow> pystr \<times> (pystr \<times> persona_gate) list \<Rightarrow> synthesized_gate" where
  "synthesize_gate tid ge =
     (let gate = fst ge; entries = snd ge; votes = persona_votes entries;
          (status, confidence) = tally (map snd votes)
      in \<lparr>sg_tracking_id = tid, sg_gate = gate, sg_status = status, sg_confidence = confidence,
          sg_summary = labelled_texts pg_summary entries,
          sg_details = labelled_texts pg_details entries,
          sg_evidence = entry_evidence entries,
          sg_votes = sort_key fst votes\<rparr>)"

definition synthesize_gates_for_finding ::
    "persona_report list \<Rightarrow> pystr \<Rightarrow> synthesized_gate list" where
  "synthesize_gates_for_finding reports tid =
     map (synthesize_gate tid) (sort_key fst (group_by_gate reports tid))"

section \<open>Collecting the reports\<close>

text \<open>
  The candidates keep their first occurrence per \<open>(persona, tracking_id)\<close>, and the key is
  spent even when the candidate turns out invalid.  \<open>model_validate\<close> is pydantic's, so
  \<open>validate\<close> is a parameter, and \<open>None\<close> its \<open>ValidationError\<close>.  The result \<open>None\<close> is the
  \<open>TypeError\<close> of a key that is not hashable, which nothing catches.
\<close>

definition report_key :: "pymap \<Rightarrow> (pyval \<times> pyval) option" where
  "report_key d =
     (case (hash_key (py_get d ''persona''), hash_key (py_get d ''tracking_id'')) of
        (Some p, Some t) \<Rightarrow> Some (p, t) | _ \<Rightarrow> None)"

fun validate_candidates ::
    "(pymap \<Rightarrow> persona_report option) \<Rightarrow> (pyval \<times> pyval) list \<Rightarrow> pyval list \<Rightarrow>
       persona_report list option" where
  "validate_candidates validate seen [] = Some []"
| "validate_candidates validate seen (v # vs) =
     (case v of
        PDict d \<Rightarrow>
          if ''persona'' \<notin> set (dict_keys d) \<or> ''gates'' \<notin> set (dict_keys d)
          then validate_candidates validate seen vs
          else (case report_key d of
            None \<Rightarrow> None
          | Some key \<Rightarrow>
              if key \<in> set seen then validate_candidates validate seen vs
              else map_option (append (case validate d of None \<Rightarrow> [] | Some r \<Rightarrow> [r]))
                     (validate_candidates validate (key # seen) vs))
      | _ \<Rightarrow> validate_candidates validate seen vs)"

end
