(* ===== verification/ConsensusProps.thy ===== *)
theory ConsensusProps
  imports Consensus
begin

text \<open>
  What persona consensus promises: the verdict of a gate depends on the multiset of the
  personas' votes only, and a lenient verdict needs a strict plurality.
\<close>

section \<open>Statuses a report can carry\<close>

definition votable :: "gate_status list" where
  "votable = [Fail, Partial, Pass, Skip]"

definition wf_gate :: "persona_gate \<Rightarrow> bool" where
  "wf_gate g \<longleftrightarrow> pg_status g \<in> gs_value ` set votable"

definition wf_report :: "persona_report \<Rightarrow> bool" where
  "wf_report r \<longleftrightarrow> list_all wf_gate (pr_gates r)"

text \<open>The strictest of a set of statuses.\<close>

definition strictest :: "pystr set \<Rightarrow> pystr" where
  "strictest S =
     (if gs_value Fail \<in> S then gs_value Fail else if gs_value Partial \<in> S then gs_value Partial
      else if gs_value Pass \<in> S then gs_value Pass else if gs_value Skip \<in> S then gs_value Skip
      else gs_value Invalid)"

lemma most_conservative_strictest: "most_conservative_status ss = strictest (set ss)"
  by (simp add: most_conservative_status_def strictest_def status_conservative_rank_def
      del: gs_value.simps)

lemma strictest_single: "s \<in> gs_value ` set votable \<Longrightarrow> strictest {s} = s"
  by (auto simp: strictest_def votable_def simp del: gs_value.simps)

lemma strictest_mem: "S \<noteq> {} \<Longrightarrow> S \<subseteq> gs_value ` set votable \<Longrightarrow> strictest S \<in> S"
  by (auto simp: strictest_def votable_def simp del: gs_value.simps)

lemma strictest_step:
  assumes "S \<noteq> {}" "S \<subseteq> gs_value ` set votable" "s \<in> gs_value ` set votable"
  shows "strictest {strictest S, s} = strictest (insert s S)"
  using assms by (auto simp: strictest_def votable_def simp del: gs_value.simps)

section \<open>The votes of a gate\<close>

definition entry_statuses :: "(pystr \<times> persona_gate) list \<Rightarrow> pystr \<Rightarrow> pystr set" where
  "entry_statuses entries p = {pg_status g |g. (p, g) \<in> set entries}"

definition vote_of :: "(pystr \<times> persona_gate) list \<Rightarrow> pystr \<Rightarrow> pystr option" where
  "vote_of entries p =
     (if entry_statuses entries p = {} then None else Some (strictest (entry_statuses entries p)))"

lemma entry_statuses_Nil [simp]: "entry_statuses [] p = {}"
  by (simp add: entry_statuses_def)

lemma entry_statuses_snoc:
  "entry_statuses (es @ [e]) p =
     (if fst e = p then insert (pg_status (snd e)) (entry_statuses es p) else entry_statuses es p)"
  by (cases e) (auto simp: entry_statuses_def)

lemma votable_nonempty: "s \<in> gs_value ` set votable \<Longrightarrow> s \<noteq> []"
  by (auto simp: votable_def)

lemma persona_votes_get:
  assumes "\<forall>pg \<in> set entries. wf_gate (snd pg)"
  shows "dict_get (persona_votes entries) p = vote_of entries p"
  using assms
proof (induction entries rule: rev_induct)
  case Nil
  then show ?case by (simp add: persona_votes_def vote_of_def)
next
  case (snoc e es)
  let ?S = "entry_statuses es p"
  have IH: "dict_get (persona_votes es) p = vote_of es p"
    using snoc by simp
  have S: "?S \<subseteq> gs_value ` set votable"
    using snoc.prems by (fastforce simp: wf_gate_def entry_statuses_def)
  have s: "pg_status (snd e) \<in> gs_value ` set votable"
    using snoc.prems by (simp add: wf_gate_def)
  have cast: "persona_votes (es @ [e]) = cast_vote e (persona_votes es)"
    by (simp add: persona_votes_def)
  show ?case
  proof (cases "fst e = p \<and> ?S \<noteq> {}")
    case True
    then have p: "fst e = p" and ne: "?S \<noteq> {}" by blast+
    have "strictest ?S \<noteq> []"
      using strictest_mem [OF ne S] S votable_nonempty by blast
    moreover have "vote_of es p = Some (strictest ?S)" using ne by (simp add: vote_of_def)
    ultimately have "dict_get (persona_votes (es @ [e])) p =
        Some (strictest {strictest ?S, pg_status (snd e)})"
      using p IH by (simp add: cast cast_vote_def Let_def most_conservative_strictest dict_simps)
    also have "\<dots> = Some (strictest (insert (pg_status (snd e)) ?S))"
      using strictest_step [OF ne S s] by simp
    finally show ?thesis using p by (simp add: vote_of_def entry_statuses_snoc)
  next
    case False
    then show ?thesis
      using IH strictest_single [OF s]
      by (auto simp: cast cast_vote_def Let_def dict_simps vote_of_def entry_statuses_snoc
          split: option.splits)
  qed
qed

lemma wf_persona_votes: "wf_dict (persona_votes entries)"
proof -
  have "wf_dict votes \<Longrightarrow> wf_dict (fold cast_vote entries votes)" for votes
    by (induction entries arbitrary: votes) (auto simp: cast_vote_def Let_def split: option.splits)
  then show ?thesis by (simp add: persona_votes_def)
qed

text \<open>Two entry lists with the same elements cast the same votes.\<close>

lemma wf_dict_mset_eq:
  assumes "wf_dict d" "wf_dict d'" "\<And>k. dict_get d k = dict_get d' k"
  shows "mset d = mset d'"
proof -
  have "distinct d" "distinct d'" using assms by (auto simp: wf_dict_def distinct_map)
  moreover have "set d = set d'"
    using assms by (auto simp: wf_dict_get [OF assms(1)] wf_dict_get [OF assms(2)])
  ultimately show ?thesis by (metis set_eq_iff_mset_eq_distinct)
qed

lemma persona_votes_mset:
  assumes "\<forall>pg \<in> set entries. wf_gate (snd pg)" "set entries = set entries'"
  shows "mset (persona_votes entries) = mset (persona_votes entries')"
proof (rule wf_dict_mset_eq [OF wf_persona_votes wf_persona_votes])
  fix k
  have "vote_of entries k = vote_of entries' k" using assms(2) by (simp add: vote_of_def entry_statuses_def)
  then show "dict_get (persona_votes entries) k = dict_get (persona_votes entries') k"
    using persona_votes_get assms by metis
qed

section \<open>The entries of a gate\<close>

definition report_pairs ::
    "persona_report list \<Rightarrow> pystr \<Rightarrow> (pystr \<times> (pystr \<times> persona_gate)) list" where
  "report_pairs reports tid =
     concat (map (\<lambda>r. map (\<lambda>g. (pg_gate g, (pr_persona r, g))) (pr_gates r))
       (filter (\<lambda>r. pr_tracking_id r = tid) reports))"

definition gate_entries ::
    "persona_report list \<Rightarrow> pystr \<Rightarrow> pystr \<Rightarrow> (pystr \<times> persona_gate) list" where
  "gate_entries reports tid gate =
     map snd (filter (\<lambda>p. fst p = gate) (report_pairs reports tid))"

lemma group_by_gate_pairs:
  "group_by_gate reports tid = fold (\<lambda>(k, v). dict_append k v) (report_pairs reports tid) []"
proof -
  have inner: "fold (\<lambda>g. dict_append (pg_gate g) (p, g)) gs d =
      fold (\<lambda>(k, v). dict_append k v) (map (\<lambda>g. (pg_gate g, (p, g))) gs) d" for p gs d
    by (induction gs arbitrary: d) simp_all
  have "fold (\<lambda>r d. if pr_tracking_id r \<noteq> tid then d
                 else fold (\<lambda>g. dict_append (pg_gate g) (pr_persona r, g)) (pr_gates r) d) reports d
      = fold (\<lambda>(k, v). dict_append k v) (report_pairs reports tid) d" for d
    by (induction reports arbitrary: d) (auto simp: report_pairs_def inner)
  then show ?thesis by (simp add: group_by_gate_def)
qed

lemma group_by_gate_get:
  "dict_get (group_by_gate reports tid) gate =
     (if gate_entries reports tid gate = [] then None else Some (gate_entries reports tid gate))"
  unfolding group_by_gate_pairs dict_get_group gate_entries_def
  by (auto simp: dict_get_or_def filter_empty_conv image_iff)

lemma wf_group_by_gate: "wf_dict (group_by_gate reports tid)"
  unfolding group_by_gate_pairs by (rule wf_dict_group) simp

lemma set_report_pairs:
  "set (report_pairs reports tid) =
     {(pg_gate g, (pr_persona r, g)) |r g. r \<in> set reports \<and> pr_tracking_id r = tid \<and> g \<in> set (pr_gates r)}"
  by (auto simp: report_pairs_def)

lemma wf_gate_entries:
  assumes "list_all wf_report reports"
  shows "\<forall>pg \<in> set (gate_entries reports tid gate). wf_gate (snd pg)"
  using assms by (fastforce simp: gate_entries_def set_report_pairs wf_report_def list_all_iff)

lemma synthesized_cases:
  assumes "sg \<in> set (synthesize_gates_for_finding reports tid)"
  obtains gate where "gate_entries reports tid gate \<noteq> []"
    "sg = synthesize_gate tid (gate, gate_entries reports tid gate)"
proof -
  obtain gate es where "(gate, es) \<in> set (group_by_gate reports tid)" "sg = synthesize_gate tid (gate, es)"
    using assms by (auto simp: synthesize_gates_for_finding_def)
  then show ?thesis
    using that by (auto simp: wf_dict_get [OF wf_group_by_gate] group_by_gate_get split: if_splits)
qed

section \<open>The tally\<close>

lemma count_list_filter: "count_list (filter P xs) x = (if P x then count_list xs x else 0)"
  by (induction xs) auto

text \<open>The statuses that reach the highest count among the votes cast.\<close>

definition leaders :: "pystr list \<Rightarrow> pystr set" where
  "leaders ev = {s \<in> set ev. \<forall>s' \<in> set ev. count_list ev s' \<le> count_list ev s}"

lemma tally_leaders:
  fixes vs :: "pystr list"
  defines "ev \<equiv> filter (\<lambda>s. s \<noteq> gs_value Skip) vs"
  shows "ev = [] \<Longrightarrow> tally vs = (gs_value Skip, confidence_flagged)"
    and "ev \<noteq> [] \<Longrightarrow> s \<in> leaders ev \<Longrightarrow> leaders ev = {s} \<Longrightarrow> 2 \<le> count_list ev s \<Longrightarrow>
           tally vs = (s, confidence_high)"
    and "ev \<noteq> [] \<Longrightarrow> \<not> (\<exists>s. leaders ev = {s} \<and> 2 \<le> count_list ev s) \<Longrightarrow>
           tally vs = (strictest (leaders ev), confidence_flagged)"
proof -
  let ?top = "Max (set (map (count_list ev) ev))"
  let ?tops = "filter (\<lambda>s. count_list ev s = ?top) (fromkeys ev)"
  show "ev = [] \<Longrightarrow> tally vs = (gs_value Skip, confidence_flagged)"
    by (simp add: tally_def ev_def)
  {
    assume ne: "ev \<noteq> []"
    have top: "count_list ev s = ?top \<longleftrightarrow> (\<forall>s' \<in> set ev. count_list ev s' \<le> count_list ev s)"
      if "s \<in> set ev" for s
    proof -
      have "?top \<in> set (map (count_list ev) ev)" by (rule Max_in) (use ne in auto)
      then obtain x where x: "x \<in> set ev" "?top = count_list ev x" by auto
      have ge: "count_list ev s' \<le> ?top" if "s' \<in> set ev" for s'
        by (rule Max_ge) (use that in auto)
      show ?thesis
      proof
        assume "\<forall>s' \<in> set ev. count_list ev s' \<le> count_list ev s"
        then have "?top \<le> count_list ev s" using x by simp
        then show "count_list ev s = ?top" using ge [OF that] by (rule antisym [rotated])
      qed (use ge in simp)
    qed
    have set: "set ?tops = leaders ev" using top by (auto simp: leaders_def)
    have len: "length ?tops = card (leaders ev)"
      by (metis set distinct_card distinct_filter distinct_fromkeys)
    have val: "tally vs = (if length ?tops = 1 \<and> 2 \<le> ?top then (hd ?tops, confidence_high)
        else (strictest (leaders ev), confidence_flagged))"
      using ne unfolding tally_def Let_def ev_def [symmetric] min_consensus_votes_def
        most_conservative_strictest set by simp
    note set len val top
  } note facts = this
  show "ev \<noteq> [] \<Longrightarrow> s \<in> leaders ev \<Longrightarrow> leaders ev = {s} \<Longrightarrow> 2 \<le> count_list ev s \<Longrightarrow>
           tally vs = (s, confidence_high)"
  proof -
    assume a: "ev \<noteq> []" "s \<in> leaders ev" "leaders ev = {s}" "2 \<le> count_list ev s"
    then have "length ?tops = 1" using facts(2) by simp
    then obtain y where y: "?tops = [y]" by (auto simp: length_Suc_conv)
    have "set ?tops = {s}" using facts(1) [OF a(1)] a(3) by (rule trans)
    with y have "?tops = [s]" by simp
    moreover have "count_list ev s = ?top" using a facts(4) [OF a(1)] by (auto simp: leaders_def)
    ultimately show ?thesis using facts(3) [OF a(1)] a(4) by simp
  qed
  show "ev \<noteq> [] \<Longrightarrow> \<not> (\<exists>s. leaders ev = {s} \<and> 2 \<le> count_list ev s) \<Longrightarrow>
           tally vs = (strictest (leaders ev), confidence_flagged)"
  proof -
    assume a: "ev \<noteq> []" "\<not> (\<exists>s. leaders ev = {s} \<and> 2 \<le> count_list ev s)"
    have "\<not> (length ?tops = 1 \<and> 2 \<le> ?top)"
    proof
      assume b: "length ?tops = 1 \<and> 2 \<le> ?top"
      then have "card (leaders ev) = 1" using facts(2) [OF a(1)] by (metis (no_types))
      then obtain s where "leaders ev = {s}" by (rule card_1_singletonE)
      moreover from this have "s \<in> set ev" "count_list ev s = ?top"
        using facts(4) [OF a(1)] by (auto simp: leaders_def)
      ultimately show False using a(2) b by auto
    qed
    then show ?thesis by (rule trans [OF facts(3) [OF a(1)] if_not_P])
  qed
qed

lemma tally_mset:
  assumes "mset vs = mset vs'"
  shows "tally vs = tally vs'"
proof -
  let ?f = "filter (\<lambda>s. s \<noteq> gs_value Skip)"
  have m: "mset (?f vs) = mset (?f vs')" using assms by (simp only: mset_filter)
  have "set (?f vs) = set (?f vs')" using m by (rule mset_eq_setD)
  moreover have c: "count_list (?f vs) s = count_list (?f vs') s" for s
    using m by (metis count_mset)
  ultimately have l: "leaders (?f vs) = leaders (?f vs')" by (simp add: leaders_def)
  have e: "?f vs = [] \<longleftrightarrow> ?f vs' = []" using m by (metis mset_zero_iff)
  consider "?f vs = []" | s where "?f vs \<noteq> []" "leaders (?f vs) = {s}" "2 \<le> count_list (?f vs) s"
    | "?f vs \<noteq> []" "\<not> (\<exists>s. leaders (?f vs) = {s} \<and> 2 \<le> count_list (?f vs) s)"
    by blast
  then show ?thesis
  proof cases
    case 1
    then show ?thesis using e tally_leaders(1) by metis
  next
    case 2
    then have "tally vs = (s, confidence_high)" "tally vs' = (s, confidence_high)"
      using e l c by (auto intro!: tally_leaders(2))
    then show ?thesis by simp
  next
    case 3
    then show ?thesis using e l c tally_leaders(3) [of vs] tally_leaders(3) [of vs'] by simp
  qed
qed

lemma leaders_nonempty: "ev \<noteq> [] \<Longrightarrow> leaders ev \<noteq> {}"
proof -
  assume "ev \<noteq> []"
  then have "Max (count_list ev ` set ev) \<in> count_list ev ` set ev" by (intro Max_in) auto
  then obtain s where "s \<in> set ev" "count_list ev s = Max (count_list ev ` set ev)" by auto
  then have "s \<in> leaders ev" by (simp add: leaders_def)
  then show ?thesis by auto
qed

text \<open>A lenient outcome beats every stricter status in votes, strictly.\<close>

lemma tally_strict_plurality:
  assumes "fst (tally vs) = gs_value Pass" "set vs \<subseteq> gs_value ` set votable"
    and "s \<in> {gs_value Fail, gs_value Partial}"
  shows "count_list vs s < count_list vs (gs_value Pass)"
proof -
  let ?ev = "filter (\<lambda>s. s \<noteq> gs_value Skip) vs"
  have ne: "?ev \<noteq> []" using assms(1) tally_leaders(1) [of vs] by (auto simp del: gs_value.simps)
  have "gs_value Pass \<in> leaders ?ev \<and> s \<notin> leaders ?ev"
  proof (cases "\<exists>s. leaders ?ev = {s} \<and> 2 \<le> count_list ?ev s")
    case True
    then obtain t where t: "leaders ?ev = {t}" "2 \<le> count_list ?ev t" by blast
    then have "tally vs = (t, confidence_high)" using ne by (intro tally_leaders(2)) auto
    with assms(1) have "t = gs_value Pass" by (simp only: fst_conv)
    moreover have "s \<noteq> gs_value Pass" using assms(3) by (auto simp del: gs_value.simps)
    ultimately show ?thesis unfolding t(1) by simp
  next
    case False
    then have "strictest (leaders ?ev) = gs_value Pass"
      using assms(1) tally_leaders(3) [OF ne] by simp
    then show ?thesis
      using assms(3) by (auto simp: strictest_def simp del: gs_value.simps split: if_splits)
  qed
  then have p: "gs_value Pass \<in> leaders ?ev" and s: "s \<notin> leaders ?ev" by simp_all
  have cnt: "count_list ?ev x = count_list vs x" if "x \<noteq> gs_value Skip" for x
    using that by (simp add: count_list_filter)
  have sk: "s \<noteq> gs_value Skip" using assms(3) by (auto simp del: gs_value.simps)
  show ?thesis
  proof (cases "s \<in> set ?ev")
    case True
    then have "count_list ?ev s \<le> count_list ?ev (gs_value Pass)" using p by (simp add: leaders_def)
    moreover have "count_list ?ev s \<noteq> count_list ?ev (gs_value Pass)"
      using p s True by (auto simp: leaders_def)
    ultimately have "count_list ?ev s < count_list ?ev (gs_value Pass)" by simp
    then show ?thesis using cnt [OF sk] cnt [of "gs_value Pass"] by (simp del: gs_value.simps)
  next
    case False
    then have "count_list vs s = 0" using sk by (simp add: count_list_0_iff)
    moreover have "gs_value Pass \<in> set vs" using p by (simp add: leaders_def)
    then have "0 < count_list vs (gs_value Pass)" by (metis count_list_0_iff gr0I)
    ultimately show ?thesis by simp
  qed
qed

section \<open>Sorted dictionaries\<close>

text \<open>\<open>sorted(d.items())\<close> depends on the lookups only.\<close>

lemma sorted_items:
  fixes d :: "('k::linorder, 'v) pydict"
  assumes "wf_dict d"
  shows "sort_key fst d = map (\<lambda>k. (k, the (dict_get d k))) (sorted_list_of_set (fst ` set d))"
    (is "_ = ?r")
proof -
  have d: "distinct (map fst d)" using assms by (simp add: wf_dict_def)
  have keys: "map fst (sort_key fst d) = sorted_list_of_set (fst ` set d)"
    by (rule sorted_distinct_set_unique) (use d in \<open>simp_all add: distinct_map\<close>)
  have "map (\<lambda>p. (fst p, the (dict_get d (fst p)))) (sort_key fst d) = sort_key fst d"
    by (rule map_idI) (use d in auto)
  then have "sort_key fst d = map (\<lambda>k. (k, the (dict_get d k))) (map fst (sort_key fst d))"
    by (simp add: comp_def)
  then show ?thesis by (simp only: keys)
qed

lemma sorted_items_cong:
  fixes d :: "('k::linorder, 'v) pydict"
  assumes "wf_dict d" "wf_dict d'" "\<And>k. dict_get d k = dict_get d' k"
  shows "sort_key fst d = sort_key fst d'"
proof -
  have "dict_get d = dict_get d'" using assms(3) by auto
  then have "fst ` set d = fst ` set d'" by (metis dom_map_of_conv_image_fst)
  then show ?thesis by (simp add: sorted_items assms)
qed

section \<open>Properties\<close>

definition personas_voting ::
    "persona_report list \<Rightarrow> pystr \<Rightarrow> pystr \<Rightarrow> gate_status \<Rightarrow> pystr set" where
  "personas_voting reports tid gate s =
     {p. vote_of (gate_entries reports tid gate) p = Some (gs_value s)}"

lemma count_votes:
  assumes "list_all wf_report reports"
  shows "count_list (map snd (persona_votes (gate_entries reports tid gate))) (gs_value s) =
     card (personas_voting reports tid gate s)"
proof -
  let ?v = "persona_votes (gate_entries reports tid gate)"
  have get: "dict_get ?v p = vote_of (gate_entries reports tid gate) p" for p
    by (rule persona_votes_get [OF wf_gate_entries [OF assms]])
  have "(p, x) \<in> set ?v \<longleftrightarrow> vote_of (gate_entries reports tid gate) p = Some x" for p x
    using wf_dict_get [OF wf_persona_votes] get by metis
  then have set: "fst ` set (filter (\<lambda>pv. snd pv = gs_value s) ?v) = personas_voting reports tid gate s"
    by (force simp: personas_voting_def image_iff)
  have "count_list (map snd ?v) (gs_value s) = length (map fst (filter (\<lambda>pv. snd pv = gs_value s) ?v))"
    by (simp add: count_list_map_conv count_list_eq_length_filter filter_map comp_def eq_commute)
  also have "\<dots> = card (set (map fst (filter (\<lambda>pv. snd pv = gs_value s) ?v)))"
    by (rule distinct_card [symmetric])
      (use wf_persona_votes [of "gate_entries reports tid gate"] in \<open>auto simp: wf_dict_def distinct_map_filter\<close>)
  finally show ?thesis by (simp only: set_map set)
qed

lemma votes_votable:
  assumes "list_all wf_report reports"
  shows "set (map snd (persona_votes (gate_entries reports tid gate))) \<subseteq> gs_value ` set votable"
proof
  let ?es = "gate_entries reports tid gate"
  fix x assume "x \<in> set (map snd (persona_votes ?es))"
  then obtain p where "(p, x) \<in> set (persona_votes ?es)" by auto
  then have v: "vote_of ?es p = Some x"
    by (simp add: wf_dict_get [OF wf_persona_votes] persona_votes_get [OF wf_gate_entries [OF assms]])
  have "entry_statuses ?es p \<subseteq> gs_value ` set votable"
    using wf_gate_entries [OF assms] by (fastforce simp: entry_statuses_def wf_gate_def)
  moreover have "entry_statuses ?es p \<noteq> {}" "x = strictest (entry_statuses ?es p)"
    using v by (simp_all add: vote_of_def split: if_splits)
  ultimately show "x \<in> gs_value ` set votable" using strictest_mem by blast
qed

text \<open>
  C4.  A gate passes the consensus only if strictly more personas voted pass than voted
  fail, and strictly more than voted partial, where a persona counts once, with the
  strictest status it gave the gate.
\<close>

theorem consensus_pass_needs_plurality:
  assumes "list_all wf_report reports"
    and "sg \<in> set (synthesize_gates_for_finding reports tid)"
    and "sg_status sg = gs_value Pass"
    and "s \<in> {Fail, Partial}"
  shows "card (personas_voting reports tid (sg_gate sg) s) <
         card (personas_voting reports tid (sg_gate sg) Pass)"
proof -
  obtain gate where sg: "sg = synthesize_gate tid (gate, gate_entries reports tid gate)"
    using synthesized_cases [OF assms(2)] by blast
  let ?vs = "map snd (persona_votes (gate_entries reports tid gate))"
  have "fst (tally ?vs) = gs_value Pass"
    using assms(3) by (simp add: sg synthesize_gate_def Let_def split: prod.splits)
  moreover have "gs_value s \<in> {gs_value Fail, gs_value Partial}" using assms(4) by auto
  ultimately have "count_list ?vs (gs_value s) < count_list ?vs (gs_value Pass)"
    by (intro tally_strict_plurality votes_votable assms(1))
  moreover have "sg_gate sg = gate"
    by (simp add: sg synthesize_gate_def Let_def split: prod.splits)
  ultimately show ?thesis by (simp only: count_votes [OF assms(1)])
qed

text \<open>
  The gate verdicts, their confidence and the recorded votes do not depend on the order
  in which the personas' reports arrive, nor on repeated reports.
\<close>

lemma consensus_order_independent:
  assumes "list_all wf_report reports" "set reports = set reports'"
  shows "map (\<lambda>sg. (sg_gate sg, sg_status sg, sg_confidence sg, sg_votes sg))
           (synthesize_gates_for_finding reports tid) =
         map (\<lambda>sg. (sg_gate sg, sg_status sg, sg_confidence sg, sg_votes sg))
           (synthesize_gates_for_finding reports' tid)"
proof -
  have wf': "list_all wf_report reports'" using assms by (simp add: list_all_iff)
  have pairs: "set (report_pairs reports tid) = set (report_pairs reports' tid)"
    using assms(2) by (simp add: set_report_pairs)
  have es: "set (gate_entries reports tid gate) = set (gate_entries reports' tid gate)" for gate
    using pairs by (simp add: gate_entries_def)
  have m: "mset (persona_votes (gate_entries reports tid gate)) =
      mset (persona_votes (gate_entries reports' tid gate))" for gate
    by (rule persona_votes_mset [OF wf_gate_entries [OF assms(1)] es])
  have v: "sort_key fst (persona_votes (gate_entries reports tid gate)) =
      sort_key fst (persona_votes (gate_entries reports' tid gate))" for gate
    by (rule sorted_items_cong [OF wf_persona_votes wf_persona_votes])
      (simp add: persona_votes_get [OF wf_gate_entries [OF assms(1)]]
        persona_votes_get [OF wf_gate_entries [OF wf']] vote_of_def entry_statuses_def es)
  have t: "tally (map snd (persona_votes (gate_entries reports tid gate))) =
      tally (map snd (persona_votes (gate_entries reports' tid gate)))" for gate
    by (rule tally_mset) (simp only: mset_map m)
  let ?out = "\<lambda>rs gate. (\<lambda>sg. (sg_gate sg, sg_status sg, sg_confidence sg, sg_votes sg))
      (synthesize_gate tid (gate, gate_entries rs tid gate))"
  have out: "?out reports gate = ?out reports' gate" for gate
    by (simp add: synthesize_gate_def Let_def t v split: prod.splits)
  have keys: "fst ` set (group_by_gate rs tid) = fst ` set (report_pairs rs tid)" for rs
  proof -
    have "fst ` set (group_by_gate rs tid) = dom (dict_get (group_by_gate rs tid))"
      by (simp add: dom_map_of_conv_image_fst)
    also have "\<dots> = {g. gate_entries rs tid g \<noteq> []}" by (auto simp: group_by_gate_get)
    finally show ?thesis by (auto simp: gate_entries_def filter_empty_conv)
  qed
  have "map (\<lambda>sg. (sg_gate sg, sg_status sg, sg_confidence sg, sg_votes sg))
       (synthesize_gates_for_finding rs tid) =
      map (?out rs) (sorted_list_of_set (fst ` set (report_pairs rs tid)))" for rs
  proof -
    have "the (dict_get (group_by_gate rs tid) k) = gate_entries rs tid k"
      if "k \<in> fst ` set (report_pairs rs tid)" for k
    proof -
      have "gate_entries rs tid k \<noteq> []" using that by (auto simp: gate_entries_def filter_empty_conv)
      then show ?thesis by (simp add: group_by_gate_get)
    qed
    then show ?thesis
      by (simp add: synthesize_gates_for_finding_def sorted_items [OF wf_group_by_gate] keys)
  qed
  then show ?thesis by (simp add: out pairs)
qed

section \<open>Witnesses\<close>

definition sample_entry :: "gate_status \<Rightarrow> persona_gate" where
  "sample_entry s =
     \<lparr>pg_gate = gn_value RootCause, pg_status = gs_value s, pg_summary = [], pg_details = [],
      pg_evidence = []\<rparr>"

definition sample_report :: "pystr \<Rightarrow> gate_status \<Rightarrow> persona_report" where
  "sample_report p s = \<lparr>pr_persona = p, pr_tracking_id = ''F1'', pr_gates = [sample_entry s]\<rparr>"

definition sample_reports :: "persona_report list" where
  "sample_reports = [sample_report ''a'' Pass, sample_report ''b'' Fail, sample_report ''c'' Pass]"

lemma wf_sample_reports: "list_all wf_report sample_reports"
  by code_simp

lemma consensus_pass_needs_plurality_witness:
  "card (personas_voting sample_reports ''F1'' (gn_value RootCause) Fail) <
   card (personas_voting sample_reports ''F1'' (gn_value RootCause) Pass)"
proof -
  have "map (\<lambda>sg. (sg_gate sg, sg_status sg)) (synthesize_gates_for_finding sample_reports ''F1'') =
      [(gn_value RootCause, gs_value Pass)]" by code_simp
  then obtain sg where "sg \<in> set (synthesize_gates_for_finding sample_reports ''F1'')"
    "sg_gate sg = gn_value RootCause" "sg_status sg = gs_value Pass"
    by (auto simp: map_eq_Cons_conv)
  with consensus_pass_needs_plurality [OF wf_sample_reports this(1,3), of Fail] show ?thesis
    by (simp del: gn_value.simps)
qed

lemma consensus_order_independent_witness:
  "map sg_status (synthesize_gates_for_finding (rev sample_reports) ''F1'') = [gs_value Pass]"
proof -
  have "map sg_status (synthesize_gates_for_finding sample_reports ''F1'') = [gs_value Pass]"
    by code_simp
  moreover have "map sg_status (synthesize_gates_for_finding sample_reports ''F1'') =
      map sg_status (synthesize_gates_for_finding (rev sample_reports) ''F1'')"
    using arg_cong [OF consensus_order_independent [OF wf_sample_reports, of "rev sample_reports" "''F1''"],
        of "map (fst \<circ> snd)"] by (simp add: comp_def)
  ultimately show ?thesis by simp
qed

end
