(* ===== verification/HostScore.thy ===== *)
theory HostScore
  imports Scoring
begin

text \<open>
  The host side of a validation session: \<open>validation/io/_host_score.py\<close> recomputes the
  verdict from the persisted gates, \<open>validation/io/dto_writeback.py\<close> folds it into the
  remediation report, \<open>validation/io/result_collector.py\<close> builds the rendered results.  A
  file is the value its bytes parse to.  A Python exception that nothing catches is a value
  of \<open>host_error\<close>.
\<close>

section \<open>Host scores\<close>

datatype host_error = AttributeError | KeyError

record gate_entry =
  ge_status :: pystr
  ge_weight :: rat
  ge_weighted :: rat

record host_score =
  hs_fix_status :: pystr
  hs_raw_score :: rat
  hs_readiness :: pystr
  hs_gate_scores :: "(pystr, gate_entry) pydict"

fun mr_value :: "merge_readiness \<Rightarrow> pystr" where
  "mr_value Ready = ''Ready''"
| "mr_value NotReady = ''Not Ready''"
| "mr_value ReadyWithConditions = ''Ready with Conditions''"

definition gates_by_tracking_id ::
    "(pyval \<Rightarrow> pystr) \<Rightarrow> pyval list \<Rightarrow> (pystr, pyval list) pydict" where
  "gates_by_tracking_id rep data =
     fold (\<lambda>entry d. case entry of
         PDict m \<Rightarrow>
           (case py_get m ''gates'' of
              PList gates \<Rightarrow> dict_set (py_str rep (dict_get_or m ''tracking_id'' (PStr []))) gates d
            | _ \<Rightarrow> d)
       | _ \<Rightarrow> d) data []"

definition load_synthesized_gates ::
    "(pyval \<Rightarrow> pystr) \<Rightarrow> json_file \<Rightarrow> (pystr, pyval list) pydict" where
  "load_synthesized_gates rep f =
     (case f of Json (PList data) \<Rightarrow> gates_by_tracking_id rep data | _ \<Rightarrow> [])"

definition effective_score :: "host_score option \<Rightarrow> host_score" where
  "effective_score host =
     (case host of
        Some h \<Rightarrow> h
      | None \<Rightarrow> \<lparr>hs_fix_status = fv_value Unverifiable, hs_raw_score = 0,
                 hs_readiness = mr_value NotReady, hs_gate_scores = []\<rparr>)"

definition gate_entry_of :: "pymap \<Rightarrow> pystr \<Rightarrow> gate_entry" where
  "gate_entry_of gate name =
     (let status = gs_value (parse_status (py_get gate ''status''));
          weight = dict_get_or (sc_weights fix_config) name 0;
          multiplier = dict_get_or (sc_multiplier fix_config) status 0
      in \<lparr>ge_status = status, ge_weight = weight,
          ge_weighted = round_dec score_precision (fl (weight * multiplier))\<rparr>)"

definition gate_scores_of ::
    "(pyval \<Rightarrow> pystr) \<Rightarrow> pymap list \<Rightarrow> (pystr, gate_entry) pydict" where
  "gate_scores_of rep gates =
     fold (\<lambda>gate. let name = py_str rep (dict_get_or gate ''gate_name'' (PStr []))
                  in dict_set name (gate_entry_of gate name)) gates []"

text \<open>
  The items of a finding's \<open>gates\<close> are not checked to be mappings: one that is not raises
  in \<open>parse_raw_criterion\<close>.
\<close>

definition host_score_for ::
    "(pyval \<Rightarrow> pystr) \<Rightarrow> pystr \<Rightarrow> (pystr, pyval list) pydict \<Rightarrow> host_error + host_score option" where
  "host_score_for rep finding_id gates_by_id =
     (case dict_get gates_by_id finding_id of
        None \<Rightarrow> Inr None
      | Some [] \<Rightarrow> Inr None
      | Some vs \<Rightarrow>
          (case all_mappings vs of
             None \<Rightarrow> Inl AttributeError
           | Some gates \<Rightarrow>
               (case score_fix gates of
                  None \<Rightarrow> Inl KeyError
                | Some s \<Rightarrow>
                    Inr (Some \<lparr>hs_fix_status = fv_value (vs_fix_status s),
                               hs_raw_score = vs_raw_score s,
                               hs_readiness = mr_value (derive_merge_readiness s),
                               hs_gate_scores = gate_scores_of rep gates\<rparr>))))"

section \<open>Writing the verdict back\<close>

text \<open>The agent's narrative for one finding, after pydantic and the redaction pass.\<close>

record fix_finding =
  ff_tracking_id :: pystr
  ff_title :: pystr
  ff_description :: pystr
  ff_affected_files :: pystr
  ff_severity :: pystr
  ff_justification :: pystr
  ff_conditions :: "pystr list"
  ff_recommendations :: "pystr list"
  ff_files_needing_fixes :: pystr

definition default_severity :: pystr where "default_severity = ''Medium''"

definition empty_finding :: fix_finding where
  "empty_finding =
     \<lparr>ff_tracking_id = [], ff_title = [], ff_description = [], ff_affected_files = [],
      ff_severity = default_severity, ff_justification = [], ff_conditions = [],
      ff_recommendations = [], ff_files_needing_fixes = []\<rparr>"

text \<open>\<open>None\<close> is a \<open>validation_report.json\<close> that cannot be read or parsed.\<close>

definition load_verdict :: "fix_finding list option \<Rightarrow> pystr \<Rightarrow> fix_finding" where
  "load_verdict report finding_id =
     (case report of
        None \<Rightarrow> empty_finding
      | Some findings \<Rightarrow>
          (case find (\<lambda>f. ff_tracking_id f = finding_id) findings of
             Some f \<Rightarrow> f
           | None \<Rightarrow> (case findings of [] \<Rightarrow> empty_finding | f # _ \<Rightarrow> f)))"

definition gate_scores_json :: "(pystr, gate_entry) pydict \<Rightarrow> pyval" where
  "gate_scores_json d =
     PDict (map (\<lambda>(n, g). (n, PDict
       [(''status'', PStr (ge_status g)), (''weight'', PFloat (ge_weight g)),
        (''weighted_score'', PFloat (ge_weighted g))])) d)"

definition validation_block :: "fix_finding \<Rightarrow> host_score \<Rightarrow> pymap" where
  "validation_block ff host =
     [(''_source'', PStr ''s11 validation''),
      (''fix_status'', PStr (hs_fix_status host)),
      (''raw_score'', PFloat (hs_raw_score host)),
      (''merge_readiness'', PStr (hs_readiness host)),
      (''gate_scores'', gate_scores_json (hs_gate_scores host)),
      (''justification'', PStr (ff_justification ff)),
      (''conditions_for_full_fix'', PList (map PStr (ff_conditions ff))),
      (''recommendations'', PList (map PStr (ff_recommendations ff)))]"

definition status_validated :: pystr where "status_validated = ''validated''"
definition status_needs_review :: pystr where "status_needs_review = ''needs_review''"
definition status_validation_failed :: pystr where "status_validation_failed = ''validation_failed''"
definition status_awaiting_validation :: pystr where "status_awaiting_validation = ''awaiting_validation''"

definition validatable_statuses :: "pystr list" where
  "validatable_statuses = [status_awaiting_validation, status_needs_review, status_validation_failed]"

definition terminal_status :: "pystr \<Rightarrow> pystr" where
  "terminal_status fix_status =
     (case parse_verdict fix_status of
        Unverifiable \<Rightarrow> status_needs_review
      | Fixed \<Rightarrow> status_validated
      | _ \<Rightarrow> status_validation_failed)"

text \<open>
  \<open>dto\<close> is the report file (\<open>None\<close>: no source path, unreadable, or not an object);
  \<open>write_ok\<close> says whether the write succeeds.  The result pairs the returned status with
  the object written, if one was.
\<close>

definition write_back_validation ::
    "(pyval \<Rightarrow> pystr) \<Rightarrow> pymap option \<Rightarrow> pystr \<Rightarrow> fix_finding list option \<Rightarrow> json_file \<Rightarrow> bool \<Rightarrow> bool \<Rightarrow>
       host_error + pystr option \<times> pymap option" where
  "write_back_validation rep dto finding_id report gates_file session_failed write_ok =
     (case dto of
        None \<Rightarrow> Inr (None, None)
      | Some d \<Rightarrow>
          let verdict = load_verdict report finding_id;
              scored = (if session_failed then Inr None
                        else host_score_for rep finding_id (load_synthesized_gates rep gates_file))
          in case scored of
               Inl e \<Rightarrow> Inl e
             | Inr h \<Rightarrow>
                 let host = effective_score h; status = terminal_status (hs_fix_status host);
                     d' = dict_set ''status'' (PStr status)
                            (dict_set ''validation'' (PDict (validation_block verdict host)) d)
                 in if write_ok then Inr (Some status, Some d') else Inr (None, None))"

section \<open>Rendered results\<close>

datatype answer = Yes | No | Unknown

record validation_result =
  vr_finding_number :: int
  vr_tracking_id :: pystr
  vr_title :: pystr
  vr_description :: pystr
  vr_affected_files :: pystr
  vr_fixed :: answer
  vr_partially_fixed :: answer
  vr_not_fixed :: answer
  vr_files_needing_fixes :: pystr
  vr_reason :: pystr
  vr_severity :: pystr
  vr_readiness :: pystr
  vr_recommendations :: pystr
  vr_confidence :: rat
  vr_gate_scores :: "(pystr, gate_entry) pydict"
  vr_justification :: pystr

definition files_needing_fixes_text :: "fix_finding \<Rightarrow> pystr" where
  "files_needing_fixes_text ff =
     (if ff_conditions ff \<noteq> [] then join_with ''; '' (ff_conditions ff) else ff_files_needing_fixes ff)"

definition build_result ::
    "(pyval \<Rightarrow> pystr) \<Rightarrow> fix_finding \<Rightarrow> int \<Rightarrow> host_score option \<Rightarrow> validation_result" where
  "build_result rep ff number h =
     (let host = effective_score h; status = parse_verdict (hs_fix_status host);
          ans = (\<lambda>v. if status = v then Yes else No)
      in \<lparr>vr_finding_number = number, vr_tracking_id = ff_tracking_id ff, vr_title = ff_title ff,
          vr_description = ff_description ff, vr_affected_files = ff_affected_files ff,
          vr_fixed = ans Fixed, vr_partially_fixed = ans PartiallyFixed, vr_not_fixed = ans NotFixed,
          vr_files_needing_fixes = files_needing_fixes_text ff,
          vr_reason = hs_fix_status host @ '' (score: '' @ rep (PFloat (hs_raw_score host)) @ ''). '' @
            ff_justification ff,
          vr_severity = ff_severity ff, vr_readiness = hs_readiness host,
          vr_recommendations = join_with ''; '' (ff_recommendations ff),
          vr_confidence = hs_raw_score host, vr_gate_scores = hs_gate_scores host,
          vr_justification = ff_justification ff\<rparr>)"

fun collect_from ::
    "(pyval \<Rightarrow> pystr) \<Rightarrow> (pystr, pyval list) pydict \<Rightarrow> int \<Rightarrow> fix_finding list \<Rightarrow>
       host_error + validation_result list" where
  "collect_from rep gates i [] = Inr []"
| "collect_from rep gates i (f # fs) =
     (case host_score_for rep (ff_tracking_id f) gates of
        Inl e \<Rightarrow> Inl e
      | Inr h \<Rightarrow>
          (case collect_from rep gates (i + 1) fs of
             Inl e \<Rightarrow> Inl e | Inr rs \<Rightarrow> Inr (build_result rep f i h # rs)))"

definition collect_results ::
    "(pyval \<Rightarrow> pystr) \<Rightarrow> fix_finding list option \<Rightarrow> json_file \<Rightarrow> int \<Rightarrow>
       host_error + validation_result list" where
  "collect_results rep report gates_file start =
     (case report of
        None \<Rightarrow> Inr []
      | Some findings \<Rightarrow> collect_from rep (load_synthesized_gates rep gates_file) start findings)"

section \<open>Enriching blank fields from the manifest\<close>

record manifest_finding =
  mf_tracking_id :: pystr
  mf_title :: pystr
  mf_category :: pystr
  mf_severity :: pystr
  mf_affected_files :: "pystr list"

definition min_affected_file_len :: nat where "min_affected_file_len = 3"

definition filter_affected_files :: "pystr list \<Rightarrow> pystr" where
  "filter_affected_files affected =
     join_with '', '' (filter (\<lambda>f. \<not> prefix ''//'' f \<and> min_affected_file_len < length f) affected)"

text \<open>\<open>s.replace("\n", " ")\<close> where the source writes a backslash followed by an \<open>n\<close>.\<close>

fun replace_backslash_n :: "pystr \<Rightarrow> pystr" where
  "replace_backslash_n (c # d # cs) =
     (if c = CHR 0x5C \<and> d = CHR ''n'' then CHR '' '' # replace_backslash_n cs
      else c # replace_backslash_n (d # cs))"
| "replace_backslash_n cs = cs"

definition enrich_tracking_id :: "validation_result \<Rightarrow> manifest_finding \<Rightarrow> pystr \<Rightarrow> validation_result" where
  "enrich_tracking_id r f jira_key =
     (if vr_tracking_id r = [] \<or> vr_tracking_id r = jira_key
      then r\<lparr>vr_tracking_id := (if mf_tracking_id f \<noteq> [] then mf_tracking_id f else jira_key)\<rparr>
      else r)"

definition enrich_result :: "manifest_finding \<Rightarrow> pystr \<Rightarrow> validation_result \<Rightarrow> validation_result" where
  "enrich_result f jira_key r =
     (let r1 = (if vr_title r = [] then r\<lparr>vr_title := mf_title f\<rparr> else r);
          r2 = (if vr_description r1 = []
                then r1\<lparr>vr_description := py_strip (replace_backslash_n (mf_category f))\<rparr> else r1);
          r3 = (if vr_severity r2 = default_severity \<and> mf_severity f \<noteq> []
                then r2\<lparr>vr_severity := mf_severity f\<rparr> else r2);
          r4 = (if vr_affected_files r3 = []
                then r3\<lparr>vr_affected_files := filter_affected_files (mf_affected_files f)\<rparr> else r3)
      in enrich_tracking_id r4 f jira_key)"

definition collect_and_enrich ::
    "(pyval \<Rightarrow> pystr) \<Rightarrow> fix_finding list option \<Rightarrow> json_file \<Rightarrow> int \<Rightarrow>
       (manifest_finding option \<times> pystr) option \<Rightarrow> host_error + validation_result list" where
  "collect_and_enrich rep report gates_file start manifest =
     (case collect_results rep report gates_file start of
        Inl e \<Rightarrow> Inl e
      | Inr rs \<Rightarrow>
          (case manifest of
             Some (Some f, jira_key) \<Rightarrow> Inr (map (enrich_result f jira_key) rs)
           | _ \<Rightarrow> Inr rs))"

definition make_unverifiable :: "pystr \<Rightarrow> pystr \<Rightarrow> pystr \<Rightarrow> int \<Rightarrow> validation_result" where
  "make_unverifiable tracking_id title reason number =
     \<lparr>vr_finding_number = number, vr_tracking_id = tracking_id, vr_title = title,
      vr_description = [], vr_affected_files = [], vr_fixed = Unknown, vr_partially_fixed = Unknown,
      vr_not_fixed = Unknown, vr_files_needing_fixes = [],
      vr_reason = ''UNVERIFIABLE: '' @ reason, vr_severity = default_severity,
      vr_readiness = mr_value NotReady,
      vr_recommendations = ''Manual review required: '' @ reason, vr_confidence = 0,
      vr_gate_scores = [], vr_justification = []\<rparr>"

end
