(* ===== verification/HostScoreProps.thy ===== *)
theory HostScoreProps
  imports HostScore ScoringProps
begin

text \<open>
  What the host guarantees about the verdict it writes back: it is the verdict of the exact
  scoring specification on the persisted gates, it fails closed, and the agent's own report
  has no influence on it.
\<close>

section \<open>The host score\<close>

lemma host_score_cases:
  "host_score_for rep fid d =
     (case dict_get d fid of
        None \<Rightarrow> Inr None
      | Some vs \<Rightarrow>
          if vs = [] then Inr None
          else (case all_mappings vs of
             None \<Rightarrow> Inl AttributeError
           | Some gates \<Rightarrow>
               (case score_fix gates of
                  None \<Rightarrow> Inl KeyError
                | Some s \<Rightarrow>
                    Inr (Some \<lparr>hs_fix_status = fv_value (vs_fix_status s),
                               hs_raw_score = vs_raw_score s,
                               hs_readiness = mr_value (derive_merge_readiness s),
                               hs_gate_scores = gate_scores_of rep gates\<rparr>))))"
  by (auto simp: host_score_for_def split: option.splits list.splits)

lemma score_fix_Some: obtains s where "score_fix gates = Some s"
    "vs_fix_status s = spec_verdict (parse_gates gates)"
  using score_fix_total by blast



lemma host_score_raises:
  "host_score_for rep fid d = Inl e \<longleftrightarrow>
     e = AttributeError \<and>
     (\<exists>vs. dict_get d fid = Some vs \<and> \<not> (\<exists>gates. vs = map PDict gates))"
proof (cases "dict_get d fid")
  case None
  then show ?thesis by (simp add: host_score_cases)
next
  case (Some vs)
  have nm: "(\<exists>gates. vs = map PDict gates) \<longleftrightarrow> all_mappings vs \<noteq> None"
    by (auto simp: all_mappings_Some)
  show ?thesis
  proof (cases "all_mappings vs")
    case None
    then have "vs \<noteq> []" by auto
    with Some None nm show ?thesis by (auto simp: host_score_cases)
  next
    case (Some gates)
    obtain s where "score_fix gates = Some s" by (rule score_fix_Some)
    with Some \<open>dict_get d fid = Some vs\<close> nm show ?thesis by (auto simp: host_score_cases)
  qed
qed

text \<open>
  The host score raises exactly when an item of the finding's \<open>gates\<close> list is not a
  mapping, and then with the \<open>AttributeError\<close> of the missing \<open>get\<close>: the loader checks that
  \<open>gates\<close> is a list but not its items, so this malformed file does not fail closed.
\<close>

lemma host_score_raises_iff:
  "host_score_for rep fid d = Inl e \<longleftrightarrow>
     e = AttributeError \<and>
     (\<exists>vs. dict_get d fid = Some vs \<and> \<not> (\<exists>gates. vs = map PDict gates))"
  by (rule host_score_raises)

section \<open>The write-back\<close>





text \<open>
  What a write-back writes: the status follows from the verdict of the block it writes,
  the agent's report affects neither, and every field of the document other than
  \<open>validation\<close> and \<open>status\<close> is kept.
\<close>

lemma write_back_frame:
  assumes "write_back_validation rep (Some d) fid report gf failed True = Inr (st, Some d')"
  shows "(\<exists>block fs. st = Some (terminal_status fs) \<and>
       dict_get d' ''status'' = Some (PStr (terminal_status fs)) \<and>
       dict_get d' ''validation'' = Some (PDict block) \<and>
       dict_get block ''fix_status'' = Some (PStr fs)) \<and>
     (\<forall>k. k \<notin> {''status'', ''validation''} \<longrightarrow> dict_get d' k = dict_get d k) \<and>
     (\<forall>report'. \<exists>d''.
       write_back_validation rep (Some d) fid report' gf failed True = Inr (st, Some d''))"
  using assms
  by (auto simp: write_back_validation_def Let_def validation_block_def dict_simps
      split: sum.splits if_splits)

lemma write_back_frame_witness:
  "\<exists>st d'. write_back_validation (\<lambda>_. []) (Some [(''id'', PStr ''F1'')]) ''F1'' None Unreadable False True =
       Inr (st, Some d') \<and> dict_get d' ''id'' = Some (PStr ''F1'')"
proof -
  obtain st d' where w: "write_back_validation (\<lambda>_. []) (Some [(''id'', PStr ''F1'')]) ''F1'' None Unreadable
      False True = Inr (st, Some d')"
    by (simp add: write_back_validation_def Let_def load_synthesized_gates_def host_score_cases)
  with write_back_frame [OF w] show ?thesis by auto
qed

end
