(* ===== verification/Fnmatch.thy ===== *)
theory Fnmatch
  imports Prelude
begin

text \<open>
  \<open>fnmatch.fnmatch\<close> of the standard library on a POSIX system: \<open>*\<close> matches any text, path
  separators included, \<open>?\<close> one character, \<open>[...]\<close> and \<open>[!...]\<close> a set of characters and
  ranges; an unclosed bracket is a literal.  The two path helpers of
  \<open>remediation_agent/policy_gate/matching.py\<close> follow.
\<close>

section \<open>Patterns\<close>

datatype class_item = One char | Range char char

datatype glob_token = Star | AnyChar | Lit char | Class bool "class_item list"

fun class_items :: "pystr \<Rightarrow> class_item list" where
  "class_items [] = []"
| "class_items (c # cs) =
     (case cs of
        h # d # rest \<Rightarrow> if h = CHR ''-'' then Range c d # class_items rest else One c # class_items cs
      | _ \<Rightarrow> One c # class_items cs)"

text \<open>
  The body of a bracket expression: a \<open>]\<close> in first place is a member.  \<open>None\<close> when there is
  no closing bracket.
\<close>

definition split_class :: "pystr \<Rightarrow> (bool \<times> pystr \<times> pystr) option" where
  "split_class cs =
     (let neg = (cs \<noteq> [] \<and> hd cs = CHR ''!'');
          body = (if neg then tl cs else cs);
          first = (if body \<noteq> [] \<and> hd body = CHR '']'' then [CHR '']''] else []);
          rest = drop (length first) body;
          inner = takeWhile (\<lambda>c. c \<noteq> CHR '']'') rest;
          after = dropWhile (\<lambda>c. c \<noteq> CHR '']'') rest
      in if after = [] then None else Some (neg, first @ inner, tl after))"

lemma split_class_shorter: "split_class cs = Some (neg, body, rest) \<Longrightarrow> length rest < length cs"
proof -
  assume a: "split_class cs = Some (neg, body, rest)"
  define b where "b = (if cs \<noteq> [] \<and> hd cs = CHR ''!'' then tl cs else cs)"
  define r where "r = drop (length (if b \<noteq> [] \<and> hd b = CHR '']'' then [CHR '']''] else [])) b"
  define t where "t = dropWhile (\<lambda>c. c \<noteq> CHR '']'') r"
  have "t \<noteq> []" "rest = tl t"
    using a unfolding split_class_def Let_def b_def [symmetric] r_def [symmetric] t_def [symmetric]
    by (simp_all split: if_splits)
  then have "length rest < length t" by (cases t) simp_all
  also have "length t \<le> length r" by (simp add: t_def length_dropWhile_le)
  also have "length r \<le> length b" by (simp add: r_def)
  also have "length b \<le> length cs" by (simp add: b_def)
  finally show ?thesis .
qed

function glob_tokens :: "pystr \<Rightarrow> glob_token list" where
  "glob_tokens [] = []"
| "glob_tokens (c # cs) =
     (if c = CHR ''*'' then Star # glob_tokens cs
      else if c = CHR ''?'' then AnyChar # glob_tokens cs
      else if c = CHR ''['' then
        (case split_class cs of
           None \<Rightarrow> Lit c # glob_tokens cs
         | Some (neg, body, rest) \<Rightarrow> Class neg (class_items body) # glob_tokens rest)
      else Lit c # glob_tokens cs)"
  by pat_completeness auto

termination
  by (relation "measure length") (auto dest: split_class_shorter)

section \<open>Matching\<close>

fun item_matches :: "char \<Rightarrow> class_item \<Rightarrow> bool" where
  "item_matches c (One d) = (c = d)"
| "item_matches c (Range lo hi) = (lo \<le> c \<and> c \<le> hi)"

fun tokens_match :: "glob_token list \<Rightarrow> pystr \<Rightarrow> bool" where
  "tokens_match [] s = (s = [])"
| "tokens_match (Star # ts) [] = tokens_match ts []"
| "tokens_match (Star # ts) (c # s) = (tokens_match ts (c # s) \<or> tokens_match (Star # ts) s)"
| "tokens_match (AnyChar # ts) s = (case s of [] \<Rightarrow> False | c # s' \<Rightarrow> tokens_match ts s')"
| "tokens_match (Lit d # ts) s = (case s of [] \<Rightarrow> False | c # s' \<Rightarrow> c = d \<and> tokens_match ts s')"
| "tokens_match (Class neg items # ts) s =
     (case s of [] \<Rightarrow> False | c # s' \<Rightarrow> list_ex (item_matches c) items \<noteq> neg \<and> tokens_match ts s')"

definition fnmatch :: "pystr \<Rightarrow> pystr \<Rightarrow> bool" where
  "fnmatch name pat = tokens_match (glob_tokens pat) name"

definition to_slash :: "pystr \<Rightarrow> pystr" where
  "to_slash s = replace_char (CHR 0x5C) (CHR ''/'') s"

definition glob_match :: "pystr \<Rightarrow> pystr \<Rightarrow> bool" where
  "glob_match path pat \<longleftrightarrow>
     fnmatch path pat \<or> prefix ''**/'' pat \<and> fnmatch path (drop 3 pat)"

text \<open>The first pattern that matches, for the first file that matches any.\<close>

fun first_match :: "pystr list \<Rightarrow> pystr list \<Rightarrow> pystr option" where
  "first_match [] pats = None"
| "first_match (f # fs) pats =
     (let nf = to_slash f in
      if nf = [] then first_match fs pats
      else (case find (glob_match nf) pats of Some p \<Rightarrow> Some p | None \<Rightarrow> first_match fs pats))"

section \<open>Facts\<close>

lemma tokens_match_Star: "tokens_match (Star # ts) s \<longleftrightarrow> (\<exists>u v. s = u @ v \<and> tokens_match ts v)"
proof (induction s)
  case Nil
  then show ?case by auto
next
  case (Cons c s)
  have "tokens_match (Star # ts) (c # s) \<longleftrightarrow>
      tokens_match ts (c # s) \<or> (\<exists>u v. s = u @ v \<and> tokens_match ts v)"
    using Cons by simp
  also have "\<dots> \<longleftrightarrow> (\<exists>u v. c # s = u @ v \<and> tokens_match ts v)"
    by (metis append_Cons append_Nil append_eq_Cons_conv)
  finally show ?case .
qed

lemma tokens_match_append:
  "tokens_match ts u \<Longrightarrow> tokens_match ts' v \<Longrightarrow> tokens_match (ts @ ts') (u @ v)"
proof (induction ts u rule: tokens_match.induct)
  case (2 ts)
  then show ?case by (cases v) auto
next
  case (3 ts c s)
  then show ?case by auto
qed (auto split: list.splits)

lemma glob_tokens_plain:
  "list_all (\<lambda>c. c \<notin> {CHR ''*'', CHR ''?'', CHR ''[''}) lit \<Longrightarrow>
     glob_tokens (lit @ pat) = map Lit lit @ glob_tokens pat"
  by (induction lit) auto

lemma tokens_match_lits: "tokens_match (map Lit lit) s \<longleftrightarrow> s = lit"
  by (induction lit arbitrary: s) (auto split: list.splits)

lemma first_match_None:
  "first_match fs pats = None \<longleftrightarrow>
     (\<forall>f \<in> set fs. to_slash f \<noteq> [] \<longrightarrow> (\<forall>p \<in> set pats. \<not> glob_match (to_slash f) p))"
  by (induction fs) (auto simp: Let_def find_None_iff find_Some_iff split: option.splits)

lemma to_slash_idem [simp]: "to_slash (to_slash s) = to_slash s"
  by (induction s) (auto simp: to_slash_def replace_char_def)

lemma to_slash_Nil [simp]: "to_slash s = [] \<longleftrightarrow> s = []"
  by (simp add: to_slash_def replace_char_def)

end
