(* ===== verification/PolicyGate.thy ===== *)
theory PolicyGate
  imports Fnmatch PyVal
begin

text \<open>
  The remediation policy gate: \<open>remediation_agent/policy_gate/action.py\<close>,
  \<open>loader.py\<close>, \<open>gate.py\<close> and \<open>cap_verdict\<close> of \<open>diffscan.py\<close>.  The gate decides whether a
  finding may be patched at all and which changed files must be reverted.  A Python
  exception that nothing catches is a value of \<open>policy_error\<close>.
\<close>

section \<open>Data\<close>

datatype action = Patch | GuidanceOnly

record decision =
  dc_action :: action
  dc_reason :: pyval
  dc_rule :: "pystr option"

datatype policy_error = PolAttributeError | PolTypeError

record policy_data =
  pd_deny :: "(pystr, pyval) pydict"
  pd_allow :: "pystr set"
  pd_deny_paths :: "pystr list"
  pd_forbid_paths :: "pystr list"
  pd_kill_env :: "pyval option"
  pd_kill_file :: "pystr option"
  pd_default :: action

definition may_generate_patch :: "decision \<Rightarrow> bool" where
  "may_generate_patch d \<longleftrightarrow> dc_action d = Patch"

definition decide_as :: "action \<Rightarrow> pystr \<Rightarrow> decision" where
  "decide_as a reason = \<lparr>dc_action = a, dc_reason = PStr reason, dc_rule = None\<rparr>"

definition fail_closed :: decision where
  "fail_closed = decide_as GuidanceOnly ''policy_unavailable_fail_closed''"

section \<open>Loading the policy\<close>

definition norm_cwe :: "(pyval \<Rightarrow> pystr) \<Rightarrow> pyval \<Rightarrow> pystr option" where
  "norm_cwe rep raw =
     (if raw = PNone then None
      else
        let s = py_upper (py_strip (py_str rep raw));
            t = (if prefix ''CWE-'' s then drop 4 s else s)
        in if py_isdigit t then Some (''CWE-'' @ t) else None)"

text \<open>\<open>doc.get(key, []) or []\<close>, then iterated.\<close>

definition get_items :: "pymap \<Rightarrow> pystr \<Rightarrow> policy_error + pyval list" where
  "get_items m key =
     or_raise (py_iter (py_or (dict_get_or m key (PList [])) (PList []))) PolTypeError"

definition add_descendants ::
    "(pyval \<Rightarrow> pystr) \<Rightarrow> pystr \<Rightarrow> pyval \<Rightarrow> pyval list \<Rightarrow> (pystr, pyval) pydict \<Rightarrow> (pystr, pyval) pydict" where
  "add_descendants rep cwe reason children deny =
     fold (\<lambda>child d. case norm_cwe rep child of
         Some c \<Rightarrow> dict_setdefault c (PStr (''descendant_of:'' @ cwe @ '' ('' @ py_str rep reason @ '')'')) d
       | None \<Rightarrow> d) children deny"

fun load_deny ::
    "(pyval \<Rightarrow> pystr) \<Rightarrow> pyval list \<Rightarrow> (pystr, pyval) pydict \<Rightarrow> policy_error + (pystr, pyval) pydict" where
  "load_deny rep [] deny = Inr deny"
| "load_deny rep (PDict entry # es) deny =
     (case norm_cwe rep (py_get entry ''id'') of
        None \<Rightarrow> load_deny rep es deny
      | Some cwe \<Rightarrow>
          let reason = dict_get_or entry ''reason'' (PStr ''policy_denied'') in
          and_then (get_items entry ''descendants'') (\<lambda>children.
            load_deny rep es (add_descendants rep cwe reason children (dict_set cwe reason deny))))"
| "load_deny rep (_ # es) deny = Inl PolAttributeError"

fun load_allow :: "(pyval \<Rightarrow> pystr) \<Rightarrow> pyval list \<Rightarrow> pystr set \<Rightarrow> policy_error + pystr set" where
  "load_allow rep [] allow = Inr allow"
| "load_allow rep (PDict entry # es) allow =
     (case norm_cwe rep (py_get entry ''id'') of
        None \<Rightarrow> load_allow rep es allow
      | Some cwe \<Rightarrow> load_allow rep es (insert cwe allow))"
| "load_allow rep (_ # es) allow = Inl PolAttributeError"

text \<open>The kill switch; \<open>Path\<close> of something that is not a string raises.\<close>

definition load_kill_switch :: "pymap \<Rightarrow> policy_error + pyval option \<times> pystr option" where
  "load_kill_switch m =
     (case py_or (py_get m ''kill_switch'') (PDict []) of
        PDict ks \<Rightarrow>
          let env = py_get ks ''env_var''; kf = py_get ks ''file'';
              kill_env = (if truthy env then Some env else None)
          in (if \<not> truthy kf then Inr (kill_env, None)
              else case kf of PStr f \<Rightarrow> Inr (kill_env, Some f) | _ \<Rightarrow> Inl PolTypeError)
      | _ \<Rightarrow> Inl PolAttributeError)"

definition parse_policy_doc :: "(pyval \<Rightarrow> pystr) \<Rightarrow> pymap \<Rightarrow> policy_error + policy_data" where
  "parse_policy_doc rep doc =
     (let default = py_lower (py_str rep (dict_get_or doc ''default_action'' (PStr ''deny'')));
          act = (if default = ''allow'' then Patch else GuidanceOnly)
      in and_then (get_items doc ''deny'') (\<lambda>denies.
         and_then (load_deny rep denies []) (\<lambda>deny.
         and_then (get_items doc ''allow'') (\<lambda>allows.
         and_then (load_allow rep allows {}) (\<lambda>allow.
         and_then (get_items doc ''deny_paths'') (\<lambda>dps.
         and_then (get_items doc ''forbid_patch_paths'') (\<lambda>fps.
         and_then (load_kill_switch doc) (\<lambda>(kenv, kfile).
           Inr \<lparr>pd_deny = deny, pd_allow = allow, pd_deny_paths = map (py_str rep) dps,
                pd_forbid_paths = map (py_str rep) fps, pd_kill_env = kenv,
                pd_kill_file = kfile, pd_default = act\<rparr>))))))))"

definition parse_policy :: "(pyval \<Rightarrow> pystr) \<Rightarrow> json_file \<Rightarrow> policy_error + policy_data option" where
  "parse_policy rep f =
     (case f of
        Json v \<Rightarrow>
          (case py_or v (PDict []) of
             PDict doc \<Rightarrow> map_sum id Some (parse_policy_doc rep doc)
           | _ \<Rightarrow> Inl PolAttributeError)
      | _ \<Rightarrow> Inr None)"

section \<open>The decision\<close>

definition true_words :: "pystr list" where
  "true_words = [''1'', ''true'', ''yes'', ''on'']"

text \<open>What the gate reads of its surroundings on every call.\<close>

record gate_world =
  gw_env :: "pystr \<Rightarrow> pystr option"
  gw_exists :: "pystr \<Rightarrow> bool"

text \<open>The kill switch, checked on every call.\<close>

definition kill_env_on :: "gate_world \<Rightarrow> policy_data \<Rightarrow> policy_error + bool" where
  "kill_env_on w d =
     (case pd_kill_env d of
        None \<Rightarrow> Inr False
      | Some (PStr name) \<Rightarrow>
          Inr (case gw_env w name of
                 Some v \<Rightarrow> py_lower (py_strip v) \<in> set true_words | None \<Rightarrow> False)
      | Some _ \<Rightarrow> Inl PolTypeError)"

definition kill_file_on :: "gate_world \<Rightarrow> policy_data \<Rightarrow> bool" where
  "kill_file_on w d = (case pd_kill_file d of Some f \<Rightarrow> gw_exists w f | None \<Rightarrow> False)"

text \<open>The lists and the default, for a normalised id.\<close>

definition decide_cwe :: "policy_data \<Rightarrow> pystr \<Rightarrow> pystr \<Rightarrow> decision" where
  "decide_cwe d cwe file_path =
     (case dict_get (pd_deny d) cwe of
        Some reason \<Rightarrow>
          \<lparr>dc_action = GuidanceOnly, dc_reason = reason, dc_rule = Some (''deny:'' @ cwe)\<rparr>
      | None \<Rightarrow>
          (case find (glob_match (to_slash file_path)) (pd_deny_paths d) of
             Some pat \<Rightarrow>
               \<lparr>dc_action = GuidanceOnly, dc_reason = PStr (''sensitive_path:'' @ pat),
                dc_rule = Some (''deny_path:'' @ pat)\<rparr>
           | None \<Rightarrow>
               if cwe \<in> pd_allow d
               then \<lparr>dc_action = Patch, dc_reason = PStr ''allow_list'',
                     dc_rule = Some (''allow:'' @ cwe)\<rparr>
               else decide_as (pd_default d) ''default_action''))"

definition decide ::
    "(pyval \<Rightarrow> pystr) \<Rightarrow> gate_world \<Rightarrow> policy_data option \<Rightarrow> pyval \<Rightarrow> pystr \<Rightarrow> policy_error + decision" where
  "decide rep w pol cwe_id file_path =
     (case pol of
        None \<Rightarrow> Inr fail_closed
      | Some d \<Rightarrow>
          and_then (kill_env_on w d) (\<lambda>killed.
            Inr (if killed then decide_as GuidanceOnly ''kill_switch_env''
                 else if kill_file_on w d then decide_as GuidanceOnly ''kill_switch_file''
                 else case norm_cwe rep cwe_id of
                        None \<Rightarrow> decide_as GuidanceOnly ''unmapped_cwe''
                      | Some cwe \<Rightarrow> decide_cwe d cwe file_path)))"

section \<open>Changed files\<close>

definition gate_deny_paths :: "policy_data option \<Rightarrow> pystr list" where
  "gate_deny_paths pol = (case pol of Some d \<Rightarrow> pd_deny_paths d | None \<Rightarrow> [])"

definition gate_forbid_paths :: "policy_data option \<Rightarrow> pystr list" where
  "gate_forbid_paths pol = (case pol of Some d \<Rightarrow> pd_forbid_paths d | None \<Rightarrow> [])"

definition patch_touches_forbidden :: "policy_data option \<Rightarrow> pystr list \<Rightarrow> pystr option" where
  "patch_touches_forbidden pol files = first_match files (gate_forbid_paths pol)"

definition changed_paths_hit_deny :: "policy_data option \<Rightarrow> pystr list \<Rightarrow> pystr option" where
  "changed_paths_hit_deny pol files = first_match files (gate_deny_paths pol)"

text \<open>A pattern counts as a hit when it is truthy, so an empty pattern never does.\<close>

definition hit :: "pystr \<Rightarrow> pystr list \<Rightarrow> bool" where
  "hit f pats \<longleftrightarrow> (case first_match [f] pats of Some p \<Rightarrow> p \<noteq> [] | None \<Rightarrow> False)"

definition forbidden_files :: "policy_data option \<Rightarrow> pystr list \<Rightarrow> pystr list" where
  "forbidden_files pol changed =
     filter (\<lambda>f. let nf = to_slash f in
        nf \<noteq> [] \<and> (hit nf (gate_forbid_paths pol) \<or> hit nf (gate_deny_paths pol))) changed"

definition cap_verdict :: "action \<Rightarrow> bool \<Rightarrow> pystr" where
  "cap_verdict a all_gates_passed =
     (if a = GuidanceOnly then ''REJECT'' else if all_gates_passed then ''ACCEPT'' else ''REJECT'')"

end
