(* ===== verification/PolicyGateProps.thy ===== *)
theory PolicyGateProps
  imports PolicyGate
begin

text \<open>
  What the policy gate guarantees: the exact conditions under which a patch may be
  generated, that the parsed deny map is the written one with its descendants, and that
  reverting the forbidden files leaves a change set the gate accepts.
\<close>

section \<open>Globs\<close>

lemma glob_tokens_Star [simp]: "glob_tokens (CHR ''*'' # p) = Star # glob_tokens p"
  by simp

definition plain :: "pystr \<Rightarrow> bool" where
  "plain s \<longleftrightarrow> list_all (\<lambda>c. c \<notin> {CHR ''*'', CHR ''?'', CHR ''[''}) s"

lemma plain_tokens: "plain s \<Longrightarrow> glob_tokens s = map Lit s"
  using glob_tokens_plain [of s "[]"] by (simp add: plain_def)

lemma tokens_match_Star_Star: "tokens_match (Star # Star # ts) s = tokens_match (Star # ts) s"
proof
  show "tokens_match (Star # Star # ts) s \<Longrightarrow> tokens_match (Star # ts) s"
    unfolding tokens_match_Star by (metis append.assoc)
  show "tokens_match (Star # ts) s \<Longrightarrow> tokens_match (Star # Star # ts) s"
    unfolding tokens_match_Star [of "Star # ts"] by (metis append_Nil)
qed

text \<open>
  The glob \<open>**/n\<close> of a plain name \<open>n\<close> matches the paths whose last component is \<open>n\<close>,
  at any depth, the root included, and nothing else.
\<close>

lemma glob_match_anywhere:
  assumes "plain n"
  shows "glob_match path (''**/'' @ n) \<longleftrightarrow> path = n \<or> suffix (CHR ''/'' # n) path"
proof -
  have "glob_tokens (''**/'' @ n) = Star # Star # map Lit (CHR ''/'' # n)"
    using plain_tokens [of "CHR ''/'' # n"] assms by (simp add: plain_def)
  then have "fnmatch path (''**/'' @ n) \<longleftrightarrow> tokens_match (Star # map Lit (CHR ''/'' # n)) path"
    by (simp only: fnmatch_def tokens_match_Star_Star)
  also have "\<dots> \<longleftrightarrow> suffix (CHR ''/'' # n) path"
    unfolding tokens_match_Star tokens_match_lits suffix_def by auto
  finally have "fnmatch path (''**/'' @ n) \<longleftrightarrow> suffix (CHR ''/'' # n) path" .
  moreover have "fnmatch path n \<longleftrightarrow> path = n"
    by (simp add: fnmatch_def plain_tokens [OF assms] tokens_match_lits)
  ultimately show ?thesis by (auto simp: glob_match_def)
qed

lemma glob_match_anywhere_witness:
  "glob_match ''setup.py'' (''**/'' @ ''setup.py'') \<and> \<not> glob_match ''mysetup.py'' (''**/'' @ ''setup.py'')"
proof -
  have p: "plain ''setup.py''" by (simp add: plain_def)
  show ?thesis unfolding glob_match_anywhere [OF p] by (simp add: suffix_def Cons_eq_append_conv)
qed

text \<open>Python's \<open>*\<close> crosses \<open>/\<close>, unlike what the docstring of \<open>_glob_match\<close> says.\<close>

lemma fnmatch_star_crosses_slash: "fnmatch (a @ ''/'' @ b) ''*''"
  unfolding fnmatch_def by (simp add: tokens_match_Star)

section \<open>Normalised ids\<close>

lemma norm_cwe_form:
  assumes "norm_cwe rep raw = Some cwe"
  shows "\<exists>ds. cwe = ''CWE-'' @ ds \<and> py_isdigit ds"
  using assms by (auto simp: norm_cwe_def Let_def split: if_splits)

text \<open>Leading zeros survive normalisation, so two spellings of one id are two ids.\<close>

lemma norm_cwe_leading_zero:
  "norm_cwe rep (PStr ''CWE-089'') = Some ''CWE-089''" "norm_cwe rep (PStr ''CWE-89'') = Some ''CWE-89''"
  by (simp_all add: norm_cwe_def pystr_eval)

section \<open>The deny map\<close>

definition listed_denied :: "(pyval \<Rightarrow> pystr) \<Rightarrow> pyval list \<Rightarrow> pystr \<Rightarrow> bool" where
  "listed_denied rep es cwe \<longleftrightarrow>
     (\<exists>entry. PDict entry \<in> set es \<and>
        (\<exists>c. norm_cwe rep (py_get entry ''id'') = Some c \<and>
           (cwe = c \<or>
            (\<exists>children child. get_items entry ''descendants'' = Inr children \<and>
               child \<in> set children \<and> norm_cwe rep child = Some cwe))))"

lemma add_descendants_keys:
  "fst ` set (add_descendants rep cwe reason children deny) =
     fst ` set deny \<union> {c. \<exists>child \<in> set children. norm_cwe rep child = Some c}"
proof (induction children arbitrary: deny)
  case Nil
  then show ?case by (simp add: add_descendants_def)
next
  case (Cons x xs)
  have set: "fst ` set (dict_setdefault k v d) = insert k (fst ` set d)" for k :: pystr and v :: pyval and d
    by (auto simp: dict_setdefault_def dest: dict_get_Some_key split: option.splits)
  show ?case
    using Cons [of deny] Cons [of "dict_setdefault (the (norm_cwe rep x)) _ deny"]
    by (cases "norm_cwe rep x") (auto simp: add_descendants_def set)
qed

lemma load_deny_keys:
  assumes "load_deny rep es deny = Inr deny'"
  shows "fst ` set deny' = fst ` set deny \<union> {cwe. listed_denied rep es cwe}"
  using assms
proof (induction rep es deny arbitrary: deny' rule: load_deny.induct)
  case (1 rep deny)
  then show ?case by (simp add: listed_denied_def)
next
  case (2 rep entry es deny)
  have split: "listed_denied rep (PDict entry # es) cwe \<longleftrightarrow>
      listed_denied rep [PDict entry] cwe \<or> listed_denied rep es cwe" for cwe
    by (auto simp: listed_denied_def)
  show ?case
  proof (cases "norm_cwe rep (py_get entry ''id'')")
    case None
    then have "\<not> listed_denied rep [PDict entry] cwe" for cwe by (simp add: listed_denied_def)
    with 2 None split show ?thesis by simp
  next
    case (Some c)
    let ?reason = "dict_get_or entry ''reason'' (PStr ''policy_denied'')"
    from 2(3) Some obtain children where ch: "get_items entry ''descendants'' = Inr children"
      and ld: "load_deny rep es (add_descendants rep c ?reason children (dict_set c ?reason deny)) = Inr deny'"
      by (auto simp: Let_def)
    have "{cwe. listed_denied rep [PDict entry] cwe} =
        insert c {k. \<exists>child \<in> set children. norm_cwe rep child = Some k}"
      using Some ch by (auto simp: listed_denied_def)
    moreover have "fst ` set deny' = fst ` set (add_descendants rep c ?reason children (dict_set c ?reason deny))
        \<union> {cwe. listed_denied rep es cwe}"
      by (rule 2(2) [OF Some refl ld])
    ultimately show ?thesis
      by (auto simp: add_descendants_keys set_dict_keys_set split)
  qed
qed simp_all

lemma load_deny_keys_doc:
  assumes "parse_policy_doc rep doc = Inr d"
  obtains es where "get_items doc ''deny'' = Inr es"
    "\<And>cwe. dict_get (pd_deny d) cwe \<noteq> None \<longleftrightarrow> listed_denied rep es cwe"
proof -
  obtain es deny where es: "get_items doc ''deny'' = Inr es" "load_deny rep es [] = Inr deny"
    "pd_deny d = deny"
    using assms by (auto simp: parse_policy_doc_def Let_def)
  have "dict_get deny cwe \<noteq> None \<longleftrightarrow> cwe \<in> fst ` set deny" for cwe
    by (metis map_of_eq_None_iff)
  with load_deny_keys [OF es(2)] es that show ?thesis by simp
qed

section \<open>The decision\<close>

text \<open>
  C6.  A finding may be patched exactly when a policy is loaded, no kill switch is on, its
  id normalises, the id is not denied, no sensitive path matches, and the id is allowed or
  the default is to patch.
\<close>

theorem patch_permitted_iff:
  "(\<exists>dec. decide rep w pol raw path = Inr dec \<and> may_generate_patch dec) \<longleftrightarrow>
     (\<exists>d cwe. pol = Some d \<and> kill_env_on w d = Inr False \<and> \<not> kill_file_on w d \<and>
        norm_cwe rep raw = Some cwe \<and> dict_get (pd_deny d) cwe = None \<and>
        (\<forall>pat \<in> set (pd_deny_paths d). \<not> glob_match (to_slash path) pat) \<and>
        (cwe \<in> pd_allow d \<or> pd_default d = Patch))"
proof (cases pol)
  case None
  then show ?thesis by (simp add: decide_def fail_closed_def decide_as_def may_generate_patch_def)
next
  case (Some d)
  show ?thesis
  proof (cases "kill_env_on w d")
    case (Inl e)
    with Some show ?thesis by (simp add: decide_def)
  next
    case (Inr killed)
    have "may_generate_patch (decide_cwe d cwe path) \<longleftrightarrow>
        dict_get (pd_deny d) cwe = None \<and>
        (\<forall>pat \<in> set (pd_deny_paths d). \<not> glob_match (to_slash path) pat) \<and>
        (cwe \<in> pd_allow d \<or> pd_default d = Patch)" for cwe
      by (auto simp: decide_cwe_def decide_as_def may_generate_patch_def find_None_iff find_Some_iff
          split: option.splits)
    with Some Inr show ?thesis
      by (auto simp: decide_def decide_as_def may_generate_patch_def split: option.splits)
  qed
qed

definition quiet_world :: gate_world where
  "quiet_world = \<lparr>gw_env = (\<lambda>_. None), gw_exists = (\<lambda>_. False)\<rparr>"

definition xss_policy :: policy_data where
  "xss_policy =
     \<lparr>pd_deny = [(''CWE-287'', PStr ''auth'')], pd_allow = {''CWE-79''}, pd_deny_paths = [''**/auth/**''],
      pd_forbid_paths = [''**/setup.py''], pd_kill_env = None, pd_kill_file = None,
      pd_default = GuidanceOnly\<rparr>"

lemma patch_permitted_iff_witness:
  "\<exists>dec. decide (\<lambda>_. []) quiet_world (Some xss_policy)
      (PInt 79) ''views/page.py'' = Inr dec \<and> may_generate_patch dec"
proof -
  have "norm_cwe (\<lambda>_. []) (PInt 79) = Some ''CWE-79''" by code_simp
  moreover have "\<not> glob_match (to_slash ''views/page.py'') ''**/auth/**''" by code_simp
  ultimately show ?thesis
    unfolding patch_permitted_iff by (simp add: xss_policy_def kill_env_on_def kill_file_on_def quiet_world_def)
qed

lemma denied_guidance:
  assumes "parse_policy rep (Json (PDict doc)) = Inr (Some d)"
    and "get_items doc ''deny'' = Inr es" "listed_denied rep es cwe"
    and "norm_cwe rep raw = Some cwe"
    and "decide rep w (Some d) raw path = Inr dec"
  shows "dc_action dec = GuidanceOnly"
proof -
  have "parse_policy_doc rep doc = Inr d \<or> doc = []"
    using assms(1) by (auto simp: parse_policy_def py_or_def split: if_splits) (cases "parse_policy_doc rep doc"; simp)
  moreover have "doc \<noteq> []"
    using assms(2,3) by (auto simp: get_items_def py_or_def dict_get_or_def listed_denied_def)
  ultimately have "parse_policy_doc rep doc = Inr d" by simp
  then have "dict_get (pd_deny d) cwe \<noteq> None"
    using load_deny_keys_doc assms(2,3) by (metis sum.inject(2))
  with assms(4,5) show ?thesis
    by (auto simp: decide_def decide_cwe_def decide_as_def split: option.splits if_splits)
qed

text \<open>
  The deny list is absolute: an id that the policy file lists under \<open>deny\<close>, or as a
  descendant of such an id, is never patched, whatever the allow list, the default and the
  other entries say, and on every call.
\<close>

lemma denied_never_patched:
  assumes "parse_policy rep (Json (PDict doc)) = Inr (Some d)"
    and "get_items doc ''deny'' = Inr es" "listed_denied rep es cwe"
    and "norm_cwe rep raw = Some cwe"
    and "decide rep w (Some d) raw path = Inr dec"
  shows "dc_action dec = GuidanceOnly"
  by (rule denied_guidance [OF assms])

definition sample_policy :: pymap where
  "sample_policy =
     [(''default_action'', PStr ''allow''),
      (''deny'', PList [PDict [(''id'', PStr ''cwe-287''), (''descendants'', PList [PInt 306])]]),
      (''allow'', PList [PDict [(''id'', PInt 306)]])]"

lemma sample_policy_denies:
  "get_items sample_policy ''deny'' =
     Inr [PDict [(''id'', PStr ''cwe-287''), (''descendants'', PList [PInt 306])]]"
  "listed_denied (\<lambda>_. []) [PDict [(''id'', PStr ''cwe-287''), (''descendants'', PList [PInt 306])]] ''CWE-306''"
proof -
  show "get_items sample_policy ''deny'' =
     Inr [PDict [(''id'', PStr ''cwe-287''), (''descendants'', PList [PInt 306])]]"
    by (simp add: sample_policy_def get_items_def dict_get_or_def py_or_def or_raise_def)
  have "norm_cwe (\<lambda>_. []) (PInt 306) = Some ''CWE-306''"
    "norm_cwe (\<lambda>_. []) (PStr ''cwe-287'') = Some ''CWE-287''" by code_simp+
  then show "listed_denied (\<lambda>_. []) [PDict [(''id'', PStr ''cwe-287''), (''descendants'', PList [PInt 306])]] ''CWE-306''"
    by (simp add: listed_denied_def get_items_def dict_get_or_def py_or_def or_raise_def)
qed

lemma sample_policy_decides:
  "\<exists>d dec. parse_policy (\<lambda>_. []) (Json (PDict sample_policy)) = Inr (Some d) \<and>
     decide (\<lambda>_. []) quiet_world (Some d) raw path = Inr dec"
proof -
  have "\<not> isl (parse_policy (\<lambda>_. []) (Json (PDict sample_policy))) \<and>
      projr (parse_policy (\<lambda>_. []) (Json (PDict sample_policy))) \<noteq> None" by code_simp
  then obtain d where p: "parse_policy (\<lambda>_. []) (Json (PDict sample_policy)) = Inr (Some d)"
    by (cases "parse_policy (\<lambda>_. []) (Json (PDict sample_policy))") auto
  have "kill_env_on quiet_world (the (projr (parse_policy (\<lambda>_. []) (Json (PDict sample_policy))))) = Inr False"
    by code_simp
  then have "kill_env_on quiet_world d = Inr False" by (simp add: p)
  then have "\<exists>dec. decide (\<lambda>_. []) quiet_world (Some d) raw path = Inr dec"
    by (simp only: decide_def option.case and_then_simps) blast
  with p show ?thesis by blast
qed

lemma denied_never_patched_witness:
  "\<exists>d dec. decide (\<lambda>_. []) quiet_world (Some d) (PStr ''306'') ''a.py'' = Inr dec \<and>
     dc_action dec = GuidanceOnly"
proof -
  obtain d dec where d: "parse_policy (\<lambda>_. []) (Json (PDict sample_policy)) = Inr (Some d)"
    "decide (\<lambda>_. []) quiet_world (Some d) (PStr ''306'') ''a.py'' = Inr dec"
    using sample_policy_decides by blast
  have n: "norm_cwe (\<lambda>_. []) (PStr ''306'') = Some ''CWE-306''" by code_simp
  from denied_never_patched [OF d(1) sample_policy_denies n d(2)] d(2) show ?thesis by blast
qed

section \<open>Reverting forbidden files\<close>

lemma hit_iff: "hit f pats \<longleftrightarrow> (\<exists>p. first_match [f] pats = Some p \<and> p \<noteq> [])"
  by (auto simp: hit_def split: option.splits)

lemma empty_pattern: "s \<noteq> [] \<Longrightarrow> \<not> glob_match s []"
  by (simp add: glob_match_def fnmatch_def)

lemma hit_first_match: "hit (to_slash f) pats \<longleftrightarrow> first_match [f] pats \<noteq> None"
  unfolding hit_iff using empty_pattern
  by (auto simp: Let_def find_Some_iff split: option.splits if_splits)

lemma forbidden_files_permitted:
  "set (forbidden_files pol changed) =
     {f \<in> set changed.
        \<not> (patch_touches_forbidden pol [f] = None \<and> changed_paths_hit_deny pol [f] = None)}"
  by (auto simp: forbidden_files_def Let_def hit_first_match patch_touches_forbidden_def
      changed_paths_hit_deny_def simp del: first_match.simps)
    (auto split: if_splits)

text \<open>
  The files to revert are exactly the changed files that hit a build-infrastructure or
  sensitive-path pattern, and once they are reverted the remaining change set passes both
  checks.
\<close>

lemma forbidden_files_exact:
  "set (forbidden_files pol changed) =
     {f \<in> set changed.
        \<not> (patch_touches_forbidden pol [f] = None \<and> changed_paths_hit_deny pol [f] = None)} \<and>
   (let kept = filter (\<lambda>f. f \<notin> set (forbidden_files pol changed)) changed in
      patch_touches_forbidden pol kept = None \<and> changed_paths_hit_deny pol kept = None)"
proof -
  note e = forbidden_files_permitted [of pol changed]
  have none: "first_match fs pats = None \<longleftrightarrow> (\<forall>f \<in> set fs. first_match [f] pats = None)" for fs pats
    unfolding first_match_None by simp
  let ?kept = "filter (\<lambda>f. f \<notin> set (forbidden_files pol changed)) changed"
  have "\<forall>f \<in> set ?kept. patch_touches_forbidden pol [f] = None \<and> changed_paths_hit_deny pol [f] = None"
    using e by auto
  then have "patch_touches_forbidden pol ?kept = None" "changed_paths_hit_deny pol ?kept = None"
    unfolding patch_touches_forbidden_def changed_paths_hit_deny_def none [of ?kept] by blast+
  with e show ?thesis by (simp only: Let_def)
qed

end
