(* ===== verification/RepoFs.thy ===== *)
theory RepoFs
  imports Fnmatch
begin

text \<open>
  The file system under the remediation agent and the code that confines it to the
  repository: \<open>remediation_agent/artifacts/diff/paths.py\<close>, \<open>snapshot.py\<close>, the path
  handling of \<open>gitcapture.py\<close>, and \<open>remediation_agent/policy/revert.py\<close>.

  A file system maps absolute paths, lists of components, to files, directories and
  symbolic links.  \<open>resolve\<close> is \<open>Path.resolve()\<close> (not strict); a loop of links has no
  result, for which CPython up to 3.12 raises a \<open>RuntimeError\<close> that the callers, who catch
  \<open>ValueError\<close> and \<open>OSError\<close>, let through.  Names are POSIX paths without NUL.
\<close>

section \<open>The file system\<close>

type_synonym path = "pystr list"

datatype node = File pystr | Dir | Link pystr

type_synonym fs = "path \<Rightarrow> node option"

definition components :: "pystr \<Rightarrow> pystr list" where
  "components s = filter (\<lambda>c. c \<noteq> [] \<and> c \<noteq> ''.'') (split_on (CHR ''/'') s)"

definition is_absolute :: "pystr \<Rightarrow> bool" where
  "is_absolute s \<longleftrightarrow> prefix ''/'' s"

partial_function (option) resolve_from :: "fs \<Rightarrow> path \<Rightarrow> pystr list \<Rightarrow> path option" where
  "resolve_from fs cur cs =
     (case cs of
        [] \<Rightarrow> Some cur
      | c # rest \<Rightarrow>
          if c = ''..'' then resolve_from fs (butlast cur) rest
          else case fs (cur @ [c]) of
            Some (Link t) \<Rightarrow>
              resolve_from fs (if is_absolute t then [] else cur) (components t @ rest)
          | _ \<Rightarrow> resolve_from fs (cur @ [c]) rest)"

declare resolve_from.simps [code]

definition resolve :: "fs \<Rightarrow> path \<Rightarrow> path option" where
  "resolve fs p = resolve_from fs [] p"

text \<open>\<open>p.exists()\<close> follows links, \<open>p.is_file()\<close> too.\<close>

definition fs_exists :: "fs \<Rightarrow> path \<Rightarrow> bool" where
  "fs_exists fs p = (case resolve fs p of Some q \<Rightarrow> fs q \<noteq> None | None \<Rightarrow> False)"

definition fs_read :: "fs \<Rightarrow> path \<Rightarrow> pystr option" where
  "fs_read fs p =
     (case resolve fs p of
        Some q \<Rightarrow> (case fs q of Some (File s) \<Rightarrow> Some s | _ \<Rightarrow> None)
      | None \<Rightarrow> None)"

text \<open>\<open>write_text\<close> writes through links; \<open>None\<close> is an \<open>OSError\<close>.\<close>

definition fs_write :: "fs \<Rightarrow> path \<Rightarrow> pystr \<Rightarrow> fs option" where
  "fs_write fs p s =
     (case resolve fs p of
        None \<Rightarrow> None
      | Some q \<Rightarrow>
          if q \<noteq> [] \<and> fs (butlast q) = Some Dir \<and> fs q \<noteq> Some Dir then Some (fs(q \<mapsto> File s)) else None)"

text \<open>\<open>unlink\<close> removes the entry itself: it follows the links of the parent only.\<close>

definition fs_unlink :: "fs \<Rightarrow> path \<Rightarrow> fs option" where
  "fs_unlink fs p =
     (if p = [] \<or> last p = ''..'' then None
      else case resolve fs (butlast p) of
        None \<Rightarrow> None
      | Some d \<Rightarrow>
          (case fs (d @ [last p]) of
             None \<Rightarrow> None
           | Some Dir \<Rightarrow> None
           | Some _ \<Rightarrow> Some (fs(d @ [last p] := None))))"

section \<open>References\<close>

text \<open>
  The regular expression \<open>:\d+(?:-\d+)?$\<close>, replaced by nothing: a trailing location suffix.
\<close>

definition strip_digits :: "pystr \<Rightarrow> pystr option" where
  "strip_digits r =
     (let d = takeWhile py_digit r in if d = [] then None else Some (dropWhile py_digit r))"

text \<open>On the reversed text: \<open>digits :\<close>, or \<open>digits - digits :\<close>.\<close>

definition drop_location :: "pystr \<Rightarrow> pystr" where
  "drop_location s =
     (case strip_digits (rev s) of
        Some (c # r) \<Rightarrow>
          if c = CHR '':'' then rev r
          else if c = CHR ''-'' then
            (case strip_digits r of
               Some (c' # r') \<Rightarrow> if c' = CHR '':'' then rev r' else s
             | _ \<Rightarrow> s)
          else s
      | _ \<Rightarrow> s)"

definition norm_path :: "pystr \<Rightarrow> pystr" where
  "norm_path ref = (let r = py_strip ref in if r = [] then [] else drop_location r)"

definition ascii_letter :: "char \<Rightarrow> bool" where
  "ascii_letter c \<longleftrightarrow>
     (let n = (of_char c :: nat) in 65 \<le> n \<and> n \<le> 90 \<or> 97 \<le> n \<and> n \<le> 122)"

definition unc_or_drive :: "pystr \<Rightarrow> bool" where
  "unc_or_drive s \<longleftrightarrow>
     (case s of
        c # d # _ \<Rightarrow>
          c \<in> {CHR 0x5C, CHR ''/''} \<and> d \<in> {CHR 0x5C, CHR ''/''} \<or> ascii_letter c \<and> d = CHR '':''
      | _ \<Rightarrow> False)"

datatype path_error = SymlinkLoop

text \<open>\<open>_safe_repo_path\<close>: \<open>Inr None\<close> is a refusal, \<open>Inl\<close> the exception that escapes.\<close>

definition safe_repo_path :: "fs \<Rightarrow> path \<Rightarrow> pystr \<Rightarrow> path_error + path option" where
  "safe_repo_path fs repo ref =
     (let rel = norm_path ref in
      if rel = [] \<or> is_absolute rel \<or> unc_or_drive rel then Inr None
      else and_then (or_raise (resolve fs (repo @ components rel)) SymlinkLoop) (\<lambda>target.
           and_then (or_raise (resolve fs repo) SymlinkLoop) (\<lambda>root.
             Inr (if prefix root target then Some target else None))))"

definition within_repo :: "fs \<Rightarrow> path \<Rightarrow> path \<Rightarrow> path_error + bool" where
  "within_repo fs repo target =
     and_then (or_raise (resolve fs target) SymlinkLoop) (\<lambda>t.
     and_then (or_raise (resolve fs repo) SymlinkLoop) (\<lambda>root. Inr (prefix root t)))"

section \<open>Snapshots\<close>

text \<open>
  The contents of each reference, \<open>None\<close> for what is not a readable file.  A text that is
  not UTF-8 is not modelled.
\<close>

fun snapshot_loop ::
    "fs \<Rightarrow> path \<Rightarrow> (pystr, pystr option) pydict \<Rightarrow> pystr list \<Rightarrow> path_error + (pystr, pystr option) pydict" where
  "snapshot_loop fs repo snap [] = Inr snap"
| "snapshot_loop fs repo snap (f # files) =
     (let rel = norm_path f in
      if rel = [] \<or> rel \<in> set (dict_keys snap) then snapshot_loop fs repo snap files
      else and_then (safe_repo_path fs repo f) (\<lambda>sp.
        case sp of
          None \<Rightarrow> snapshot_loop fs repo snap files
        | Some p \<Rightarrow> snapshot_loop fs repo (dict_set rel (fs_read fs p) snap) files))"

definition snapshot_files ::
    "fs \<Rightarrow> path \<Rightarrow> pystr list \<Rightarrow> path_error + (pystr, pystr option) pydict" where
  "snapshot_files fs repo files = snapshot_loop fs repo [] files"

section \<open>Changed files of a git work tree\<close>

text \<open>
  The NUL-separated records of \<open>git status --porcelain -z\<close>; a rename or copy record is
  followed by the original path.
\<close>

fun parse_porcelain :: "pystr list \<Rightarrow> pystr list \<Rightarrow> pystr list" where
  "parse_porcelain files [] = files"
| "parse_porcelain files (r # rest) =
     (if r = [] then parse_porcelain files rest
      else
        let p = (if 3 < length r then drop 3 r else []);
            files1 = (if p \<noteq> [] then add_new p files else files)
        in if CHR ''R'' \<in> set (take 2 r) \<or> CHR ''C'' \<in> set (take 2 r)
           then (case rest of
                   [] \<Rightarrow> files1
                 | o' # rest' \<Rightarrow> parse_porcelain (if o' \<noteq> [] then add_new o' files1 else files1) rest')
           else parse_porcelain files1 rest)"

text \<open>\<open>None\<close>: git is missing, fails, or the directory is not a work tree.\<close>

definition changed_files_whole_tree :: "pystr option \<Rightarrow> pystr list" where
  "changed_files_whole_tree status =
     (case status of None \<Rightarrow> [] | Some out \<Rightarrow> parse_porcelain [] (split_on (CHR 0x00) out))"

text \<open>The pathspecs \<open>capture_git_diff\<close> hands to git.\<close>

fun diff_pathspecs :: "fs \<Rightarrow> path \<Rightarrow> path \<Rightarrow> pystr list \<Rightarrow> path_error + path list" where
  "diff_pathspecs fs repo root [] = Inr []"
| "diff_pathspecs fs repo root (f # files) =
     and_then (safe_repo_path fs repo f) (\<lambda>sp.
     and_then (diff_pathspecs fs repo root files) (\<lambda>ps.
       Inr (case sp of None \<Rightarrow> ps | Some q \<Rightarrow> drop (length root) q # ps)))"

section \<open>Reverting files\<close>

text \<open>
  What git answers: whether the target is a work tree, whether a path is tracked, and what
  \<open>git checkout -- path\<close> does to the file system.
\<close>

record git_world =
  git_is_worktree :: bool
  git_tracked :: "pystr \<Rightarrow> bool"
  git_checkout :: "pystr \<Rightarrow> fs \<Rightarrow> fs"

text \<open>One file; the boolean says whether it is recorded as reverted.\<close>

definition revert_one ::
    "git_world \<Rightarrow> path \<Rightarrow> (pystr, pystr option) pydict \<Rightarrow> pystr \<Rightarrow> fs \<Rightarrow> fs \<times> bool" where
  "revert_one git repo snap rel fs =
     (let p = repo @ components rel in
      case dict_get snap rel of
        Some (Some old) \<Rightarrow>
          (case fs_write fs p old of Some fs' \<Rightarrow> (fs', True) | None \<Rightarrow> (fs, False))
      | Some None \<Rightarrow>
          if fs_exists fs p
          then (case fs_unlink fs p of Some fs' \<Rightarrow> (fs', True) | None \<Rightarrow> (fs, False))
          else (fs, True)
      | None \<Rightarrow>
          if \<not> git_is_worktree git then (fs, False)
          else if git_tracked git rel then (git_checkout git rel fs, True)
          else if fs_exists fs p
          then (case fs_unlink fs p of Some fs' \<Rightarrow> (fs', True) | None \<Rightarrow> (fs, False))
          else (fs, True))"

fun revert_files ::
    "git_world \<Rightarrow> path \<Rightarrow> (pystr, pystr option) pydict \<Rightarrow> pystr list \<Rightarrow> fs \<Rightarrow> path_error + fs \<times> pystr list" where
  "revert_files git repo snap [] fs = Inr (fs, [])"
| "revert_files git repo snap (raw # files) fs =
     (let rel = norm_path raw in
      if rel = [] \<or> is_absolute rel then revert_files git repo snap files fs
      else and_then (within_repo fs repo (repo @ components rel)) (\<lambda>inside.
        if \<not> inside then revert_files git repo snap files fs
        else
          let (fs1, ok) = revert_one git repo snap rel fs in
          and_then (revert_files git repo snap files fs1) (\<lambda>(fs2, done).
            Inr (fs2, (if ok then rel # done else done)))))"

section \<open>Forbidden files of a tree without git\<close>

definition worktree_scan_max :: nat where "worktree_scan_max = 20000"

text \<open>\<open>tree\<close> lists the repo-relative paths of the files in the order of the walk.\<close>

definition worktree_forbidden_matches :: "pystr list \<Rightarrow> pystr list \<Rightarrow> pystr list" where
  "worktree_forbidden_matches tree patterns =
     (if patterns = [] then []
      else filter (\<lambda>rel. list_ex (glob_match rel) patterns) (take worktree_scan_max tree))"

end
