(* ===== verification/RepoFsProps.thy ===== *)
theory RepoFsProps
  imports RepoFs
begin

text \<open>
  Confinement: what the snapshot reads and what the revert touches, on any file system with
  any symbolic links, and the parsing of git's status records.
\<close>

section \<open>Resolved paths\<close>

definition not_link :: "fs \<Rightarrow> path \<Rightarrow> bool" where
  "not_link fs p \<longleftrightarrow> (\<forall>t. fs p \<noteq> Some (Link t))"

definition canonical_path :: "fs \<Rightarrow> path \<Rightarrow> bool" where
  "canonical_path fs p \<longleftrightarrow>
     ''..'' \<notin> set p \<and> (\<forall>n. 0 < n \<longrightarrow> n \<le> length p \<longrightarrow> not_link fs (take n p))"

lemma canonical_Nil [simp]: "canonical_path fs []"
  by (simp add: canonical_path_def)

lemma canonical_butlast: "canonical_path fs p \<Longrightarrow> canonical_path fs (butlast p)"
  by (auto simp: canonical_path_def take_butlast dest: in_set_butlastD)

lemma canonical_snoc:
  "canonical_path fs (p @ [c]) \<longleftrightarrow> canonical_path fs p \<and> c \<noteq> ''..'' \<and> not_link fs (p @ [c])"
proof
  assume a: "canonical_path fs (p @ [c])"
  then have "not_link fs (take n p)" if "0 < n" "n \<le> length p" for n
    using that by (auto simp: canonical_path_def dest: spec [of _ n])
  moreover have "not_link fs (p @ [c])"
    using a by (auto simp: canonical_path_def dest: spec [of _ "Suc (length p)"])
  ultimately show "canonical_path fs p \<and> c \<noteq> ''..'' \<and> not_link fs (p @ [c])"
    using a by (auto simp: canonical_path_def)
next
  assume a: "canonical_path fs p \<and> c \<noteq> ''..'' \<and> not_link fs (p @ [c])"
  have "not_link fs (take n (p @ [c]))" if "0 < n" "n \<le> Suc (length p)" for n
    using a that by (cases "n = Suc (length p)") (auto simp: canonical_path_def)
  with a show "canonical_path fs (p @ [c])" by (auto simp: canonical_path_def)
qed

text \<open>One step of the resolution, as the induction rule of \<open>resolve_from\<close> presents it.\<close>

lemma resolve_step_cases:
  assumes "(case cs of
        [] \<Rightarrow> Some cur
      | c # rest \<Rightarrow>
          if c = ''..'' then f fs (butlast cur) rest
          else case fs (cur @ [c]) of
            Some (Link t) \<Rightarrow> f fs (if is_absolute t then [] else cur) (components t @ rest)
          | _ \<Rightarrow> f fs (cur @ [c]) rest) = Some (r :: path)"
  obtains "cs = []" "r = cur"
  | rest where "cs = ''..'' # rest" "f fs (butlast cur) rest = Some r"
  | c rest t where "cs = c # rest" "c \<noteq> ''..''" "fs (cur @ [c]) = Some (Link t)"
      "f fs (if is_absolute t then [] else cur) (components t @ rest) = Some r"
  | c rest where "cs = c # rest" "c \<noteq> ''..''" "not_link fs (cur @ [c])" "f fs (cur @ [c]) rest = Some r"
proof (cases cs)
  case Nil
  with assms that(1) show ?thesis by simp
next
  case (Cons c rest)
  show ?thesis
  proof (cases "c = ''..''")
    case True
    with assms Cons that(2) show ?thesis by simp
  next
    case False
    show ?thesis
    proof (cases "\<exists>t. fs (cur @ [c]) = Some (Link t)")
      case True
      with assms Cons False that(3) show ?thesis by auto
    next
      case nl: False
      with assms Cons False have "f fs (cur @ [c]) rest = Some r"
        by (auto split: option.splits node.splits)
      with Cons False nl that(4) show ?thesis by (auto simp: not_link_def)
    qed
  qed
qed

lemma resolve_from_Nil [simp]: "resolve_from fs cur [] = Some cur"
  by (simp add: resolve_from.simps)

lemma resolve_from_dotdot: "resolve_from fs cur (''..'' # rest) = resolve_from fs (butlast cur) rest"
  by (subst resolve_from.simps) simp

lemma resolve_from_link:
  "c \<noteq> ''..'' \<Longrightarrow> fs (cur @ [c]) = Some (Link t) \<Longrightarrow>
     resolve_from fs cur (c # rest) =
       resolve_from fs (if is_absolute t then [] else cur) (components t @ rest)"
  by (subst resolve_from.simps) simp

lemma resolve_from_plain:
  "c \<noteq> ''..'' \<Longrightarrow> not_link fs (cur @ [c]) \<Longrightarrow>
     resolve_from fs cur (c # rest) = resolve_from fs (cur @ [c]) rest"
  by (subst resolve_from.simps) (auto simp: not_link_def split: option.splits node.splits)

lemma resolve_induct [consumes 1, case_names nil dotdot link plain]:
  assumes "resolve_from fs cur cs = Some r"
    and nil: "\<And>cur. P cur [] cur"
    and dotdot: "\<And>cur rest r. resolve_from fs (butlast cur) rest = Some r \<Longrightarrow>
      P (butlast cur) rest r \<Longrightarrow> P cur (''..'' # rest) r"
    and link: "\<And>cur c rest t r. c \<noteq> ''..'' \<Longrightarrow> fs (cur @ [c]) = Some (Link t) \<Longrightarrow>
      resolve_from fs (if is_absolute t then [] else cur) (components t @ rest) = Some r \<Longrightarrow>
      P (if is_absolute t then [] else cur) (components t @ rest) r \<Longrightarrow> P cur (c # rest) r"
    and plain: "\<And>cur c rest r. c \<noteq> ''..'' \<Longrightarrow> not_link fs (cur @ [c]) \<Longrightarrow>
      resolve_from fs (cur @ [c]) rest = Some r \<Longrightarrow> P (cur @ [c]) rest r \<Longrightarrow> P cur (c # rest) r"
  shows "P cur cs r"
proof -
  have "fs' = fs \<longrightarrow> resolve_from fs' cur cs = Some r \<and> P cur cs r"
    if "resolve_from fs' cur cs = Some r" for fs' cur cs r
  proof (rule resolve_from.raw_induct [OF _ that,
        of "\<lambda>fs' cur cs r. fs' = fs \<longrightarrow> resolve_from fs' cur cs = Some r \<and> P cur cs r"], rule impI)
    fix f fs' cur cs r
    assume IH: "\<And>fs' cur cs r. f fs' cur cs = Some r \<Longrightarrow>
        fs' = fs \<longrightarrow> resolve_from fs' cur cs = Some r \<and> P cur cs r"
      and eq: "(case cs of
        [] \<Rightarrow> Some cur
      | c # rest \<Rightarrow>
          if c = ''..'' then f fs' (butlast cur) rest
          else case fs' (cur @ [c]) of
            Some (Link t) \<Rightarrow> f fs' (if is_absolute t then [] else cur) (components t @ rest)
          | _ \<Rightarrow> f fs' (cur @ [c]) rest) = Some r"
      and fs: "fs' = fs"
    from eq [unfolded fs] show "resolve_from fs' cur cs = Some r \<and> P cur cs r"
    proof (cases rule: resolve_step_cases)
      case 1
      then show ?thesis using nil by simp
    next
      case (2 rest)
      with IH [OF 2(2)] dotdot show ?thesis by (simp add: resolve_from_dotdot fs)
    next
      case (3 c rest t)
      with IH [OF 3(4)] link [OF 3(2,3)] show ?thesis by (simp add: resolve_from_link fs)
    next
      case (4 c rest)
      with IH [OF 4(4)] plain [OF 4(2,3)] show ?thesis by (simp add: resolve_from_plain fs)
    qed
  qed
  with assms(1) show ?thesis by blast
qed

lemma resolve_canonical_from:
  "resolve_from fs cur cs = Some r \<Longrightarrow> canonical_path fs cur \<Longrightarrow> canonical_path fs r"
proof (induction rule: resolve_induct)
  case (dotdot cur rest r)
  then show ?case using canonical_butlast by blast
next
  case (link cur c rest t r)
  then show ?case by (cases "is_absolute t") auto
next
  case (plain cur c rest r)
  then show ?case by (simp add: canonical_snoc)
qed

lemma resolve_canonical: "resolve fs p = Some q \<Longrightarrow> canonical_path fs q"
  unfolding resolve_def by (erule resolve_canonical_from) simp

lemma resolve_from_canonical:
  "canonical_path fs (cur @ cs) \<Longrightarrow> resolve_from fs cur cs = Some (cur @ cs)"
proof (induction cs arbitrary: cur)
  case Nil
  then show ?case by (simp add: resolve_from.simps)
next
  case (Cons c cs)
  have "canonical_path fs ((cur @ [c]) @ cs)" using Cons.prems by simp
  then have "resolve_from fs (cur @ [c]) cs = Some (cur @ c # cs)" using Cons.IH by fastforce
  moreover have "not_link fs (cur @ [c])"
    using Cons.prems by (auto simp: canonical_path_def dest: spec [of _ "Suc (length cur)"])
  moreover have "c \<noteq> ''..''" using Cons.prems by (auto simp: canonical_path_def)
  ultimately show ?case
    by (subst resolve_from.simps) (auto simp: not_link_def split: option.splits node.splits)
qed

lemma resolve_idem: "resolve fs p = Some q \<Longrightarrow> resolve fs q = Some q"
  using resolve_from_canonical [of fs "[]" q] resolve_canonical [of fs p q] by (simp add: resolve_def)

text \<open>The last component is looked up in the resolved parent.\<close>

lemma resolve_from_butlast:
  "resolve_from fs cur cs = Some r \<Longrightarrow> cs \<noteq> [] \<Longrightarrow>
     \<exists>d. resolve_from fs cur (butlast cs) = Some d \<and> resolve_from fs d [last cs] = Some r"
proof (induction rule: resolve_induct)
  case (dotdot cur rest r)
  then show ?case by (cases "rest = []") (auto simp: resolve_from_dotdot)
next
  case (link cur c rest t r)
  then show ?case
    by (cases "rest = []") (auto simp: resolve_from_link butlast_append last_append)
next
  case (plain cur c rest r)
  then show ?case by (cases "rest = []") (auto simp: resolve_from_plain)
qed simp

text \<open>
  The entry an \<open>unlink\<close> removes is the resolved path, unless it is a link.
\<close>

lemma resolve_entry:
  assumes "resolve fs p = Some q" "p \<noteq> []" "last p \<noteq> ''..''"
    and "resolve fs (butlast p) = Some d" "not_link fs (d @ [last p])"
  shows "q = d @ [last p]"
proof -
  obtain d' where "resolve_from fs [] (butlast p) = Some d'" "resolve_from fs d' [last p] = Some q"
    using resolve_from_butlast [of fs "[]" p q] assms(1,2) by (auto simp: resolve_def)
  with assms(3-5) show ?thesis by (simp add: resolve_def resolve_from_plain)
qed

section \<open>Reading and writing inside the repository\<close>

lemma fs_write_inside:
  assumes "fs_write fs p s = Some fs'" "resolve fs p = Some q" "q' \<noteq> q"
  shows "fs' q' = fs q'"
  using assms by (auto simp: fs_write_def split: if_splits)

lemma fs_unlink_effect:
  assumes "fs_unlink fs p = Some fs'" "resolve fs p = Some q" "q' \<noteq> q"
  shows "fs' q' = fs q' \<or> (\<exists>t. fs q' = Some (Link t)) \<and> fs' q' = None"
proof -
  from assms(1) obtain d where d: "p \<noteq> []" "last p \<noteq> ''..''" "resolve fs (butlast p) = Some d"
    "fs' = fs(d @ [last p] := None)"
    by (auto simp: fs_unlink_def split: if_splits option.splits node.splits)
  show ?thesis
  proof (cases "q' = d @ [last p]")
    case True
    have "\<not> not_link fs (d @ [last p])"
      using resolve_entry [OF assms(2) d(1-3)] assms(3) True by blast
    with True d(4) show ?thesis by (auto simp: not_link_def)
  qed (use d(4) in auto)
qed

text \<open>
  \<open>outside_kept\<close>: outside the subtree of \<open>root\<close>, nothing is created or changed; at most a
  symbolic link is removed.
\<close>

definition outside_kept :: "path \<Rightarrow> fs \<Rightarrow> fs \<Rightarrow> bool" where
  "outside_kept root fs fs' \<longleftrightarrow>
     (\<forall>q. \<not> prefix root q \<longrightarrow> fs' q = fs q \<or> (\<exists>t. fs q = Some (Link t)) \<and> fs' q = None)"

lemma outside_kept_refl [simp]: "outside_kept root fs fs"
  by (simp add: outside_kept_def)

lemma outside_kept_trans:
  "outside_kept root fs fs1 \<Longrightarrow> outside_kept root fs1 fs2 \<Longrightarrow> outside_kept root fs fs2"
  unfolding outside_kept_def by (metis option.discI)

text \<open>What git promises: a checkout stays inside the work tree and keeps its root.\<close>

definition git_confined :: "git_world \<Rightarrow> path \<Rightarrow> bool" where
  "git_confined git root \<longleftrightarrow>
     (\<forall>rel fs. outside_kept root fs (git_checkout git rel fs) \<and>
        (fs root = Some Dir \<longrightarrow> git_checkout git rel fs root = Some Dir))"

text \<open>The repository is a real directory with a resolved path.\<close>

definition repo_ok :: "path \<Rightarrow> fs \<Rightarrow> bool" where
  "repo_ok repo fs \<longleftrightarrow> canonical_path fs repo \<and> fs repo = Some Dir"

lemma repo_ok_resolve: "repo_ok repo fs \<Longrightarrow> resolve fs repo = Some repo"
  using resolve_from_canonical [of fs "[]" repo] by (simp add: repo_ok_def resolve_def)

lemma repo_ok_kept:
  assumes "repo_ok repo fs" "outside_kept repo fs fs'" "fs' repo = Some Dir"
  shows "repo_ok repo fs'"
proof -
  have "not_link fs' (take n repo)" if n: "0 < n" "n \<le> length repo" for n
  proof (cases "n = length repo")
    case True
    with assms(3) show ?thesis by (simp add: not_link_def)
  next
    case False
    then have "\<not> prefix repo (take n repo)" using n by (auto dest: prefix_length_le)
    then have "fs' (take n repo) = fs (take n repo) \<or> fs' (take n repo) = None"
      using spec [OF assms(2) [unfolded outside_kept_def], of "take n repo"] by argo
    moreover have "not_link fs (take n repo)"
      using assms(1) n by (auto simp: repo_ok_def canonical_path_def)
    ultimately show ?thesis by (auto simp: not_link_def)
  qed
  with assms(1,3) show ?thesis by (auto simp: repo_ok_def canonical_path_def)
qed

lemma fs_write_outside:
  assumes "fs_write fs p s = Some fs'" "resolve fs p = Some q" "prefix root q" "fs root = Some Dir"
  shows "outside_kept root fs fs' \<and> fs' root = Some Dir"
proof
  have "q' \<noteq> q" if "\<not> prefix root q'" for q' using that assms(3) by blast
  then show "outside_kept root fs fs'"
    unfolding outside_kept_def using fs_write_inside [OF assms(1,2)] by blast
  have "root \<noteq> q" using assms(1,2,4) by (auto simp: fs_write_def split: if_splits)
  then show "fs' root = Some Dir" using fs_write_inside [OF assms(1,2)] assms(4) by simp
qed

lemma fs_unlink_outside:
  assumes "fs_unlink fs p = Some fs'" "resolve fs p = Some q" "prefix root q" "fs root = Some Dir"
  shows "outside_kept root fs fs' \<and> fs' root = Some Dir"
proof
  have "q' \<noteq> q" if "\<not> prefix root q'" for q' using that assms(3) by blast
  then show "outside_kept root fs fs'"
    unfolding outside_kept_def using fs_unlink_effect [OF assms(1,2)] by blast
  show "fs' root = Some Dir"
    using assms(1,4) by (auto simp: fs_unlink_def split: if_splits option.splits node.splits)
qed

lemma revert_one_outside:
  assumes "git_confined git root" "fs root = Some Dir"
    and "resolve fs (repo @ components rel) = Some q" "prefix root q"
  shows "outside_kept root fs (fst (revert_one git repo snap rel fs)) \<and>
         fst (revert_one git repo snap rel fs) root = Some Dir"
proof -
  note w = fs_write_outside [OF _ assms(3,4,2)] and u = fs_unlink_outside [OF _ assms(3,4,2)]
  have git: "outside_kept root fs (git_checkout git rel fs) \<and> git_checkout git rel fs root = Some Dir"
    using assms(1,2) by (simp add: git_confined_def)
  show ?thesis
    using w u git assms(2) by (auto simp: revert_one_def Let_def split: option.splits)
qed

lemma revert_files_outside:
  assumes "git_confined git repo" "repo_ok repo fs" "revert_files git repo snap files fs = Inr (fs', done)"
  shows "outside_kept repo fs fs'"
  using assms(2,3)
proof (induction files arbitrary: fs fs' "done")
  case Nil
  then show ?case by simp
next
  case (Cons raw files)
  let ?rel = "norm_path raw"
  let ?p = "repo @ components ?rel"
  show ?case
  proof (cases "?rel = [] \<or> is_absolute ?rel")
    case True
    with Cons show ?thesis by (auto simp: Let_def)
  next
    case False
    with Cons.prems obtain inside where w: "within_repo fs repo ?p = Inr inside"
      by (auto simp: Let_def)
    then obtain q where q: "resolve fs ?p = Some q" "inside = prefix repo q"
      using repo_ok_resolve [OF Cons.prems(1)] by (auto simp: within_repo_def)
    show ?thesis
    proof (cases inside)
      case False
      with \<open>\<not> (?rel = [] \<or> is_absolute ?rel)\<close> w Cons show ?thesis by (auto simp: Let_def)
    next
      case True
      let ?fs1 = "fst (revert_one git repo snap ?rel fs)"
      have one: "outside_kept repo fs ?fs1" "?fs1 repo = Some Dir"
        using revert_one_outside [OF assms(1) _ q(1)] Cons.prems(1) q(2) True by (auto simp: repo_ok_def)
      obtain done' where "revert_files git repo snap files ?fs1 = Inr (fs', done')"
        using Cons.prems(2) False w True by (auto simp: Let_def split: prod.splits)
      from Cons.IH [OF repo_ok_kept [OF Cons.prems(1) one] this] one(1) show ?thesis
        by (blast intro: outside_kept_trans)
    qed
  qed
qed

text \<open>
  C9.  Reverting model-named files is confined to the repository: on any file system with
  any symbolic links and any references, whatever lies outside the repository is neither
  created nor modified; the only possible effect there is the removal of a symbolic link.
\<close>

theorem revert_files_confined:
  assumes "git_confined git repo" "repo_ok repo fs" "revert_files git repo snap files fs = Inr (fs', done)"
    and "\<not> prefix repo q"
  shows "fs' q = fs q \<or> (\<exists>t. fs q = Some (Link t)) \<and> fs' q = None"
  using revert_files_outside [OF assms(1-3)] assms(4) by (simp add: outside_kept_def)

text \<open>
  A repository with a link to a directory outside, which holds a link back into the
  repository.  The second half of the conclusion of C14 is really needed.
\<close>

definition demo_fs :: fs where
  "demo_fs = map_of
     [([], Dir), ([''repo''], Dir), ([''repo'', ''f''], File ''text''), ([''ext''], Dir),
      ([''repo'', ''out''], Link ''/ext''), ([''ext'', ''l''], Link ''/repo/f''),
      ([''ext'', ''data''], File ''secret'')]"

definition no_git :: git_world where
  "no_git = \<lparr>git_is_worktree = False, git_tracked = (\<lambda>_. False), git_checkout = (\<lambda>_ fs. fs)\<rparr>"

definition demo_revert :: "path_error + fs \<times> pystr list" where
  "demo_revert = revert_files no_git [''repo''] [(''out/l'', None), (''out/data'', None), (''f'', Some ''old'')]
     [''out/l'', ''out/data:3'', ''f'', ''/etc/passwd'', ''../ext/data''] demo_fs"

lemma demo_revert_runs: "\<not> isl demo_revert \<and> snd (projr demo_revert) = [''out/l'', ''f'']"
  by code_simp

lemma revert_removes_outside_link:
  "demo_fs [''ext'', ''l''] \<noteq> None \<and> fst (projr demo_revert) [''ext'', ''l''] = None"
  by code_simp

lemma repo_ok_demo: "repo_ok [''repo''] demo_fs"
proof -
  have "not_link demo_fs [''repo'']" by (simp add: not_link_def demo_fs_def)
  then show ?thesis
    by (auto simp: repo_ok_def canonical_path_def demo_fs_def Suc_le_eq less_Suc_eq)
qed

lemma revert_files_confined_witness:
  "fst (projr demo_revert) [''ext'', ''data''] = Some (File ''secret'')"
proof -
  have g: "git_confined no_git [''repo'']" by (simp add: git_confined_def no_git_def)
  obtain fs' d where r: "demo_revert = Inr (fs', d)"
    using demo_revert_runs by (metis sum.collapse(2) surj_pair)
  have "\<not> prefix [''repo''] [''ext'', ''data'']" by simp
  from revert_files_confined [OF g repo_ok_demo r [unfolded demo_revert_def] this]
  have "fs' [''ext'', ''data''] = Some (File ''secret'')" by (simp add: demo_fs_def)
  then show ?thesis unfolding r by simp
qed

section \<open>Snapshots\<close>

lemma fs_read_resolved:
  assumes "resolve fs p = Some q" "fs_read fs q = Some s"
  shows "fs q = Some (File s)"
  using assms resolve_idem [OF assms(1)] by (auto simp: fs_read_def split: option.splits node.splits)

lemma safe_repo_path_inside:
  assumes "safe_repo_path fs repo ref = Inr (Some q)"
  obtains root where "resolve fs repo = Some root" "prefix root q"
    "resolve fs (repo @ components (norm_path ref)) = Some q"
  using assms by (auto simp: safe_repo_path_def Let_def split: if_splits)

definition snapshot_inside :: "fs \<Rightarrow> path \<Rightarrow> (pystr, pystr option) pydict \<Rightarrow> bool" where
  "snapshot_inside fs repo snap \<longleftrightarrow>
     (\<forall>rel s. dict_get snap rel = Some (Some s) \<longrightarrow>
        (\<exists>root q. resolve fs repo = Some root \<and> prefix root q \<and> fs q = Some (File s) \<and>
           resolve fs (repo @ components rel) = Some q))"

lemma snapshot_loop_inside:
  "snapshot_loop fs repo snap files = Inr snap' \<Longrightarrow> snapshot_inside fs repo snap \<Longrightarrow>
     snapshot_inside fs repo snap'"
proof (induction files arbitrary: snap)
  case (Cons f files)
  let ?rel = "norm_path f"
  show ?case
  proof (cases "?rel = [] \<or> ?rel \<in> set (dict_keys snap)")
    case True
    with Cons show ?thesis by (auto simp: Let_def)
  next
    case False
    with Cons.prems(1) obtain sp where sp: "safe_repo_path fs repo f = Inr sp"
      "(case sp of None \<Rightarrow> snapshot_loop fs repo snap files
        | Some p \<Rightarrow> snapshot_loop fs repo (dict_set ?rel (fs_read fs p) snap) files) = Inr snap'"
      by (auto simp: Let_def)
    show ?thesis
    proof (cases sp)
      case None
      with sp Cons show ?thesis by simp
    next
      case (Some p)
      obtain root where r: "resolve fs repo = Some root" "prefix root p"
        "resolve fs (repo @ components ?rel) = Some p"
        using safe_repo_path_inside sp(1) Some by blast
      have "snapshot_inside fs repo (dict_set ?rel (fs_read fs p) snap)"
        using Cons.prems(2) r fs_read_resolved [OF r(3)]
        by (auto simp: snapshot_inside_def dict_get_set)
      with Cons.IH sp(2) Some show ?thesis by simp
    qed
  qed
qed simp

text \<open>
  A snapshot never holds the content of a file outside the repository: every recorded
  text is the content of the file its key resolves to, and that file lies under the
  resolved repository root, whatever references the finding or the model supplied.
\<close>

lemma snapshot_confined:
  assumes "snapshot_files fs repo files = Inr snap" "dict_get snap rel = Some (Some s)"
  shows "\<exists>root q. resolve fs repo = Some root \<and> resolve fs (repo @ components rel) = Some q \<and>
     prefix root q \<and> fs q = Some (File s)"
proof -
  have "snapshot_inside fs repo []" by (simp add: snapshot_inside_def)
  then have "snapshot_inside fs repo snap"
    using snapshot_loop_inside assms(1) unfolding snapshot_files_def by blast
  with assms(2) show ?thesis unfolding snapshot_inside_def by blast
qed

lemma snapshot_confined_witness:
  "\<exists>snap root q. snapshot_files demo_fs [''repo''] [''f:7-9'', ''out/data'', ''../ext/data''] = Inr snap \<and>
     resolve demo_fs [''repo''] = Some root \<and> prefix root q \<and> demo_fs q = Some (File ''text'')"
proof -
  let ?s = "snapshot_files demo_fs [''repo''] [''f:7-9'', ''out/data'', ''../ext/data'']"
  have "\<not> isl ?s \<and> projr ?s = [(''f'', Some ''text'')]" by code_simp
  then have s: "?s = Inr [(''f'', Some ''text'')]" by (cases ?s) auto
  from snapshot_confined [OF s, of "''f''" "''text''"] s show ?thesis by auto
qed

section \<open>The status records of git\<close>

text \<open>A record as git prints it: two status letters, the path, and the origin of a rename.\<close>

record status_record =
  st_x :: char
  st_y :: char
  st_path :: pystr
  st_orig :: "pystr option"

definition wf_status :: "status_record \<Rightarrow> bool" where
  "wf_status r \<longleftrightarrow>
     (st_orig r \<noteq> None \<longleftrightarrow> st_x r \<in> {CHR ''R'', CHR ''C''} \<or> st_y r \<in> {CHR ''R'', CHR ''C''}) \<and>
     st_path r \<noteq> [] \<and> (\<forall>o'. st_orig r = Some o' \<longrightarrow> o' \<noteq> [] \<and> CHR 0x00 \<notin> set o') \<and>
     CHR 0x00 \<notin> set (st_path r) \<and> st_x r \<noteq> CHR 0x00 \<and> st_y r \<noteq> CHR 0x00"

definition status_tokens :: "status_record \<Rightarrow> pystr list" where
  "status_tokens r =
     (st_x r # st_y r # CHR '' '' # st_path r) # (case st_orig r of Some o' \<Rightarrow> [o'] | None \<Rightarrow> [])"

definition status_paths :: "status_record \<Rightarrow> pystr list" where
  "status_paths r = st_path r # (case st_orig r of Some o' \<Rightarrow> [o'] | None \<Rightarrow> [])"

text \<open>Every token is followed by a NUL.\<close>

definition print_status :: "status_record list \<Rightarrow> pystr" where
  "print_status rs = concat (map (\<lambda>t. t @ [CHR 0x00]) (concat (map status_tokens rs)))"

lemma split_on_terminated:
  assumes "list_all (\<lambda>t. d \<notin> set t) ts"
  shows "split_on d (concat (map (\<lambda>t. t @ [d]) ts)) = ts @ [[]]"
  using assms
proof (induction ts)
  case (Cons t ts)
  have "split_on d (t @ d # r) = t # split_on d r" if "d \<notin> set t" for r t
    using that by (induction t) (auto split: list.splits)
  with Cons show ?case by simp
qed simp

lemma parse_porcelain_tokens:
  assumes "list_all wf_status rs"
  shows "parse_porcelain files (concat (map status_tokens rs) @ [[]]) =
     fold add_new (concat (map status_paths rs)) files"
  using assms
proof (induction rs arbitrary: files)
  case (Cons r rs)
  then show ?case
    by (cases "st_orig r") (auto simp: status_tokens_def status_paths_def wf_status_def)
qed simp

text \<open>
  C10.  Parsing git's NUL-separated status output recovers every changed path, the origin of
  each rename or copy included, without repetition and in git's order, for file names with
  any characters.
\<close>

theorem porcelain_roundtrip:
  assumes "list_all wf_status rs"
  shows "changed_files_whole_tree (Some (print_status rs)) = fromkeys (concat (map status_paths rs))"
proof -
  have "list_all (\<lambda>t. CHR 0x00 \<notin> set t) (concat (map status_tokens rs))"
    using assms by (fastforce simp: list_all_iff status_tokens_def wf_status_def split: option.splits)
  then show ?thesis
    by (simp add: changed_files_whole_tree_def print_status_def split_on_terminated
        parse_porcelain_tokens [OF assms] fold_add_new_Nil)
qed

lemma porcelain_roundtrip_witness:
  "changed_files_whole_tree (Some (print_status
     [\<lparr>st_x = CHR ''R'', st_y = CHR '' '', st_path = ''n.py'', st_orig = Some ''ab c.py''\<rparr>])) =
   [''n.py'', ''ab c.py'']"
proof -
  let ?rs = "[\<lparr>st_x = CHR ''R'', st_y = CHR '' '', st_path = ''n.py'', st_orig = Some ''ab c.py''\<rparr>]"
  have "list_all wf_status ?rs" by (simp add: wf_status_def)
  from porcelain_roundtrip [OF this] show ?thesis
    by (simp add: status_paths_def fromkeys_def)
qed

end
