(* ===== verification/PostGate.thy ===== *)
theory PostGate
  imports PolicyGate RepoFs
begin

text \<open>
  The policy post-gate and the per-finding orchestration of the remediation agent:
  \<open>remediation_agent/policy_gate/diffscan.py\<close>, \<open>policy/decide.py\<close>,
  \<open>policy/postgate.py\<close>, \<open>models/verdict.py\<close> and \<open>plugin_runner/run.py\<close>.

  The texts of \<open>git status\<close>, \<open>git diff\<close> and \<open>difflib\<close> are inputs.  The model call is a
  function of the file system: it returns the verdict and the tree it left behind.
\<close>

section \<open>Files named by a unified diff\<close>

text \<open>After \<open>diff --git a/\<close>: what follows the first \<open>space b/\<close> past one character.\<close>

fun after_b :: "pystr \<Rightarrow> pystr option" where
  "after_b [] = None"
| "after_b (c # cs) =
     (if prefix '' b/'' cs \<and> drop 3 cs \<noteq> [] then Some (drop 3 cs) else after_b cs)"

definition diff_git_file :: "pystr \<Rightarrow> pystr option" where
  "diff_git_file line =
     (if prefix ''diff --git a/'' line then after_b (drop 13 line) else None)"

text \<open>\<open>^+++ (?:b/)?(.+?)\s*$\<close> and its twin for \<open>---\<close>: the optional prefix is given back when
  nothing follows it.\<close>

definition header_file :: "pystr \<Rightarrow> pystr \<Rightarrow> pystr \<Rightarrow> pystr option" where
  "header_file mark side line =
     (if \<not> prefix mark line then None
      else
        let r = drop (length mark) line;
            r' = (if prefix side r \<and> drop (length side) r \<noteq> [] then drop (length side) r else r)
        in if r' = [] then None else Some r')"

definition line_file :: "pystr \<Rightarrow> pystr option" where
  "line_file line =
     (case diff_git_file line of
        Some f \<Rightarrow> Some f
      | None \<Rightarrow>
          (case header_file ''+++ '' ''b/'' line of
             Some f \<Rightarrow> Some f
           | None \<Rightarrow> header_file ''--- '' ''a/'' line))"

definition add_diff_file :: "pystr \<Rightarrow> pystr list \<Rightarrow> pystr list" where
  "add_diff_file line out =
     (case line_file line of
        None \<Rightarrow> out
      | Some f \<Rightarrow>
          let p = py_strip f in if p = [] \<or> p = ''/dev/null'' then out else add_new p out)"

definition inspect_diff :: "pystr option \<Rightarrow> pystr list" where
  "inspect_diff diff =
     (case diff of None \<Rightarrow> [] | Some text \<Rightarrow> fold add_diff_file (splitlines text) [])"

section \<open>Verdicts\<close>

record change =
  ch_file :: pystr
  ch_summary :: pystr

record verdict =
  rv_finding_index :: int
  rv_verdict :: pystr
  rv_source :: pystr
  rv_sink :: pystr
  rv_missing_control :: pystr
  rv_root_cause :: pystr
  rv_changes :: "change list"
  rv_remaining_risks :: "pystr list"
  rv_recommendations :: "pystr list"
  rv_summary :: pystr

text \<open>\<open>RemediationVerdict\<close> with its defaults.\<close>

definition default_verdict :: "int \<Rightarrow> pystr \<Rightarrow> pystr \<Rightarrow> verdict" where
  "default_verdict index v summary =
     \<lparr>rv_finding_index = index, rv_verdict = v, rv_source = ''fail'', rv_sink = ''fail'',
      rv_missing_control = ''fail'', rv_root_cause = [], rv_changes = [], rv_remaining_risks = [],
      rv_recommendations = [], rv_summary = summary\<rparr>"

definition gates_ok :: "verdict \<Rightarrow> bool" where
  "gates_ok v \<longleftrightarrow> rv_source v = ''pass'' \<and> rv_sink v = ''pass'' \<and> rv_missing_control v = ''pass''"

definition guidance_verdict :: "(pyval \<Rightarrow> pystr) \<Rightarrow> int \<Rightarrow> decision \<Rightarrow> verdict" where
  "guidance_verdict rep index d =
     default_verdict index ''Denied''
       (''Denied by policy ('' @ py_str rep (dc_reason d) @ ''). No patch generated.'')"

section \<open>The post-gate\<close>

record post_result =
  po_reverted :: "pystr list"
  po_matched :: "pystr list"
  po_downgraded :: bool
  po_final :: pystr

text \<open>What the post-gate observes besides the file system.\<close>

record post_world =
  pw_git :: git_world
  pw_status :: "pystr option"
  pw_diff :: "pystr list \<Rightarrow> pystr option"
  pw_tree :: "pystr list"

definition post_candidates :: "policy_data option \<Rightarrow> post_world \<Rightarrow> verdict \<Rightarrow> pystr list" where
  "post_candidates pol w v =
     (let changed = filter (\<lambda>f. f \<noteq> []) (map ch_file (rv_changes v));
          whole = changed_files_whole_tree (pw_status w);
          forb = (if whole = []
                  then worktree_forbidden_matches (pw_tree w) (gate_forbid_paths pol @ gate_deny_paths pol)
                  else []);
          scope = fromkeys (changed @ whole)
      in fromkeys (inspect_diff (pw_diff w scope) @ changed @ whole @ forb))"

definition matched_glob :: "policy_data option \<Rightarrow> pystr \<Rightarrow> pystr option" where
  "matched_glob pol f =
     (case patch_touches_forbidden pol [f] of
        Some (c # g) \<Rightarrow> Some (c # g)
      | _ \<Rightarrow> (case changed_paths_hit_deny pol [f] of Some (c # g) \<Rightarrow> Some (c # g) | _ \<Rightarrow> None))"

definition post_note :: "pystr list \<Rightarrow> pystr list \<Rightarrow> pystr" where
  "post_note reverted matched =
     ''Policy post-gate reverted '' @ show_nat (length reverted) @
     '' file(s) that touched forbidden/sensitive paths ('' @ join_with '', '' matched @ ''): '' @
     join_with '', '' reverted @
     ''. These edits were rolled back on disk; route to a human.''"

definition downgrade_verdict :: "pystr list \<Rightarrow> pystr \<Rightarrow> verdict \<Rightarrow> verdict" where
  "downgrade_verdict bad note v =
     v\<lparr>rv_changes := filter (\<lambda>c. norm_path (ch_file c) \<notin> set (map norm_path bad)) (rv_changes v),
       rv_remaining_risks := rv_remaining_risks v @ [note],
       rv_verdict := (if rv_verdict v \<in> {''Fixed'', ''Partially Fixed''} then ''Needs Review''
                      else rv_verdict v),
       rv_summary := (if rv_summary v \<noteq> [] then rv_summary v @ '' '' else []) @ note\<rparr>"

definition enforce_post ::
    "policy_data option \<Rightarrow> post_world \<Rightarrow> path \<Rightarrow> (pystr, pystr option) pydict option \<Rightarrow> action \<Rightarrow> bool \<Rightarrow>
       verdict \<Rightarrow> fs \<Rightarrow> path_error + post_result \<times> verdict \<times> fs" where
  "enforce_post pol w repo snap act all_gates_passed v fs =
     (let bad = forbidden_files pol (post_candidates pol w v);
          matched = sorted_list_of_set (set (List.map_filter (matched_glob pol) bad))
      in if bad = [] then
           Inr (\<lparr>po_reverted = [], po_matched = [], po_downgraded = False,
                 po_final = cap_verdict act (all_gates_passed \<and> gates_ok v)\<rparr>, v, fs)
         else
           and_then (revert_files (pw_git w) repo (case snap of Some s \<Rightarrow> s | None \<Rightarrow> []) bad fs)
             (\<lambda>(fs', reverted).
               Inr (\<lparr>po_reverted = reverted, po_matched = matched, po_downgraded = True,
                     po_final = ''REJECT''\<rparr>,
                    downgrade_verdict bad (post_note reverted matched) v, fs')))"

section \<open>One finding\<close>

text \<open>The fields of the finding that the gate reads, as the report parser extracts them.\<close>

record gate_finding =
  gf_index :: int
  gf_cwe :: pyval
  gf_clean_file :: pystr
  gf_file :: pystr

definition pre_decision ::
    "(pyval \<Rightarrow> pystr) \<Rightarrow> gate_world \<Rightarrow> policy_data option \<Rightarrow> gate_finding \<Rightarrow> policy_error + decision" where
  "pre_decision rep gw pol f =
     decide rep gw pol (gf_cwe f) (if gf_clean_file f \<noteq> [] then gf_clean_file f else gf_file f)"

datatype run_error = PolicyError policy_error | PathError path_error

definition lift_policy :: "policy_error + 'a \<Rightarrow> run_error + 'a" where
  "lift_policy r = map_sum PolicyError id r"

definition lift_path :: "path_error + 'a \<Rightarrow> run_error + 'a" where
  "lift_path r = map_sum PathError id r"

record run_outcome =
  ro_verdict :: verdict
  ro_final :: "pystr option"
  ro_fs :: fs
  ro_agent_ran :: bool

text \<open>
  \<open>agent\<close> is the model session: it maps the tree it finds to the verdict it reports and the
  tree it leaves; \<open>world\<close> gives the observations of the post-gate on that tree.
\<close>

definition apply_plugin ::
    "(pyval \<Rightarrow> pystr) \<Rightarrow> gate_world \<Rightarrow> policy_data option \<Rightarrow> bool \<Rightarrow> path \<Rightarrow> (fs \<Rightarrow> pystr list) \<Rightarrow>
       (fs \<Rightarrow> verdict \<times> fs) \<Rightarrow> (fs \<Rightarrow> post_world) \<Rightarrow> gate_finding \<Rightarrow> fs \<Rightarrow> run_error + run_outcome" where
  "apply_plugin rep gw pol enforce repo tree agent world f fs =
     (if \<not> enforce then
        (let targets = (if gf_file f \<noteq> [] then [gf_file f] else []) in
         and_then (lift_path (snapshot_files fs repo targets)) (\<lambda>before.
           let (v, fs1) = agent fs in
           Inr \<lparr>ro_verdict = v\<lparr>rv_finding_index := gf_index f\<rparr>, ro_final = None, ro_fs = fs1,
                ro_agent_ran = True\<rparr>))
      else
        and_then (lift_policy (pre_decision rep gw pol f)) (\<lambda>d.
          if \<not> may_generate_patch d then
            Inr \<lparr>ro_verdict = guidance_verdict rep (gf_index f) d, ro_final = Some ''REJECT'',
                 ro_fs = fs, ro_agent_ran = False\<rparr>
          else
            let targets = fromkeys ((if gf_file f \<noteq> [] then [gf_file f] else []) @
                  worktree_forbidden_matches (tree fs) (gate_forbid_paths pol @ gate_deny_paths pol))
            in and_then (lift_path (snapshot_files fs repo targets)) (\<lambda>before.
                 let (v, fs1) = agent fs; v1 = v\<lparr>rv_finding_index := gf_index f\<rparr> in
                 and_then (lift_path (enforce_post pol (world fs1) repo (Some before) (dc_action d)
                     True v1 fs1)) (\<lambda>(post, v2, fs2).
                   Inr \<lparr>ro_verdict = v2, ro_final = Some (po_final post), ro_fs = fs2,
                        ro_agent_ran = True\<rparr>))))"

end
