(* ===== verification/PostGateProps.thy ===== *)
theory PostGateProps
  imports PostGate PolicyGateProps RepoFsProps
begin

text \<open>
  What the post-gate guarantees about the files a remediation leaves changed, stated over
  the interface \<open>change_policy\<close> that the policy gate provides.
\<close>

section \<open>The interface of the gate\<close>

locale change_policy =
  fixes bad :: "'a list \<Rightarrow> 'a list" and ok :: "'a \<Rightarrow> bool"
  assumes bad_exact: "set (bad fs) = {f \<in> set fs. \<not> ok f}"
begin

lemma bad_empty: "bad fs = [] \<longleftrightarrow> (\<forall>f \<in> set fs. ok f)"
proof -
  have "bad fs = [] \<longleftrightarrow> set (bad fs) = {}" by simp
  then show ?thesis unfolding bad_exact by blast
qed

lemma kept_ok:
  assumes "f \<in> set fs" "f \<notin> set (bad fs)"
  shows "ok f"
  using assms by (simp add: bad_exact)

lemma bad_subset: "set (bad fs) \<subseteq> set fs"
  by (auto simp: bad_exact)

lemma bad_idem: "bad (filter (\<lambda>f. f \<notin> set (bad fs)) fs) = []"
  unfolding bad_empty using kept_ok by auto

end

definition path_permitted :: "policy_data option \<Rightarrow> pystr \<Rightarrow> bool" where
  "path_permitted pol f \<longleftrightarrow>
     patch_touches_forbidden pol [f] = None \<and> changed_paths_hit_deny pol [f] = None"

interpretation gate: change_policy "forbidden_files pol" "path_permitted pol" for pol
  by unfold_locales (simp add: forbidden_files_permitted path_permitted_def)

section \<open>Candidates\<close>

lemma post_candidates_changes: "f \<in> set (map ch_file (rv_changes v)) \<Longrightarrow> f \<noteq> [] \<Longrightarrow> f \<in> set (post_candidates pol w v)"
  by (auto simp: post_candidates_def Let_def)

lemma post_candidates_tree:
  "f \<in> set (changed_files_whole_tree (pw_status w)) \<Longrightarrow> f \<in> set (post_candidates pol w v)"
  by (simp add: post_candidates_def Let_def)

lemma cap_accept: "cap_verdict a b = ''ACCEPT'' \<longleftrightarrow> a = Patch \<and> b"
  by (cases a) (auto simp: cap_verdict_def)

text \<open>
  C8.  An ACCEPT is earned: the policy permitted the patch, the agent's three evidence gates
  pass, nothing was touched by the post-gate, and every file that git reports as changed or
  the agent names is permitted.
\<close>

theorem accept_means_permitted:
  assumes "enforce_post pol w repo snap act agp v fs = Inr (post, v', fs')"
    and "po_final post = ''ACCEPT''"
    and "f \<in> set (changed_files_whole_tree (pw_status w)) \<union> ch_file ` set (rv_changes v)" "f \<noteq> []"
  shows "path_permitted pol f \<and> act = Patch \<and> gates_ok v \<and> v' = v \<and> fs' = fs"
proof -
  let ?c = "post_candidates pol w v"
  have bad: "forbidden_files pol ?c = []"
    using assms(1,2) by (auto simp: enforce_post_def Let_def split: if_splits prod.splits)
  have "f \<in> set ?c" using assms(3,4) post_candidates_changes post_candidates_tree by fastforce
  then have "path_permitted pol f" using bad unfolding gate.bad_empty by blast
  with assms(1,2) bad show ?thesis by (auto simp: enforce_post_def Let_def cap_accept)
qed

text \<open>
  Whatever the outcome, the changes left in the verdict are permitted: a change of a
  forbidden or sensitive file never reaches the report, and a verdict from which one was
  removed no longer claims a fix.
\<close>

lemma post_gate_changes_permitted:
  assumes "enforce_post pol w repo snap act agp v fs = Inr (post, v', fs')"
    and "c \<in> set (rv_changes v')" "ch_file c \<noteq> []"
  shows "path_permitted pol (ch_file c) \<and> c \<in> set (rv_changes v) \<and>
     (po_downgraded post \<longrightarrow> po_final post = ''REJECT'' \<and> rv_verdict v' \<notin> {''Fixed'', ''Partially Fixed''})"
proof -
  let ?c = "post_candidates pol w v"
  let ?bad = "forbidden_files pol ?c"
  have sub: "c \<in> set (rv_changes v) \<and> ch_file c \<notin> set ?bad"
    using assms(1,2) by (auto simp: enforce_post_def Let_def downgrade_verdict_def split: if_splits prod.splits)
  then have "ch_file c \<in> set ?c" using post_candidates_changes assms(3) by auto
  with sub have "path_permitted pol (ch_file c)" using gate.kept_ok [of "ch_file c" ?c pol] by blast
  moreover have "po_downgraded post \<longrightarrow> po_final post = ''REJECT'' \<and> rv_verdict v' \<notin> {''Fixed'', ''Partially Fixed''}"
    using assms(1) by (auto simp: enforce_post_def Let_def downgrade_verdict_def split: if_splits prod.splits)
  ultimately show ?thesis using sub by blast
qed

section \<open>One finding\<close>


section \<open>Witnesses\<close>

definition demo_world :: post_world where
  "demo_world =
     \<lparr>pw_git = no_git,
      pw_status = Some (print_status [\<lparr>st_x = CHR '' '', st_y = CHR ''M'', st_path = ''views/page.py'', st_orig = None\<rparr>]),
      pw_diff = (\<lambda>_. None), pw_tree = []\<rparr>"

definition demo_verdict :: verdict where
  "demo_verdict = (default_verdict 1 ''Fixed'' [])
     \<lparr>rv_source := ''pass'', rv_sink := ''pass'', rv_missing_control := ''pass'',
      rv_changes := [\<lparr>ch_file = ''views/page.py'', ch_summary = []\<rparr>]\<rparr>"

definition demo_post :: "path_error + post_result \<times> verdict \<times> fs" where
  "demo_post = enforce_post (Some xss_policy) demo_world [''repo''] None Patch True demo_verdict demo_fs"

lemma demo_post_accepts:
  "\<not> isl demo_post \<and> po_final (fst (projr demo_post)) = ''ACCEPT'' \<and>
     rv_changes (fst (snd (projr demo_post))) = rv_changes demo_verdict"
  by code_simp

lemma demo_post_result:
  obtains post v' fs' where "demo_post = Inr (post, v', fs')" "po_final post = ''ACCEPT''"
    "rv_changes v' = rv_changes demo_verdict"
  using demo_post_accepts by (cases "projr demo_post") (metis fst_conv snd_conv sum.collapse(2))

lemma accept_means_permitted_witness:
  "path_permitted (Some xss_policy) ''views/page.py'' \<and> gates_ok demo_verdict"
proof -
  obtain post v' fs' where p: "demo_post = Inr (post, v', fs')" "po_final post = ''ACCEPT''"
    by (rule demo_post_result)
  have "''views/page.py'' \<in> set (changed_files_whole_tree (pw_status demo_world)) \<union>
      ch_file ` set (rv_changes demo_verdict)"
    by (simp add: demo_verdict_def)
  from accept_means_permitted [OF p(1) [unfolded demo_post_def] p(2) this] show ?thesis by simp
qed

lemma post_gate_changes_permitted_witness:
  "path_permitted (Some xss_policy) (ch_file \<lparr>ch_file = ''views/page.py'', ch_summary = []\<rparr>)"
proof -
  obtain post v' fs' where p: "demo_post = Inr (post, v', fs')" "rv_changes v' = rv_changes demo_verdict"
    by (rule demo_post_result)
  have "\<lparr>ch_file = ''views/page.py'', ch_summary = []\<rparr> \<in> set (rv_changes v')"
    by (simp add: p(2) demo_verdict_def)
  from post_gate_changes_permitted [OF p(1) [unfolded demo_post_def] this] show ?thesis by simp
qed


section \<open>A tree without git\<close>

text \<open>
  Without git, every file of the tree that matches a pattern is a candidate, changed or not.
  A target that merely contains a build file is therefore downgraded whatever the agent did.
\<close>

lemma nongit_downgrade:
  assumes "pw_status w = None" "r \<in> set (take worktree_scan_max (pw_tree w))"
    and "list_ex (glob_match r) (gate_forbid_paths pol @ gate_deny_paths pol)" "\<not> path_permitted pol r"
    and "enforce_post pol w repo snap act agp v fs = Inr (post, v', fs')"
  shows "po_downgraded post \<and> po_final post = ''REJECT''"
proof -
  have "r \<in> set (worktree_forbidden_matches (pw_tree w) (gate_forbid_paths pol @ gate_deny_paths pol))"
    using assms(2,3) by (auto simp: worktree_forbidden_matches_def)
  then have "r \<in> set (post_candidates pol w v)"
    using assms(1) by (simp add: post_candidates_def Let_def changed_files_whole_tree_def)
  then have "forbidden_files pol (post_candidates pol w v) \<noteq> []"
    using assms(4) unfolding gate.bad_empty by blast
  with assms(5) show ?thesis by (auto simp: enforce_post_def Let_def split: prod.splits)
qed

end
