(* ===== verification/Select.thy ===== *)
theory Select
  imports PyVal Fnmatch Binary64 "HOL-Library.Multiset"
begin

text \<open>
  Choosing which findings to work on: the priority queue of
  \<open>remediation_agent/select/pq.py\<close>, the cap of \<open>select/topspec.py\<close>, and the selection of
  reports in \<open>validation/ingest/dto_loader.py\<close>.
\<close>

section \<open>The interface of a capped selection\<close>

text \<open>
  \<open>pick n xs\<close> returns the \<open>n\<close> items of highest key, in descending order, equal keys in the
  order of \<open>xs\<close>.  Two components provide it, one with a heap, one by sorting.
\<close>

locale capped_selection =
  fixes pick :: "nat \<Rightarrow> 'a list \<Rightarrow> 'a list" and key :: "'a \<Rightarrow> rat"
  assumes pick_prefix: "pick n xs = take n (pick (length xs) xs)"
    and pick_all: "mset (pick (length xs) xs) = mset xs"
    and pick_sorted: "sorted (map (\<lambda>x. - key x) (pick (length xs) xs))"
    and pick_stable: "filter (\<lambda>x. key x = k) (pick (length xs) xs) = filter (\<lambda>x. key x = k) xs"
begin

lemma pick_sort: "pick n xs = take n (sort_desc key xs)"
proof -
  have "sort_key (\<lambda>x. - key x) xs = pick (length xs) xs"
  proof (rule properties_for_sort_key)
    show "mset (pick (length xs) xs) = mset xs" by (rule pick_all)
    show "filter (\<lambda>y. - key x = - key y) (pick (length xs) xs) = filter (\<lambda>y. - key x = - key y) xs" for x
      using pick_stable [of "key x" xs] by (simp add: eq_commute)
    show "sorted (map (\<lambda>x. - key x) (pick (length xs) xs))" by (rule pick_sorted)
  qed
  then show ?thesis using pick_prefix [of n xs] by (simp add: sort_desc_def)
qed

lemma pick_length: "length (pick n xs) = min n (length xs)"
  by (simp add: pick_sort sort_desc_def)

lemma pick_subset: "set (pick n xs) \<subseteq> set xs"
  by (metis pick_sort set_sort set_take_subset sort_desc_def)

lemma pick_best:
  assumes "pick n xs = ps" "mset xs = mset ps + rest" "x \<in> set ps" "y \<in># rest"
  shows "key y \<le> key x"
proof -
  let ?s = "sort_desc key xs"
  have ps: "ps = take n ?s" using assms(1) pick_sort by simp
  have "mset ps + mset (drop n ?s) = mset xs"
    unfolding ps by (metis append_take_drop_id mset_append mset_sort sort_desc_def)
  then have "rest = mset (drop n ?s)" using assms(2) by (metis add_left_cancel)
  then have y: "y \<in> set (drop n ?s)" using assms(4) by simp
  have "sorted (map (\<lambda>x. - key x) (take n ?s @ drop n ?s))" by (simp add: sort_desc_def)
  then show ?thesis using assms(3) y unfolding ps map_append sorted_append by fastforce
qed

end

section \<open>The priority queue\<close>

text \<open>
  A heap of pairs is the list of what it holds; \<open>heappop\<close> removes the least pair, in the
  order of tuples.
\<close>

type_synonym heap = "(rat \<times> nat) list"

fun pair_le :: "rat \<times> nat \<Rightarrow> rat \<times> nat \<Rightarrow> bool" where
  "pair_le (a, i) (b, j) \<longleftrightarrow> a < b \<or> a = b \<and> i \<le> j"

fun heap_min :: "rat \<times> nat \<Rightarrow> heap \<Rightarrow> rat \<times> nat" where
  "heap_min p [] = p"
| "heap_min p (q # h) = heap_min (if pair_le p q then p else q) h"

fun heap_pops :: "nat \<Rightarrow> heap \<Rightarrow> nat list" where
  "heap_pops 0 h = []"
| "heap_pops (Suc n) [] = []"
| "heap_pops (Suc n) (p # h) =
     (let m = heap_min p h in snd m # heap_pops n (remove1 m (p # h)))"

definition band_scores :: "(pystr, rat) pydict" where
  "band_scores =
     [(''CRITICAL'', 9), (''HIGH'', 7), (''MEDIUM'', 4), (''LOW'', 1), (''INFO'', 0)]"

definition band_score :: "pystr option \<Rightarrow> rat" where
  "band_score severity =
     dict_get_or band_scores (py_upper (py_strip (case severity of Some s \<Rightarrow> s | None \<Rightarrow> []))) 0"

definition item_score :: "('a \<Rightarrow> rat option) \<Rightarrow> ('a \<Rightarrow> pystr option) \<Rightarrow> 'a \<Rightarrow> rat" where
  "item_score score_of severity_of it =
     (case score_of it of Some s \<Rightarrow> s | None \<Rightarrow> band_score (severity_of it))"

definition heap_select :: "('a \<Rightarrow> rat) \<Rightarrow> nat \<Rightarrow> 'a list \<Rightarrow> 'a list" where
  "heap_select score n items =
     map (\<lambda>i. items ! i)
       (heap_pops (min n (length items))
         (map (\<lambda>i. (- score (items ! i), i)) [0..<length items]))"

text \<open>\<open>None\<close> and a cap that is not positive return the input unchanged.\<close>

definition select_top_by_cvss ::
    "('a \<Rightarrow> rat option) \<Rightarrow> ('a \<Rightarrow> pystr option) \<Rightarrow> int option \<Rightarrow> 'a list \<Rightarrow> 'a list" where
  "select_top_by_cvss score_of severity_of n items =
     (case n of
        None \<Rightarrow> items
      | Some k \<Rightarrow>
          if k \<le> 0 then items
          else heap_select (item_score score_of severity_of) (nat k) items)"

section \<open>The cap\<close>

datatype top_value = AllFindings | Cap int

datatype value_error = ValueError

text \<open>
  \<open>int(token)\<close>: an optional sign and digits, with single underscores between digits; the
  token is already stripped.
\<close>

definition digit_groups :: "pystr \<Rightarrow> bool" where
  "digit_groups s \<longleftrightarrow> list_all py_isdigit (split_on (CHR ''_'') s)"

definition parse_int :: "pystr \<Rightarrow> int option" where
  "parse_int s =
     (let neg = prefix ''-'' s; body = (if neg \<or> prefix ''+'' s then drop 1 s else s)
      in if digit_groups body
         then Some ((if neg then -1 else 1) * int (digits_val (filter (\<lambda>c. c \<noteq> CHR ''_'') body)))
         else None)"

definition coerce_top_value :: "pystr \<Rightarrow> value_error + top_value" where
  "coerce_top_value raw =
     (let token = py_lower (py_strip raw) in
      if token = ''all'' \<or> token = ''*'' then Inr AllFindings
      else case parse_int token of
             Some n \<Rightarrow> if n \<le> 0 then Inl ValueError else Inr (Cap n)
           | None \<Rightarrow> Inl ValueError)"

fun parse_top_arg :: "pystr list \<Rightarrow> value_error + top_value option" where
  "parse_top_arg [] = Inr None"
| "parse_top_arg (a # args) =
     (if a = ''--top'' then
        (case args of
           [] \<Rightarrow> Inl ValueError
         | raw # _ \<Rightarrow> and_then (coerce_top_value raw) (\<lambda>t. Inr (Some t)))
      else if prefix ''--top='' a then
        and_then (coerce_top_value (drop 6 a)) (\<lambda>t. Inr (Some t))
      else parse_top_arg args)"

text \<open>
  The profile: \<open>None\<close> when the \<open>step_remediate\<close> block is absent, else the value of its
  \<open>top_n_findings\<close> key, \<open>PNone\<close> when missing.
\<close>

definition cfg_top_n_findings :: "(pyval \<Rightarrow> pystr) \<Rightarrow> pyval option \<Rightarrow> top_value option" where
  "cfg_top_n_findings rep block =
     (case block of
        None \<Rightarrow> None
      | Some raw \<Rightarrow>
          if raw = PNone then Some AllFindings
          else (case coerce_top_value (py_str rep raw) of
                  Inr t \<Rightarrow> Some t | Inl _ \<Rightarrow> Some AllFindings))"

definition resolve_top ::
    "(pyval \<Rightarrow> pystr) \<Rightarrow> top_value option \<Rightarrow> pyval option \<Rightarrow> int option" where
  "resolve_top rep cli block =
     (case (case cli of Some t \<Rightarrow> Some t | None \<Rightarrow> cfg_top_n_findings rep block) of
        Some (Cap n) \<Rightarrow> Some n | _ \<Rightarrow> None)"

section \<open>Selecting reports to validate\<close>

record dto_report =
  dr_finding_id :: pystr
  dr_status :: pystr
  dr_cvss :: rat

datatype ingest_error = NotFound "pystr list" | NotValidatable "pystr list"

definition is_validatable :: "pystr list \<Rightarrow> dto_report \<Rightarrow> bool" where
  "is_validatable statuses r \<longleftrightarrow> dr_status r \<in> set statuses"

definition top_by_cvss :: "nat \<Rightarrow> dto_report list \<Rightarrow> dto_report list" where
  "top_by_cvss limit reports = take limit (sort_desc dr_cvss reports)"

text \<open>A dictionary by id keeps the last report of an id.\<close>

definition reports_by_id :: "dto_report list \<Rightarrow> (pystr, dto_report) pydict" where
  "reports_by_id rs = fold (\<lambda>r d. dict_set (dr_finding_id r) r d) rs []"

definition select_by_id ::
    "pystr list \<Rightarrow> dto_report list \<Rightarrow> pystr list \<Rightarrow> ingest_error + dto_report list" where
  "select_by_id statuses reports ids =
     (let by_id = reports_by_id reports;
          missing = filter (\<lambda>i. dict_get by_id i = None) ids
      in if missing \<noteq> [] then Inl (NotFound missing)
         else
           let bad = filter (\<lambda>i. \<not> is_validatable statuses (the (dict_get by_id i))) ids
           in if bad \<noteq> [] then Inl (NotValidatable bad)
              else Inr (map (\<lambda>i. the (dict_get by_id i)) ids))"

definition select_reports ::
    "pystr list \<Rightarrow> dto_report list \<Rightarrow> pystr list option \<Rightarrow> int option \<Rightarrow> ingest_error + dto_report list" where
  "select_reports statuses reports ids max_findings =
     (case ids of
        Some is \<Rightarrow> select_by_id statuses reports is
      | None \<Rightarrow>
          let selected = filter (is_validatable statuses) reports in
          (case max_findings of
             Some m \<Rightarrow>
               if 0 < m \<and> m < int (length selected) then Inr (top_by_cvss (nat m) selected)
               else Inr selected
           | None \<Rightarrow> Inr selected))"

end
