(* ===== verification/SelectProps.thy ===== *)
theory SelectProps
  imports Select "HOL-Library.Product_Lexorder"
begin

text \<open>
  Both providers of the capped selection fulfil its contract; the priority queue is
  therefore a stable descending sort cut at the cap.
\<close>

section \<open>The heap\<close>

lemma pair_le_less_eq [simp]: "pair_le p q \<longleftrightarrow> p \<le> q"
  by (cases p; cases q) (auto simp: less_eq_prod_def)

lemma heap_min_Min: "heap_min p h = Min (set (p # h))"
proof (induction h arbitrary: p)
  case (Cons q h)
  have "Min (set (p # q # h)) = min p (Min (set (q # h)))" by (cases h) (auto intro: Min_insert)
  moreover have "Min (set ((if p \<le> q then p else q) # h)) = min p (Min (set (q # h)))"
    by (cases h) (auto simp: min_def not_le intro: antisym)
  ultimately show ?case using Cons by simp
qed simp

lemma sort_min_first:
  fixes xs :: "'a::linorder list"
  assumes "xs \<noteq> []"
  shows "sort xs = Min (set xs) # sort (remove1 (Min (set xs)) xs)"
proof (rule properties_for_sort)
  have m: "Min (set xs) \<in> set xs" using assms by (intro Min_in) auto
  then show "mset (Min (set xs) # sort (remove1 (Min (set xs)) xs)) = mset xs" by simp
  have "\<forall>x \<in> set (remove1 (Min (set xs)) xs). Min (set xs) \<le> x"
    using set_remove1_subset [of "Min (set xs)" xs] by (auto intro: Min_le)
  then show "sorted (Min (set xs) # sort (remove1 (Min (set xs)) xs))" by simp
qed

lemma heap_pops_sort: "heap_pops n h = take n (map snd (sort h))"
proof (induction n h rule: heap_pops.induct)
  case (3 n p h)
  have "sort (p # h) = heap_min p h # sort (remove1 (heap_min p h) (p # h))"
    using sort_min_first [of "p # h"] by (simp add: heap_min_Min)
  with 3 show ?case by (simp add: Let_def)
qed simp_all

lemma heap_select_sorted:
  "heap_select f n xs = take n (map (\<lambda>i. xs ! i) (map snd (sort (map (\<lambda>i. (- f (xs ! i), i)) [0..<length xs]))))"
  by (simp add: heap_select_def heap_pops_sort take_map min_def)

lemma sorted_tagged:
  fixes c :: rat and xs :: "nat list"
  shows "sorted xs \<Longrightarrow> sorted (map (\<lambda>i. (c, i)) xs)"
  by (induction xs) (auto simp: less_eq_prod_def)

lemma filter_tagged:
  fixes f :: "'a \<Rightarrow> rat" and ps :: "(rat \<times> nat) list"
  assumes "\<And>p. p \<in> set ps \<Longrightarrow> fst p = - f (xs ! snd p)"
  shows "filter (\<lambda>x. f x = k) (map (\<lambda>i. xs ! i) (map snd ps)) =
     map (\<lambda>i. xs ! i) (map snd (filter (\<lambda>p. fst p = - k) ps))"
  using assms by (induction ps) auto

interpretation queue: capped_selection "heap_select f" f for f :: "'a \<Rightarrow> rat"
proof
  fix n :: nat and xs :: "'a list" and k :: rat
  let ?ps = "map (\<lambda>i. (- f (xs ! i), i)) [0..<length xs]"
  have len: "length (sort ?ps) = length xs" by simp
  have all: "heap_select f (length xs) xs = map (\<lambda>i. xs ! i) (map snd (sort ?ps))"
    by (simp add: heap_select_sorted)
  show "heap_select f n xs = take n (heap_select f (length xs) xs)"
    by (simp add: heap_select_sorted)
  have "mset (map snd (sort ?ps)) = mset (map snd ?ps)" by (simp only: mset_map mset_sort)
  also have "map snd ?ps = [0..<length xs]" by (simp add: comp_def)
  finally have perm: "mset (map snd (sort ?ps)) = mset [0..<length xs]" .
  have "mset (map (\<lambda>i. xs ! i) (map snd (sort ?ps))) = mset (map (\<lambda>i. xs ! i) [0..<length xs])"
    unfolding mset_map [of "\<lambda>i. xs ! i"] perm ..
  then show "mset (heap_select f (length xs) xs) = mset xs" unfolding all by (simp add: map_nth)
  have fst: "p \<in> set (sort ?ps) \<Longrightarrow> fst p = - f (xs ! snd p)" for p by auto
  then have "map (\<lambda>x. - f x) (heap_select f (length xs) xs) = map fst (sort ?ps)"
    unfolding all by (auto simp: comp_def)
  also have "sorted (map fst (sort ?ps))"
  proof -
    have "sorted_wrt (\<lambda>p q. fst p \<le> fst q) (sort ?ps)"
      by (rule sorted_wrt_mono_rel [OF _ sorted_sort]) (auto simp: less_eq_prod_def)
    then show ?thesis by (simp add: sorted_map)
  qed
  finally show "sorted (map (\<lambda>x. - f x) (heap_select f (length xs) xs))" .
  have "filter (\<lambda>p. fst p = - k) (sort ?ps) = sort (filter (\<lambda>p. fst p = - k) ?ps)"
    by (simp add: filter_sort)
  also have "filter (\<lambda>p. fst p = - k) ?ps = map (\<lambda>i. (- k, i)) (filter (\<lambda>i. f (xs ! i) = k) [0..<length xs])"
    by (auto simp: filter_map comp_def intro: map_cong)
  also have "sort \<dots> = \<dots>"
    by (rule sorted_sort_id) (intro sorted_tagged sorted_wrt_filter sorted_upt)
  finally have s: "map snd (filter (\<lambda>p. fst p = - k) (sort ?ps)) = filter (\<lambda>i. f (xs ! i) = k) [0..<length xs]"
    by (simp add: comp_def)
  have "filter (\<lambda>x. f x = k) (heap_select f (length xs) xs) =
      map (\<lambda>i. xs ! i) (map snd (filter (\<lambda>p. fst p = - k) (sort ?ps)))"
    unfolding all by (rule filter_tagged) (use fst in blast)
  also have "\<dots> = filter (\<lambda>x. f x = k) (map (\<lambda>i. xs ! i) [0..<length xs])"
    unfolding s by (simp add: filter_map comp_def)
  finally show "filter (\<lambda>x. f x = k) (heap_select f (length xs) xs) = filter (\<lambda>x. f x = k) xs"
    by (simp only: map_nth)
qed

interpretation cvss: capped_selection top_by_cvss dr_cvss
proof
  fix n :: nat and xs :: "dto_report list" and k :: rat
  show "top_by_cvss n xs = take n (top_by_cvss (length xs) xs)"
    by (simp add: top_by_cvss_def sort_desc_def)
  show "mset (top_by_cvss (length xs) xs) = mset xs"
    by (simp add: top_by_cvss_def sort_desc_def)
  show "sorted (map (\<lambda>x. - dr_cvss x) (top_by_cvss (length xs) xs))"
    by (simp add: top_by_cvss_def sort_desc_def)
  have "filter (\<lambda>x. - dr_cvss x = - k) (sort_key (\<lambda>x. - dr_cvss x) xs) = filter (\<lambda>x. - dr_cvss x = - k) xs"
    by (rule sort_key_stable)
  then show "filter (\<lambda>x. dr_cvss x = k) (top_by_cvss (length xs) xs) = filter (\<lambda>x. dr_cvss x = k) xs"
    by (simp add: top_by_cvss_def sort_desc_def)
qed

section \<open>Properties\<close>

text \<open>
  C11.  The priority queue of the remediation agent computes the same selection as a stable
  descending sort: the \<open>min n |items|\<close> best items, best first, ties in report order.
\<close>

theorem select_top_is_sort:
  "select_top_by_cvss score_of severity_of n items =
     (case n of
        None \<Rightarrow> items
      | Some k \<Rightarrow>
          if k \<le> 0 then items
          else take (nat k) (sort_desc (item_score score_of severity_of) items))"
  by (simp add: select_top_by_cvss_def queue.pick_sort split: option.splits)

lemma coerce_positive: "coerce_top_value raw = Inr (Cap n) \<Longrightarrow> 0 < n"
  by (auto simp: coerce_top_value_def Let_def split: if_splits option.splits)

lemma parse_top_positive: "parse_top_arg args = Inr (Some (Cap n)) \<Longrightarrow> 0 < n"
  by (induction args rule: parse_top_arg.induct) (auto split: if_splits list.splits dest: coerce_positive)

text \<open>
  The effective cap is positive or absent, and a cap given on the command line, the
  wildcard included, overrides the profile.
\<close>

lemma resolve_top_cap:
  assumes "parse_top_arg args = Inr cli" "resolve_top rep cli block = Some n"
  shows "0 < n \<and> (\<forall>t. cli = Some t \<longrightarrow> t = Cap n)"
proof (cases cli)
  case None
  with assms(2) show ?thesis
    by (auto simp: resolve_top_def cfg_top_n_findings_def dest!: coerce_positive
        split: option.splits top_value.splits sum.splits if_splits)
next
  case (Some t)
  with assms parse_top_positive show ?thesis
    by (auto simp: resolve_top_def split: top_value.splits)
qed

lemma resolve_top_cap_witness:
  "resolve_top (\<lambda>_. []) (Some (Cap 12)) (Some (PInt 3)) = Some 12 \<and> 0 < (12 :: int)"
proof -
  have a: "parse_top_arg [''fix'', ''--top'', '' 1_2 ''] = Inr (Some (Cap 12))" by code_simp
  have r: "resolve_top (\<lambda>_. []) (Some (Cap 12)) (Some (PInt 3)) = Some 12"
    by (simp add: resolve_top_def)
  from resolve_top_cap [OF a r] r show ?thesis by simp
qed

text \<open>
  C12.  Without explicit ids, the reports selected for validation are validatable, at most
  the cap, in number exactly the smaller of cap and supply, and no validatable report left
  out has a higher CVSS score than a selected one.
\<close>

theorem select_reports_best:
  assumes "select_reports statuses reports None (Some cap) = Inr sel" "0 < cap"
  shows "length sel = min (nat cap) (length (filter (is_validatable statuses) reports)) \<and>
     set sel \<subseteq> {r \<in> set reports. dr_status r \<in> set statuses} \<and>
     (\<forall>rest. mset (filter (is_validatable statuses) reports) = mset sel + rest \<longrightarrow>
        (\<forall>x \<in> set sel. \<forall>y \<in># rest. dr_cvss y \<le> dr_cvss x))"
proof -
  let ?v = "filter (is_validatable statuses) reports"
  show ?thesis
  proof (cases "cap < int (length ?v)")
    case True
    then have sel: "top_by_cvss (nat cap) ?v = sel" using assms by (simp add: select_reports_def)
    then have "length sel = min (nat cap) (length ?v)" using cvss.pick_length by metis
    moreover have "set sel \<subseteq> set ?v" using sel cvss.pick_subset by metis
    moreover have "dr_cvss y \<le> dr_cvss x" if "mset ?v = mset sel + rest" "x \<in> set sel" "y \<in># rest" for rest x y
      by (rule cvss.pick_best [OF sel that])
    ultimately show ?thesis by (auto simp: is_validatable_def)
  next
    case False
    then have "sel = ?v" using assms by (simp add: select_reports_def)
    with False show ?thesis by (auto simp: is_validatable_def)
  qed
qed

definition sample_dto :: "pystr \<Rightarrow> pystr \<Rightarrow> rat \<Rightarrow> dto_report" where
  "sample_dto i s c = \<lparr>dr_finding_id = i, dr_status = s, dr_cvss = c\<rparr>"

lemma select_reports_best_witness:
  "\<exists>sel. select_reports [''needs_review''] [sample_dto ''a'' ''needs_review'' 5, sample_dto ''b'' ''validated'' 10,
       sample_dto ''c'' ''needs_review'' 9] None (Some 1) = Inr sel \<and> length sel = 1"
proof -
  let ?sel = "select_reports [''needs_review''] [sample_dto ''a'' ''needs_review'' 5,
      sample_dto ''b'' ''validated'' 10, sample_dto ''c'' ''needs_review'' 9] None (Some 1)"
  have "\<exists>sel. ?sel = Inr sel" by (simp add: select_reports_def Let_def)
  then obtain sel where s: "?sel = Inr sel" by blast
  from select_reports_best [OF s] have "length sel = 1"
    by (simp add: is_validatable_def sample_dto_def)
  with s show ?thesis by blast
qed

end
