(* ===== verification/PyText.thy ===== *)
theory PyText
  imports Prelude
begin

text \<open>
  Further string operations of Python: \<open>partition\<close> and \<open>rpartition\<close> at a separator, and the
  decimal text of an integer read back.
\<close>

section \<open>Splitting at a separator\<close>

text \<open>\<open>None\<close> when the separator does not occur; else what is before and after it.\<close>

fun cut_first :: "pystr \<Rightarrow> pystr \<Rightarrow> (pystr \<times> pystr) option" where
  "cut_first sep [] = (if sep = [] then Some ([], []) else None)"
| "cut_first sep (c # cs) =
     (if prefix sep (c # cs) then Some ([], drop (length sep) (c # cs))
      else map_option (\<lambda>(a, b). (c # a, b)) (cut_first sep cs))"

fun cut_last :: "pystr \<Rightarrow> pystr \<Rightarrow> (pystr \<times> pystr) option" where
  "cut_last sep [] = (if sep = [] then Some ([], []) else None)"
| "cut_last sep (c # cs) =
     (case cut_last sep cs of
        Some (a, b) \<Rightarrow> Some (c # a, b)
      | None \<Rightarrow> if prefix sep (c # cs) then Some ([], drop (length sep) (c # cs)) else None)"

lemma cut_first_Some: "cut_first sep s = Some (a, b) \<Longrightarrow> s = a @ sep @ b"
  by (induction sep s arbitrary: a b rule: cut_first.induct) (auto simp: prefix_def split: if_splits)

lemma cut_last_Some: "cut_last sep s = Some (a, b) \<Longrightarrow> s = a @ sep @ b"
  by (induction sep s arbitrary: a b rule: cut_last.induct)
    (auto simp: prefix_def split: if_splits option.splits)

text \<open>The last cut leaves no later occurrence of a one-character separator.\<close>

lemma cut_last_None: "cut_last [d] s = None \<longleftrightarrow> d \<notin> set s"
  by (induction s) (auto split: option.splits)

lemma cut_last_append:
  assumes "d \<notin> set b"
  shows "cut_last [d] (a @ d # b) = Some (a, b)"
proof (induction a)
  case Nil
  from assms have "cut_last [d] b = None" by (simp add: cut_last_None)
  then show ?case by simp
qed simp

lemma sublist_Cons_tl: "\<not> sublist sep b \<Longrightarrow> b = c # b' \<Longrightarrow> \<not> sublist sep b'"
  by (auto simp: sublist_Cons_right)

lemma cut_last_None_sublist: "cut_last sep s = None \<longleftrightarrow> \<not> sublist sep s"
  by (induction s) (auto simp: sublist_Cons_right split: option.splits)

section \<open>Numbers as text\<close>

lemma char_digit: "n < 10 \<Longrightarrow> py_digit (char_of (48 + n :: nat)) \<and> digit_val (char_of (48 + n :: nat)) = n"
  by (simp add: py_digit_def digit_val_def Let_def of_char_of)

lemma digits_val_snoc: "digits_val (s @ [c]) = 10 * digits_val s + digit_val c"
  by (simp add: digits_val_def)

lemma show_nat_digits: "py_isdigit (show_nat n) \<and> digits_val (show_nat n) = n"
proof (induction n rule: show_nat.induct)
  case (1 n)
  show ?case
  proof (cases "n < 10")
    case True
    with char_digit [OF True] show ?thesis
      by (simp add: show_nat.simps [of n] py_isdigit_def digits_val_def)
  next
    case False
    have m: "n mod 10 < 10" by simp
    from 1 [OF False] char_digit [OF m] False show ?thesis
      by (simp add: show_nat.simps [of n] py_isdigit_def digits_val_snoc)
  qed
qed

lemma isdigit_no_colon: "py_isdigit s \<Longrightarrow> CHR '':'' \<notin> set s"
  by (auto simp: py_isdigit_def list_all_iff py_digit_def Let_def)

text \<open>\<open>s.startswith\<close> stripped repeatedly, as \<open>while s.startswith("./"): s = s[2:]\<close>.\<close>

fun strip_dot_slash :: "pystr \<Rightarrow> pystr" where
  "strip_dot_slash (a # b # s) =
     (if a = CHR ''.'' \<and> b = CHR ''/'' then strip_dot_slash s else a # b # s)"
| "strip_dot_slash s = s"

lemma strip_dot_slash_done: "\<not> prefix ''./'' (strip_dot_slash s)"
  by (induction s rule: strip_dot_slash.induct) auto

lemma strip_dot_slash_idem [simp]: "strip_dot_slash (strip_dot_slash s) = strip_dot_slash s"
  by (induction s rule: strip_dot_slash.induct) auto

end
