(* ===== verification/CallGraph.thy ===== *)
theory CallGraph
  imports PyText
begin

text \<open>
  The call-graph views that the later stages share (\<open>pipeline/callgraph_consumer.py\<close>): hops
  and references, seed paths and evidence by file, entry anchors, the span index, the reverse
  edges and the functions at a place.  The context is the part of \<open>ContextPackage\<close> they read.
\<close>

section \<open>Data\<close>

record entry_point =
  ep_file :: pystr
  ep_function :: pystr
  ep_kind :: pystr
  ep_reachable_from_unauth :: bool

record symbol_ref =
  sr_qnode :: pystr
  sr_symbol :: pystr
  sr_kind :: pystr

text \<open>The class of a taint edge: the base class, or one of its subclasses.\<close>

datatype edge_class = TransferEdge | ConditionEdge | ReflectionEdge | FrameworkEdge

record taint_edge =
  te_file :: pystr
  te_line :: int
  te_function_qnode :: pystr
  te_src :: symbol_ref
  te_dst :: symbol_ref
  te_transfer_kind :: pystr
  te_class :: edge_class

record evidence_path =
  ev_source_ref :: pystr
  ev_sink_ref :: pystr
  ev_path_funcs :: "pystr list"
  ev_edges :: "taint_edge list"
  ev_sink_cwe :: "pystr list"
  ev_sanitized :: bool

record context_package =
  cp_call_graph :: "(pystr, pystr list) pydict"
  cp_call_graph_files :: "(pystr, pystr list) pydict"
  cp_def_spans :: "(pystr, int list) pydict"
  cp_seed_taint_paths :: "pystr list list"
  cp_seed_taint_evidence :: "evidence_path list"
  cp_entry_points :: "entry_point list"
  cp_all_files :: "pystr list"

section \<open>Names, hops and references\<close>

definition qsep :: pystr where "qsep = ''::''"

definition q_join :: "pystr \<Rightarrow> pystr \<Rightarrow> pystr" where
  "q_join f n = f @ qsep @ n"

text \<open>\<open>rpartition\<close> gives an empty first part when the separator is absent.\<close>

definition q_split :: "pystr \<Rightarrow> pystr \<times> pystr" where
  "q_split qname = (case cut_last qsep qname of Some fn \<Rightarrow> fn | None \<Rightarrow> ([], qname))"

definition q_file :: "pystr \<Rightarrow> pystr" where "q_file qname = fst (q_split qname)"

definition q_name :: "pystr \<Rightarrow> pystr" where "q_name qname = snd (q_split qname)"

definition parse_hop :: "pystr \<Rightarrow> pystr \<times> int option" where
  "parse_hop hop =
     (case cut_last '':'' hop of
        None \<Rightarrow> (hop, None)
      | Some (file_part, line_part) \<Rightarrow>
          if file_part \<noteq> [] \<and> py_isdigit line_part
          then (file_part, Some (max 1 (int (digits_val line_part))))
          else (hop, None))"

definition norm_file :: "pystr option \<Rightarrow> pystr" where
  "norm_file path =
     strip_dot_slash (replace_char (CHR 0x5C) (CHR ''/'')
       (py_strip (case path of Some p \<Rightarrow> p | None \<Rightarrow> [])))"

definition nonempty :: "pystr \<Rightarrow> pystr option" where
  "nonempty s = (if s = [] then None else Some s)"

definition file_from_ref :: "pystr option \<Rightarrow> pystr option" where
  "file_from_ref ref =
     (let raw = py_strip (case ref of Some r \<Rightarrow> r | None \<Rightarrow> []) in
      if raw = [] then None
      else case cut_first qsep raw of
        Some (file_part, _) \<Rightarrow> nonempty (norm_file (Some file_part))
      | None \<Rightarrow>
          (case cut_last '':'' raw of
             Some (file_part, line_part) \<Rightarrow>
               if file_part \<noteq> [] \<and> py_isdigit line_part then nonempty (norm_file (Some file_part))
               else nonempty (norm_file (Some raw))
           | None \<Rightarrow> nonempty (norm_file (Some raw))))"

section \<open>Seed paths and evidence by file\<close>

text \<open>A Python set of file names is the list of its elements in first-insertion order.\<close>

definition evidence_touched_files :: "evidence_path \<Rightarrow> pystr list" where
  "evidence_touched_files e =
     fromkeys (
       (case file_from_ref (Some (ev_source_ref e)) of Some f \<Rightarrow> [f] | None \<Rightarrow> []) @
       (case file_from_ref (Some (ev_sink_ref e)) of Some f \<Rightarrow> [f] | None \<Rightarrow> []) @
       filter (\<lambda>f. f \<noteq> []) (map (\<lambda>edge. norm_file (Some (te_file edge))) (ev_edges e)))"

definition hop_files :: "pystr list \<Rightarrow> pystr list" where
  "hop_files path = fromkeys (filter (\<lambda>f. f \<noteq> []) (map (\<lambda>hop. fst (parse_hop hop)) path))"

definition seed_reachable_files :: "pystr list list \<Rightarrow> pystr list" where
  "seed_reachable_files paths =
     fromkeys (concat (map (\<lambda>path.
       filter (\<lambda>f. f \<noteq> []) (map (\<lambda>hop. fst (parse_hop hop)) (filter (\<lambda>hop. hop \<noteq> []) path))) paths))"

definition seed_paths_by_file :: "pystr list list \<Rightarrow> (pystr, pystr list list) pydict" where
  "seed_paths_by_file paths =
     fold (\<lambda>path out. fold (\<lambda>f. dict_append f path) (hop_files path) out) paths []"

fun best_source_from_seed :: "pystr list list \<Rightarrow> pystr option" where
  "best_source_from_seed [] = None"
| "best_source_from_seed (path # paths) =
     (case path of
        [] \<Rightarrow> best_source_from_seed paths
      | src # _ \<Rightarrow>
          (case parse_hop src of
             (sf, Some sl) \<Rightarrow>
               if sf \<noteq> [] then Some (sf @ '':'' @ show_int sl)
               else if src \<noteq> [] then Some src else best_source_from_seed paths
           | (sf, None) \<Rightarrow> if src \<noteq> [] then Some src else best_source_from_seed paths))"

definition seed_evidence_reachable_files :: "evidence_path list \<Rightarrow> pystr list" where
  "seed_evidence_reachable_files es = fromkeys (concat (map evidence_touched_files es))"

definition seed_evidence_by_file :: "evidence_path list \<Rightarrow> (pystr, evidence_path list) pydict" where
  "seed_evidence_by_file es =
     fold (\<lambda>e out. fold (\<lambda>f. dict_append f e) (evidence_touched_files e) out) es []"

fun edge_source :: "taint_edge list \<Rightarrow> pystr option" where
  "edge_source [] = None"
| "edge_source (edge # edges) =
     (let f = norm_file (Some (te_file edge)) in
      if f = [] then edge_source edges
      else Some (f @ '':'' @ show_int (max 1 (te_line edge))))"

fun best_source_from_evidence :: "evidence_path list \<Rightarrow> pystr option" where
  "best_source_from_evidence [] = None"
| "best_source_from_evidence (e # es) =
     (if py_strip (ev_source_ref e) \<noteq> [] then Some (py_strip (ev_source_ref e))
      else case edge_source (ev_edges e) of
             Some s \<Rightarrow> Some s
           | None \<Rightarrow> best_source_from_evidence es)"

definition condition_edges_in_evidence :: "evidence_path \<Rightarrow> taint_edge list" where
  "condition_edges_in_evidence e = filter (\<lambda>d. te_class d = ConditionEdge) (ev_edges e)"

definition reflection_edges_in_evidence :: "evidence_path \<Rightarrow> taint_edge list" where
  "reflection_edges_in_evidence e = filter (\<lambda>d. te_class d = ReflectionEdge) (ev_edges e)"

section \<open>Entry anchors\<close>

definition site_anchors :: "entry_point \<Rightarrow> pystr list \<Rightarrow> int list" where
  "site_anchors ep sites =
     List.map_filter (\<lambda>site.
       case cut_last '':'' site of
         None \<Rightarrow> None
       | Some (sf, sl) \<Rightarrow>
           if sf = ep_file ep \<and> py_isdigit sl then Some (max 1 (int (digits_val sl))) else None) sites"

text \<open>The first definition span of the entry point's own function.\<close>

definition span_anchor :: "entry_point \<Rightarrow> (pystr, int list) pydict \<Rightarrow> int option" where
  "span_anchor ep spans =
     map_option (\<lambda>p. max 1 (hd (snd p)))
       (find (\<lambda>p. q_file (fst p) = ep_file ep \<and> q_name (fst p) = ep_function ep \<and> snd p \<noteq> []) spans)"

definition entry_anchors_of :: "context_package \<Rightarrow> entry_point \<Rightarrow> int list" where
  "entry_anchors_of ctx ep =
     (let sites = site_anchors ep (dict_get_or (cp_call_graph_files ctx) (ep_function ep) [])
      in if sites \<noteq> [] then sites
         else case span_anchor ep (cp_def_spans ctx) of
                Some l \<Rightarrow> [l]
              | None \<Rightarrow> if ep_file ep \<noteq> [] then [1] else [])"

definition entry_anchor_lines :: "context_package \<Rightarrow> (pystr, int list) pydict" where
  "entry_anchor_lines ctx =
     map (\<lambda>(f, ls). (f, sort (fromkeys ls)))
       (fold (\<lambda>ep out. fold (\<lambda>l. dict_append (ep_file ep) l) (entry_anchors_of ctx ep) out)
         (cp_entry_points ctx) [])"

section \<open>The shared indices\<close>

definition span_of :: "int list \<Rightarrow> (int \<times> int) option" where
  "span_of sp =
     (case sp of
        [] \<Rightarrow> None
      | lo # rest \<Rightarrow> Some (lo, max lo (case rest of [] \<Rightarrow> lo | hi # _ \<Rightarrow> hi)))"

text \<open>The spans of a file in the order of the tuples \<open>(lo, hi, qnode)\<close>.\<close>

definition span_less_eq :: "int \<times> int \<times> pystr \<Rightarrow> int \<times> int \<times> pystr \<Rightarrow> bool" where
  "span_less_eq x y \<longleftrightarrow>
     fst x < fst y \<or> fst x = fst y \<and>
       (fst (snd x) < fst (snd y) \<or> fst (snd x) = fst (snd y) \<and> snd (snd x) \<le> snd (snd y))"

fun insert_span :: "int \<times> int \<times> pystr \<Rightarrow> (int \<times> int \<times> pystr) list \<Rightarrow> (int \<times> int \<times> pystr) list" where
  "insert_span x [] = [x]"
| "insert_span x (y # ys) = (if span_less_eq x y then x # y # ys else y # insert_span x ys)"

definition sort_spans :: "(int \<times> int \<times> pystr) list \<Rightarrow> (int \<times> int \<times> pystr) list" where
  "sort_spans xs = foldr insert_span xs []"

definition build_span_index :: "context_package \<Rightarrow> (pystr, (int \<times> int \<times> pystr) list) pydict" where
  "build_span_index ctx =
     map (\<lambda>(f, xs). (f, sort_spans xs))
       (fold (\<lambda>(qn, sp) out.
          case span_of sp of
            None \<Rightarrow> out
          | Some (lo, hi) \<Rightarrow> if q_file qn = [] then out else dict_append (q_file qn) (lo, hi, qn) out)
         (cp_def_spans ctx) [])"

text \<open>\<open>out[k].append(v)\<close> behind a per-key \<open>seen\<close> set.\<close>

definition dict_add_new :: "'k \<Rightarrow> 'v \<Rightarrow> ('k, 'v list) pydict \<Rightarrow> ('k, 'v list) pydict" where
  "dict_add_new k v out =
     (if v \<in> set (dict_get_or out k []) then out else dict_append k v out)"

definition graph_qnodes_by_file :: "context_package \<Rightarrow> (pystr, pystr list) pydict" where
  "graph_qnodes_by_file ctx =
     fold (\<lambda>(caller, callees) out.
       fold (\<lambda>qn out. if q_file qn = [] then out else dict_add_new (q_file qn) qn out)
         (caller # callees) out)
       (cp_call_graph ctx) []"

definition reverse_edges :: "context_package \<Rightarrow> (pystr, pystr list) pydict" where
  "reverse_edges ctx =
     fold (\<lambda>(caller, callees) rev. fold (\<lambda>callee. dict_add_new callee caller) callees rev)
       (cp_call_graph ctx) []"

record graph_view =
  gv_forward :: "(pystr, pystr list) pydict"
  gv_span_index :: "(pystr, (int \<times> int \<times> pystr) list) pydict"
  gv_file_qnodes :: "(pystr, pystr list) pydict"
  gv_rev :: "(pystr, pystr list) pydict"

definition graph_view_of :: "context_package \<Rightarrow> graph_view" where
  "graph_view_of ctx =
     \<lparr>gv_forward = cp_call_graph ctx, gv_span_index = build_span_index ctx,
      gv_file_qnodes = graph_qnodes_by_file ctx, gv_rev = reverse_edges ctx\<rparr>"

section \<open>Functions at a place\<close>

text \<open>\<open>int(line_start or 1)\<close> on an integer.\<close>

definition line_or :: "int \<Rightarrow> int \<Rightarrow> int" where
  "line_or l d = (if l = 0 then d else l)"

definition overlaps_window :: "int \<Rightarrow> int \<Rightarrow> int \<times> int \<times> pystr \<Rightarrow> bool" where
  "overlaps_window start stop s \<longleftrightarrow> fst s \<le> stop \<and> start \<le> fst (snd s)"

definition span_distance :: "int \<Rightarrow> int \<Rightarrow> int \<times> int \<times> pystr \<Rightarrow> int" where
  "span_distance start stop s = min \<bar>start - fst (snd s)\<bar> \<bar>stop - fst s\<bar>"

text \<open>The first element of the sorted list of pairs of distance and name.\<close>

fun nearest :: "int \<times> pystr \<Rightarrow> (int \<times> pystr) list \<Rightarrow> int \<times> pystr" where
  "nearest b [] = b"
| "nearest b (x # xs) =
     nearest (if fst x < fst b \<or> fst x = fst b \<and> snd x < snd b then x else b) xs"

definition qnodes_at ::
    "graph_view \<Rightarrow> pystr \<Rightarrow> int \<Rightarrow> int \<Rightarrow> nat \<Rightarrow> bool \<Rightarrow> pystr list" where
  "qnodes_at view f line_start line_end limit nearest_if_empty =
     (let f = replace_char (CHR 0x5C) (CHR ''/'') f;
          start = max 1 (line_or line_start 1);
          stop = max start (line_or line_end start);
          spans = dict_get_or (gv_span_index view) f [];
          exact = map (snd \<circ> snd) (filter (overlaps_window start stop) spans);
          nearby = map (\<lambda>s. (span_distance start stop s, snd (snd s)))
            (filter (\<lambda>s. \<not> overlaps_window start stop s) spans);
          cg = dict_get_or (gv_file_qnodes view) f []
      in if exact \<noteq> [] then take limit (fromkeys exact)
         else if cg \<noteq> [] then take limit (fromkeys cg)
         else if nearest_if_empty then
           (case nearby of [] \<Rightarrow> [] | n # ns \<Rightarrow> [snd (nearest n ns)])
         else [])"

definition neighborhood ::
    "graph_view \<Rightarrow> pystr list \<Rightarrow> nat \<Rightarrow> (pystr, pystr list \<times> pystr list) pydict" where
  "neighborhood view qnodes max_edges =
     fold (\<lambda>qn. dict_set qn
       (take max_edges (dict_get_or (gv_rev view) qn []),
        take max_edges (dict_get_or (gv_forward view) qn [])))
       qnodes []"

end
