(* ===== verification/CallGraphProps.thy ===== *)
theory CallGraphProps
  imports CallGraph
begin

text \<open>
  The shared indices say exactly what the call graph says, and a function reported at a place
  belongs to that file.
\<close>

section \<open>Indexing by a fold\<close>

lemma fold_flatten:
  "fold (\<lambda>x acc. fold f (g x) acc) xs acc = fold f (concat (map g xs)) acc"
  by (induction xs arbitrary: acc) simp_all

lemma set_dict_add_new:
  "set (dict_get_or (dict_add_new k v d) k' []) =
     set (dict_get_or d k' []) \<union> (if k = k' then {v} else {})"
  by (auto simp: dict_add_new_def dict_get_or_def dict_get_append split: option.splits)

lemma set_dict_append:
  "set (dict_get_or (dict_append k v d) k' []) =
     set (dict_get_or d k' []) \<union> (if k = k' then {v} else {})"
  by (auto simp: dict_get_or_def dict_get_append split: option.splits)

lemma distinct_dict_add_new:
  "distinct (dict_get_or d k' []) \<Longrightarrow> distinct (dict_get_or (dict_add_new k v d) k' [])"
  by (auto simp: dict_add_new_def dict_get_or_def dict_get_append split: option.splits)

lemma set_fold_add:
  "set (dict_get_or (fold (\<lambda>p. dict_add_new (fst p) (snd p)) ps d) k []) =
     set (dict_get_or d k []) \<union> {v. (k, v) \<in> set ps}"
  by (induction ps arbitrary: d) (auto simp: set_dict_add_new)

lemma distinct_fold_add:
  "distinct (dict_get_or d k []) \<Longrightarrow>
     distinct (dict_get_or (fold (\<lambda>p. dict_add_new (fst p) (snd p)) ps d) k [])"
  by (induction ps arbitrary: d) (simp_all add: distinct_dict_add_new)

lemma dict_get_or_Nil [simp]: "dict_get_or [] k v = v"
  by (simp add: dict_get_or_def)

section \<open>Reverse edges and file membership\<close>

lemma reverse_edges_flat:
  "reverse_edges ctx = fold (\<lambda>p. dict_add_new (fst p) (snd p))
     (concat (map (\<lambda>e. map (\<lambda>c. (c, fst e)) (snd e)) (cp_call_graph ctx))) []"
proof -
  have "reverse_edges ctx = fold (\<lambda>e rev. fold (\<lambda>p. dict_add_new (fst p) (snd p))
      (map (\<lambda>c. (c, fst e)) (snd e)) rev) (cp_call_graph ctx) []"
    unfolding reverse_edges_def by (rule fold_cong) (auto simp: fold_map comp_def)
  then show ?thesis by (simp only: fold_flatten)
qed

lemma qnodes_flat:
  "graph_qnodes_by_file ctx = fold (\<lambda>p. dict_add_new (fst p) (snd p))
     (concat (map (\<lambda>e. map (\<lambda>q. (q_file q, q)) (filter (\<lambda>q. q_file q \<noteq> []) (fst e # snd e)))
       (cp_call_graph ctx))) []"
proof -
  have f: "fold (\<lambda>qn out. if q_file qn = [] then out else dict_add_new (q_file qn) qn out) qs d =
      fold (\<lambda>p. dict_add_new (fst p) (snd p)) (map (\<lambda>q. (q_file q, q)) (filter (\<lambda>q. q_file q \<noteq> []) qs)) d"
    for qs d by (induction qs arbitrary: d) simp_all
  have "graph_qnodes_by_file ctx = fold (\<lambda>e d. fold (\<lambda>p. dict_add_new (fst p) (snd p))
      (map (\<lambda>q. (q_file q, q)) (filter (\<lambda>q. q_file q \<noteq> []) (fst e # snd e))) d) (cp_call_graph ctx) []"
    unfolding graph_qnodes_by_file_def f by (rule fold_cong) auto
  then show ?thesis by (simp only: fold_flatten)
qed

lemma in_qnodes_by_file:
  "q \<in> set (dict_get_or (graph_qnodes_by_file ctx) f []) \<longleftrightarrow>
     f \<noteq> [] \<and> q_file q = f \<and> (\<exists>e \<in> set (cp_call_graph ctx). q = fst e \<or> q \<in> set (snd e))"
  unfolding qnodes_flat set_fold_add by auto

lemma in_reverse_edges:
  "caller \<in> set (dict_get_or (reverse_edges ctx) callee []) \<longleftrightarrow>
     (\<exists>callees. (caller, callees) \<in> set (cp_call_graph ctx) \<and> callee \<in> set callees)"
  unfolding reverse_edges_flat set_fold_add by (auto simp: Bex_def)

text \<open>
  The reverse index is exactly the inverse of the call graph, each caller once, and the
  membership index lists under a file exactly the callers and callees qualified with it.
\<close>

lemma shared_indices_exact:
  "(caller \<in> set (dict_get_or (gv_rev (graph_view_of ctx)) callee []) \<longleftrightarrow>
      (\<exists>callees. (caller, callees) \<in> set (gv_forward (graph_view_of ctx)) \<and> callee \<in> set callees)) \<and>
   distinct (dict_get_or (gv_rev (graph_view_of ctx)) callee []) \<and>
   (q \<in> set (dict_get_or (gv_file_qnodes (graph_view_of ctx)) f []) \<longleftrightarrow>
      f \<noteq> [] \<and> q_file q = f \<and>
      (\<exists>callees. (q, callees) \<in> set (cp_call_graph ctx) \<or>
         (\<exists>c. (c, callees) \<in> set (cp_call_graph ctx) \<and> q \<in> set callees))) \<and>
   distinct (dict_get_or (gv_file_qnodes (graph_view_of ctx)) f [])"
proof -
  have "distinct (dict_get_or (reverse_edges ctx) callee [])"
    unfolding reverse_edges_flat by (rule distinct_fold_add) simp
  moreover have "distinct (dict_get_or (graph_qnodes_by_file ctx) f [])"
    unfolding qnodes_flat by (rule distinct_fold_add) simp
  moreover have "(\<exists>e \<in> set (cp_call_graph ctx). q = fst e \<or> q \<in> set (snd e)) \<longleftrightarrow>
      (\<exists>callees. (q, callees) \<in> set (cp_call_graph ctx) \<or>
         (\<exists>c. (c, callees) \<in> set (cp_call_graph ctx) \<and> q \<in> set callees))"
    by force
  ultimately show ?thesis
    using in_qnodes_by_file [of q ctx f] in_reverse_edges [of caller ctx callee]
    unfolding graph_view_of_def graph_view.simps by blast
qed

section \<open>The span index\<close>

lemma set_insert_span [simp]: "set (insert_span x xs) = insert x (set xs)"
  by (induction xs) auto

lemma set_sort_spans [simp]: "set (sort_spans xs) = set xs"
  by (induction xs) (simp_all add: sort_spans_def)

lemma dict_get_map_vals: "dict_get (map (\<lambda>(f, xs). (f, g xs)) d) k = map_option g (dict_get d k)"
  by (induction d) auto

lemma span_index_fold:
  "s \<in> set (dict_get_or (fold (\<lambda>(qn, sp) out.
      case span_of sp of None \<Rightarrow> out
      | Some (lo, hi) \<Rightarrow> if q_file qn = [] then out else dict_append (q_file qn) (lo, hi, qn) out) spans d) f [])
   \<longleftrightarrow> s \<in> set (dict_get_or d f []) \<or>
     (\<exists>sp. (snd (snd s), sp) \<in> set spans \<and> span_of sp = Some (fst s, fst (snd s)) \<and>
        q_file (snd (snd s)) = f \<and> f \<noteq> [])"
proof (induction spans arbitrary: d)
  case (Cons x spans)
  obtain qn sp where x: "x = (qn, sp)" by (cases x)
  show ?case
  proof (cases "span_of sp")
    case None
    then show ?thesis using Cons x by auto
  next
    case (Some lh)
    obtain lo hi where "lh = (lo, hi)" by (cases lh)
    with Some x show ?thesis
      by (simp add: Cons.IH set_dict_append) (auto simp: prod_eq_iff)
  qed
qed simp

lemma in_span_index:
  "s \<in> set (dict_get_or (build_span_index ctx) f []) \<longleftrightarrow>
     (\<exists>sp. (snd (snd s), sp) \<in> set (cp_def_spans ctx) \<and> span_of sp = Some (fst s, fst (snd s)) \<and>
        q_file (snd (snd s)) = f \<and> f \<noteq> [])"
proof -
  have "set (dict_get_or (map (\<lambda>(f, xs). (f, sort_spans xs)) d) f []) = set (dict_get_or d f [])" for d
    by (simp add: dict_get_or_def dict_get_map_vals split: option.splits)
  then show ?thesis unfolding build_span_index_def by (simp add: span_index_fold)
qed

lemma nearest_in: "nearest b xs \<in> insert b (set xs)"
  by (induction b xs rule: nearest.induct) auto

text \<open>The function \<open>q\<close> has a definition span that meets the lines \<open>start\<close> to \<open>stop\<close>.\<close>

definition defined_at :: "context_package \<Rightarrow> pystr \<Rightarrow> int \<Rightarrow> int \<Rightarrow> bool" where
  "defined_at ctx q start stop \<longleftrightarrow>
     (\<exists>sp lo hi. (q, sp) \<in> set (cp_def_spans ctx) \<and> span_of sp = Some (lo, hi) \<and>
        lo \<le> stop \<and> start \<le> hi)"

lemma set_take_fromkeys: "set (take n (fromkeys xs)) \<subseteq> set xs"
  using set_take_subset [of n "fromkeys xs"] by simp

lemma in_exact:
  "q \<in> set (map (snd \<circ> snd) (filter (overlaps_window a b) (dict_get_or (build_span_index ctx) f []))) \<longleftrightarrow>
     defined_at ctx q a b \<and> q_file q = f \<and> f \<noteq> []"
proof -
  have "q \<in> set (map (snd \<circ> snd) (filter (overlaps_window a b) (dict_get_or (build_span_index ctx) f []))) \<longleftrightarrow>
      (\<exists>lo hi. (lo, hi, q) \<in> set (dict_get_or (build_span_index ctx) f []) \<and> lo \<le> b \<and> a \<le> hi)"
    by (force simp: overlaps_window_def)
  then show ?thesis by (auto simp: in_span_index defined_at_def)
qed

text \<open>
  Looking functions up at a place is sound and, within the limit, complete: what it
  reports belongs to the file, and when a definition of the file meets the lines, the report is
  of such definitions only and misses none unless the limit is reached.
\<close>

lemma qnodes_at_exact:
  assumes "qs = qnodes_at (graph_view_of ctx) f line_start line_end limit nearest_if_empty"
    and "start = max 1 (line_or line_start 1)" "stop = max start (line_or line_end start)"
    and "g = replace_char (CHR 0x5C) (CHR ''/'') f"
  shows "(\<forall>q \<in> set qs. q_file q = g) \<and> distinct qs \<and>
    ((\<exists>q. defined_at ctx q start stop \<and> q_file q = g \<and> g \<noteq> []) \<longrightarrow>
       length qs \<le> limit \<and> (\<forall>q \<in> set qs. defined_at ctx q start stop) \<and>
       (length qs < limit \<longrightarrow> (\<forall>q. defined_at ctx q start stop \<and> q_file q = g \<and> g \<noteq> [] \<longrightarrow> q \<in> set qs)))"
proof -
  let ?spans = "dict_get_or (build_span_index ctx) g []"
  let ?exact = "map (snd \<circ> snd) (filter (overlaps_window start stop) ?spans)"
  let ?nearby = "map (\<lambda>s. (span_distance start stop s, snd (snd s)))
    (filter (\<lambda>s. \<not> overlaps_window start stop s) ?spans)"
  let ?cg = "dict_get_or (graph_qnodes_by_file ctx) g []"
  have qs: "qs = (if ?exact \<noteq> [] then take limit (fromkeys ?exact)
      else if ?cg \<noteq> [] then take limit (fromkeys ?cg)
      else if nearest_if_empty then (case ?nearby of [] \<Rightarrow> [] | n # ns \<Rightarrow> [snd (nearest n ns)]) else [])"
    unfolding assms(1) by (simp add: qnodes_at_def Let_def graph_view_of_def assms(2-4))
  show ?thesis
  proof (cases "?exact = []")
    case False
    then have qs: "qs = take limit (fromkeys ?exact)" using qs by simp
    have sub: "set qs \<subseteq> set ?exact" unfolding qs by (rule set_take_fromkeys)
    then have "\<forall>q \<in> set qs. defined_at ctx q start stop \<and> q_file q = g" using in_exact by blast
    moreover have "distinct qs" "length qs \<le> limit" unfolding qs by simp_all
    moreover have "set ?exact \<subseteq> set qs" if "length qs < limit"
    proof -
      have "qs = fromkeys ?exact" using that unfolding qs by simp
      then show ?thesis by simp
    qed
    ultimately show ?thesis using in_exact by blast
  next
    case True
    then have none: "\<not> (\<exists>q. defined_at ctx q start stop \<and> q_file q = g \<and> g \<noteq> [])"
      using in_exact [where a = start and b = stop and ctx = ctx and f = g] by (metis empty_iff list.set(1))
    have near: "q_file (snd n) = g" if "n \<in> set ?nearby" for n
      using that by (auto simp: in_span_index)
    have "(\<forall>q \<in> set qs. q_file q = g) \<and> distinct qs"
    proof (cases "?cg = []")
      case False
      then have qs: "qs = take limit (fromkeys ?cg)" using qs True by simp
      have "set qs \<subseteq> set ?cg" unfolding qs by (rule set_take_fromkeys)
      then show ?thesis using in_qnodes_by_file qs by auto
    next
      case cg: True
      show ?thesis
      proof (cases ?nearby)
        case (Cons n ns)
        have "nearest n ns \<in> set ?nearby" using nearest_in [of n ns] unfolding Cons by simp
        note near [OF this]
        moreover have "qs = [snd (nearest n ns)] \<or> qs = []" unfolding qs True cg Cons by simp
        ultimately show ?thesis by fastforce
      next
        case Nil
        have "qs = []" unfolding qs True cg Nil by simp
        then show ?thesis by simp
      qed
    qed
    with none show ?thesis by blast
  qed
qed

definition sample_ctx :: context_package where
  "sample_ctx =
     \<lparr>cp_call_graph = [(''a.py::f'', [''b.py::g'', ''a.py::h''])], cp_call_graph_files = [],
      cp_def_spans = [(''a.py::f'', [3, 9]), (''a.py::h'', [20])], cp_seed_taint_paths = [],
      cp_seed_taint_evidence = [], cp_entry_points = [], cp_all_files = [''a.py'', ''b.py'']\<rparr>"

lemma qnodes_at_exact_witness:
  "qnodes_at (graph_view_of sample_ctx) ''a.py'' 5 0 6 False = [''a.py::f''] \<and> defined_at sample_ctx ''a.py::f'' 5 5"
proof -
  have "(5::int) = max 1 (line_or 5 1)" "(5::int) = max 5 (line_or 0 5)"
    and f: "''a.py'' = replace_char (CHR 0x5C) (CHR ''/'') ''a.py''"
    by (simp_all add: line_or_def replace_char_def)
  note t = qnodes_at_exact [OF refl this, of sample_ctx 6 False]
  have q: "qnodes_at (graph_view_of sample_ctx) ''a.py'' 5 0 6 False = [''a.py::f'']" by code_simp
  have "defined_at sample_ctx ''a.py::f'' 5 5" by (simp add: defined_at_def sample_ctx_def span_of_def)
  moreover have "q_file ''a.py::f'' = ''a.py''" by code_simp
  ultimately have "\<forall>q \<in> set [''a.py::f'']. defined_at sample_ctx q 5 5" using t unfolding q by blast
  with q show ?thesis by simp
qed

text \<open>
  A hop written as a file and a positive line reads back as that file and line, whatever
  colons the file name has.
\<close>

lemma parse_hop_roundtrip:
  assumes "f \<noteq> []" "0 < n"
  shows "parse_hop (f @ '':'' @ show_nat n) = (f, Some (int n))"
proof -
  have "cut_last '':'' (f @ CHR '':'' # show_nat n) = Some (f, show_nat n)"
    using show_nat_digits [of n] by (intro cut_last_append isdigit_no_colon) simp
  then show ?thesis using assms show_nat_digits [of n] by (simp add: parse_hop_def)
qed

lemma parse_hop_roundtrip_witness: "parse_hop (''C:/a.py'' @ '':'' @ show_nat 42) = (''C:/a.py'', Some 42)"
  using parse_hop_roundtrip [of "''C:/a.py''" 42] by simp

end
