(* ===== verification/Regex.thy ===== *)
theory Regex
  imports Prelude
begin

text \<open>
  Python's \<open>re\<close> for the constructs the program's patterns use, as the backtracking search
  they mean: a pattern, a text and a start position give the list of ways to match, in the
  order the engine tries them, so that its answer is the first of the list.  Character
  classes are ASCII, as the rest of the development.
\<close>

section \<open>Patterns\<close>

datatype re =
    Eps
  | Cls "char \<Rightarrow> bool"            \<comment> \<open>one character of a class\<close>
  | Seq re re
  | Alt re re                          \<comment> \<open>the left alternative first\<close>
  | Rep bool nat "nat option" re       \<comment> \<open>greedy?, at least, at most\<close>
  | Grp nat re                         \<comment> \<open>a capturing group\<close>
  | Backref nat
  | Bol | Eol | Wordb                  \<comment> \<open>\<open>^\<close>, \<open>$\<close> and \<open>\b\<close>\<close>
  | Ahead bool "char \<Rightarrow> bool"      \<comment> \<open>\<open>(?=c)\<close>, or \<open>(?!c)\<close> when false\<close>
  | Behind bool "char \<Rightarrow> bool"     \<comment> \<open>\<open>(?<=c)\<close>, or \<open>(?<!c)\<close> when false\<close>

fun seqs :: "re list \<Rightarrow> re" where
  "seqs [] = Eps"
| "seqs [r] = r"
| "seqs (r # rs) = Seq r (seqs rs)"

fun alts :: "re list \<Rightarrow> re" where
  "alts [] = Cls (\<lambda>_. False)"
| "alts [r] = r"
| "alts (r # rs) = Alt r (alts rs)"

definition lit :: "pystr \<Rightarrow> re" where
  "lit s = seqs (map (\<lambda>c. Cls (\<lambda>d. d = c)) s)"

abbreviation star :: "re \<Rightarrow> re" where "star \<equiv> Rep True 0 None"
abbreviation plus :: "re \<Rightarrow> re" where "plus \<equiv> Rep True 1 None"
abbreviation opt :: "re \<Rightarrow> re" where "opt \<equiv> Rep True 0 (Some 1)"
abbreviation times_re :: "nat \<Rightarrow> nat \<Rightarrow> re \<Rightarrow> re" where "times_re m n \<equiv> Rep True m (Some n)"
abbreviation at_least :: "nat \<Rightarrow> re \<Rightarrow> re" where "at_least m \<equiv> Rep True m None"

definition is_upper_char :: "char \<Rightarrow> bool" where
  "is_upper_char c \<longleftrightarrow> (let n = (of_char c :: nat) in 65 \<le> n \<and> n \<le> 90)"

definition is_lower_char :: "char \<Rightarrow> bool" where
  "is_lower_char c \<longleftrightarrow> (let n = (of_char c :: nat) in 97 \<le> n \<and> n \<le> 122)"

definition is_alpha_char :: "char \<Rightarrow> bool" where
  "is_alpha_char c \<longleftrightarrow> is_upper_char c \<or> is_lower_char c"

definition is_alnum_char :: "char \<Rightarrow> bool" where
  "is_alnum_char c \<longleftrightarrow> is_alpha_char c \<or> py_digit c"

text \<open>\<open>\w\<close> and a class given by its members.\<close>

definition word_char :: "char \<Rightarrow> bool" where
  "word_char c \<longleftrightarrow> is_alnum_char c \<or> c = CHR ''_''"

definition one_of :: "pystr \<Rightarrow> char \<Rightarrow> bool" where
  "one_of s c \<longleftrightarrow> c \<in> set s"

text \<open>\<open>re.IGNORECASE\<close>.\<close>

fun nocase :: "re \<Rightarrow> re" where
  "nocase (Cls p) = Cls (\<lambda>c. p (lower_char c) \<or> p (upper_char c))"
| "nocase (Seq r s) = Seq (nocase r) (nocase s)"
| "nocase (Alt r s) = Alt (nocase r) (nocase s)"
| "nocase (Rep g m n r) = Rep g m n (nocase r)"
| "nocase (Grp k r) = Grp k (nocase r)"
| "nocase (Ahead b p) = Ahead b (\<lambda>c. p (lower_char c) \<or> p (upper_char c))"
| "nocase (Behind b p) = Behind b (\<lambda>c. p (lower_char c) \<or> p (upper_char c))"
| "nocase r = r"

section \<open>Matching\<close>

text \<open>A point of the search: the position and the spans captured so far, latest first.\<close>

type_synonym point = "nat \<times> (nat \<times> nat \<times> nat) list"

definition word_at :: "pystr \<Rightarrow> nat \<Rightarrow> bool" where
  "word_at s i \<longleftrightarrow> i < length s \<and> word_char (s ! i)"

definition at_boundary :: "pystr \<Rightarrow> nat \<Rightarrow> bool" where
  "at_boundary s i \<longleftrightarrow> (0 < i \<and> word_at s (i - 1)) \<noteq> word_at s i"

text \<open>\<open>$\<close> also matches before a final line feed.\<close>

definition at_end :: "pystr \<Rightarrow> nat \<Rightarrow> bool" where
  "at_end s i \<longleftrightarrow> i = length s \<or> Suc i = length s \<and> s ! i = CHR 0x0A"

definition class_at :: "(char \<Rightarrow> bool) \<Rightarrow> pystr \<Rightarrow> nat \<Rightarrow> bool" where
  "class_at p s i \<longleftrightarrow> i < length s \<and> p (s ! i)"

fun rep_at :: "nat \<Rightarrow> (point \<Rightarrow> point list) \<Rightarrow> bool \<Rightarrow> nat \<Rightarrow> nat option \<Rightarrow> point \<Rightarrow> point list" where
  "rep_at 0 f g lo hi st = (if lo = 0 then [st] else [])"
| "rep_at (Suc k) f g lo hi st =
     (let stop = (if lo = 0 then [st] else []);
          more = (if hi = Some 0 then []
                  else concat (map (\<lambda>st'.
                         if fst st' = fst st \<and> lo = 0 then []
                         else rep_at k f g (lo - 1) (map_option (\<lambda>n. n - 1) hi) st') (f st)))
      in if g then more @ stop else stop @ more)"

definition span_text :: "pystr \<Rightarrow> nat \<Rightarrow> nat \<Rightarrow> pystr" where
  "span_text s i j = take (j - i) (drop i s)"

primrec re_at :: "re \<Rightarrow> pystr \<Rightarrow> point \<Rightarrow> point list" where
  "re_at Eps s st = [st]"
| "re_at (Cls p) s st = (if class_at p s (fst st) then [(Suc (fst st), snd st)] else [])"
| "re_at (Seq r r') s st = concat (map (re_at r' s) (re_at r s st))"
| "re_at (Alt r r') s st = re_at r s st @ re_at r' s st"
| "re_at (Rep g lo hi r) s st =
     rep_at (lo + (length s - fst st) + 1) (re_at r s) g lo hi st"
| "re_at (Grp k r) s st = map (\<lambda>st'. (fst st', (k, fst st, fst st') # snd st')) (re_at r s st)"
| "re_at (Backref k) s st =
     (case map_of (snd st) k of
        None \<Rightarrow> []
      | Some (a, b) \<Rightarrow>
          if prefix (span_text s a b) (drop (fst st) s) then [(fst st + (b - a), snd st)] else [])"
| "re_at Bol s st = (if fst st = 0 then [st] else [])"
| "re_at Eol s st = (if at_end s (fst st) then [st] else [])"
| "re_at Wordb s st = (if at_boundary s (fst st) then [st] else [])"
| "re_at (Ahead b p) s st = (if class_at p s (fst st) = b then [st] else [])"
| "re_at (Behind b p) s st =
     (if (0 < fst st \<and> class_at p s (fst st - 1)) = b then [st] else [])"

text \<open>A match: its start, its end and its captures.\<close>

record re_match =
  m_start :: nat
  m_end :: nat
  m_caps :: "(nat \<times> nat \<times> nat) list"

definition match_at :: "re \<Rightarrow> pystr \<Rightarrow> nat \<Rightarrow> re_match option" where
  "match_at r s i =
     (case re_at r s (i, []) of
        [] \<Rightarrow> None
      | (j, caps) # _ \<Rightarrow> Some \<lparr>m_start = i, m_end = j, m_caps = caps\<rparr>)"

text \<open>
  \<open>m.group(k)\<close> of a match in \<open>s\<close>, group 0 the whole match; \<open>None\<close> for a group that did not
  take part.
\<close>

definition group :: "pystr \<Rightarrow> re_match \<Rightarrow> nat \<Rightarrow> pystr option" where
  "group s m k =
     (if k = 0 then Some (span_text s (m_start m) (m_end m))
      else map_option (\<lambda>(a, b). span_text s a b) (map_of (m_caps m) k))"

definition group_or :: "pystr \<Rightarrow> re_match \<Rightarrow> nat \<Rightarrow> pystr" where
  "group_or s m k = (case group s m k of Some w \<Rightarrow> w | None \<Rightarrow> [])"

text \<open>
  The first match at or after a position, and all matches from left to right without
  overlap.  The patterns of the program that are searched repeatedly match no empty text;
  on a pattern that does, the scan moves on by one character.
\<close>

definition search_from :: "re \<Rightarrow> pystr \<Rightarrow> nat \<Rightarrow> re_match option" where
  "search_from r s i =
     (case List.map_filter (match_at r s) [i..<Suc (length s)] of [] \<Rightarrow> None | m # _ \<Rightarrow> Some m)"

fun finditer_from :: "nat \<Rightarrow> re \<Rightarrow> pystr \<Rightarrow> nat \<Rightarrow> re_match list" where
  "finditer_from 0 r s i = []"
| "finditer_from (Suc k) r s i =
     (case search_from r s i of
        None \<Rightarrow> []
      | Some m \<Rightarrow> m # finditer_from k r s (if m_end m = m_start m then Suc (m_end m) else m_end m))"

definition finditer :: "re \<Rightarrow> pystr \<Rightarrow> re_match list" where
  "finditer r s = finditer_from (Suc (Suc (length s))) r s 0"

definition re_search :: "re \<Rightarrow> pystr \<Rightarrow> bool" where
  "re_search r s \<longleftrightarrow> search_from r s 0 \<noteq> None"

definition re_fullmatch :: "re \<Rightarrow> pystr \<Rightarrow> bool" where
  "re_fullmatch r s \<longleftrightarrow> (\<exists>st \<in> set (re_at r s (0, [])). fst st = length s)"

text \<open>\<open>rx.sub(f, s)\<close> with a state threaded through the replacements.\<close>

fun sub_matches :: "('s \<Rightarrow> re_match \<Rightarrow> pystr \<times> 's) \<Rightarrow> pystr \<Rightarrow> nat \<Rightarrow> re_match list \<Rightarrow> 's \<Rightarrow> pystr \<times> 's" where
  "sub_matches f s i [] st = (drop i s, st)"
| "sub_matches f s i (m # ms) st =
     (let (w, st1) = f st m; (rest, st2) = sub_matches f s (m_end m) ms st1
      in (span_text s i (m_start m) @ w @ rest, st2))"

definition re_sub :: "re \<Rightarrow> ('s \<Rightarrow> re_match \<Rightarrow> pystr \<times> 's) \<Rightarrow> pystr \<Rightarrow> 's \<Rightarrow> pystr \<times> 's" where
  "re_sub r f s st = sub_matches f s 0 (finditer r s) st"

section \<open>Laws of the search\<close>

text \<open>
  A way to match only moves forward and stays inside the text, and when every class of the
  pattern lies in \<open>P\<close> the text it consumes and the spans it captures consist of characters
  of \<open>P\<close>.
\<close>

primrec over :: "(char \<Rightarrow> bool) \<Rightarrow> re \<Rightarrow> bool" where
  "over P Eps \<longleftrightarrow> True"
| "over P (Cls p) \<longleftrightarrow> (\<forall>c. p c \<longrightarrow> P c)"
| "over P (Seq r r') \<longleftrightarrow> over P r \<and> over P r'"
| "over P (Alt r r') \<longleftrightarrow> over P r \<and> over P r'"
| "over P (Rep g lo hi r) \<longleftrightarrow> over P r"
| "over P (Grp k r) \<longleftrightarrow> over P r"
| "over P (Backref k) \<longleftrightarrow> True"
| "over P Bol \<longleftrightarrow> True"
| "over P Eol \<longleftrightarrow> True"
| "over P Wordb \<longleftrightarrow> True"
| "over P (Ahead b p) \<longleftrightarrow> True"
| "over P (Behind b p) \<longleftrightarrow> True"

definition clean :: "(char \<Rightarrow> bool) \<Rightarrow> pystr \<Rightarrow> nat \<Rightarrow> nat \<Rightarrow> bool" where
  "clean P s i j \<longleftrightarrow> i \<le> j \<and> j \<le> length s \<and> (\<forall>k. i \<le> k \<longrightarrow> k < j \<longrightarrow> P (s ! k))"

definition caps_ok :: "(char \<Rightarrow> bool) \<Rightarrow> pystr \<Rightarrow> (nat \<times> nat \<times> nat) list \<Rightarrow> bool" where
  "caps_ok P s caps \<longleftrightarrow> (\<forall>(k, a, b) \<in> set caps. clean P s a b)"

definition step_ok :: "(char \<Rightarrow> bool) \<Rightarrow> pystr \<Rightarrow> point \<Rightarrow> point \<Rightarrow> bool" where
  "step_ok P s st st' \<longleftrightarrow>
     (fst st \<le> length s \<longrightarrow> caps_ok P s (snd st) \<longrightarrow>
      clean P s (fst st) (fst st') \<and> caps_ok P s (snd st'))"

lemma clean_trans: "clean P s i j \<Longrightarrow> clean P s j k \<Longrightarrow> clean P s i k"
  unfolding clean_def by (meson le_trans not_less)

lemma clean_refl [simp]: "i \<le> length s \<Longrightarrow> clean P s i i"
  by (simp add: clean_def)

lemma step_ok_refl [simp]: "step_ok P s st st"
  by (simp add: step_ok_def)

lemma step_ok_trans: "step_ok P s a b \<Longrightarrow> step_ok P s b c \<Longrightarrow> step_ok P s a c"
  unfolding step_ok_def by (meson clean_def clean_trans)

lemma rep_at_ok:
  assumes f: "\<And>st st'. st' \<in> set (f st) \<Longrightarrow> step_ok P s st st'"
  shows "st' \<in> set (rep_at k f g lo hi st) \<Longrightarrow> step_ok P s st st'"
proof (induction k arbitrary: lo hi st)
  case 0
  then show ?case by (auto split: if_splits)
next
  case (Suc k)
  have "st' = st \<or> (\<exists>st1 \<in> set (f st). \<exists>lo' hi'. st' \<in> set (rep_at k f g lo' hi' st1))"
    using Suc.prems by (auto simp: Let_def split: if_splits)
  then show ?case using f Suc.IH step_ok_trans by (metis step_ok_refl)
qed

lemma nth_prefix_drop:
  assumes "prefix (span_text s a b) (drop i s)" "a \<le> b" "b \<le> length s" "k < b - a"
  shows "s ! (i + k) = s ! (a + k) \<and> i + k < length s"
proof -
  have len: "length (span_text s a b) = b - a" using assms(2,3) by (simp add: span_text_def)
  then have "b - a \<le> length s - i" using prefix_length_le [OF assms(1)] by simp
  moreover have "span_text s a b ! k = drop i s ! k"
    using assms(1,4) len by (metis prefix_def nth_append)
  ultimately show ?thesis using assms(2-4) by (auto simp: span_text_def)
qed

lemma backref_ok:
  assumes "prefix (span_text s a b) (drop i s)" "clean P s a b" "i \<le> length s"
  shows "clean P s i (i + (b - a))"
proof (cases "a = b")
  case False
  have ab: "a \<le> b" "b \<le> length s" using assms(2) by (auto simp: clean_def)
  have at: "s ! (i + k) = s ! (a + k) \<and> i + k < length s" if "k < b - a" for k
    by (rule nth_prefix_drop [OF assms(1) ab that])
  have "i + (b - a) \<le> length s" using at [of "b - a - 1"] False ab by linarith
  moreover have "P (s ! k)" if "i \<le> k" "k < i + (b - a)" for k
    using at [of "k - i"] that assms(2) by (auto simp: clean_def)
  ultimately show ?thesis by (simp add: clean_def)
qed (use assms in simp)

lemma re_at_ok: "over P r \<Longrightarrow> st' \<in> set (re_at r s st) \<Longrightarrow> step_ok P s st st'"
proof (induction r arbitrary: st st')
  case (Seq r r')
  from Seq.prems obtain st1 where "st1 \<in> set (re_at r s st)" "st' \<in> set (re_at r' s st1)" by auto
  with Seq step_ok_trans show ?case by (metis over.simps(3))
next
  case (Rep g lo hi r)
  then have f: "\<And>st st'. st' \<in> set (re_at r s st) \<Longrightarrow> step_ok P s st st'" by simp
  show ?case by (rule rep_at_ok [OF f]) (use Rep.prems(2) in \<open>auto simp only: re_at.simps\<close>)
next
  case (Grp k r)
  from Grp.prems obtain st1 where st1: "st1 \<in> set (re_at r s st)"
    "st' = (fst st1, (k, fst st, fst st1) # snd st1)" by auto
  with Grp have "step_ok P s st st1" by simp
  with st1(2) show ?case by (simp add: step_ok_def caps_ok_def)
next
  case (Cls p)
  then show ?case
    by (auto simp: step_ok_def class_at_def clean_def split: if_splits dest: le_antisym)
next
  case (Backref k)
  have "clean P s (fst st) (fst st')" if "fst st \<le> length s" "caps_ok P s (snd st)"
  proof -
    from Backref.prems obtain a b where ab: "map_of (snd st) k = Some (a, b)"
      "prefix (span_text s a b) (drop (fst st) s)" "st' = (fst st + (b - a), snd st)"
      by (cases "map_of (snd st) k") (auto split: if_splits)
    from ab(1) that(2) have "clean P s a b" by (auto simp: caps_ok_def dest!: map_of_SomeD)
    from backref_ok [OF ab(2) this that(1)] ab(3) show ?thesis by simp
  qed
  then show ?case using Backref.prems by (auto simp: step_ok_def split: option.splits if_splits)
qed (auto split: if_splits option.splits)

text \<open>What is known of any match.\<close>

lemma match_at_ok:
  assumes "over P r" "match_at r s i = Some m" "i \<le> length s"
  shows "m_start m = i \<and> clean P s i (m_end m) \<and> caps_ok P s (m_caps m)"
proof -
  obtain j caps rest where "re_at r s (i, []) = (j, caps) # rest" "m = \<lparr>m_start = i, m_end = j, m_caps = caps\<rparr>"
    using assms(2) by (auto simp: match_at_def split: list.splits)
  moreover from this have "step_ok P s (i, []) (j, caps)" using re_at_ok [OF assms(1)] by simp
  ultimately show ?thesis using assms(3) by (simp add: step_ok_def caps_ok_def)
qed

lemma over_True [simp]: "over (\<lambda>_. True) r"
  by (induction r) auto

lemma search_from_match:
  assumes "search_from r s i = Some m"
  shows "\<exists>k. i \<le> k \<and> k \<le> length s \<and> match_at r s k = Some m"
proof -
  have "m \<in> set (List.map_filter (match_at r s) [i..<Suc (length s)])"
    using assms unfolding search_from_def by (cases "List.map_filter (match_at r s) [i..<Suc (length s)]") simp_all
  then obtain k where "k \<in> set [i..<Suc (length s)]" and m: "match_at r s k = Some m"
    unfolding List.map_filter_def by (auto simp del: upt_Suc)
  then have "i \<le> k \<and> k \<le> length s" by (simp only: set_upt atLeastLessThan_iff less_Suc_eq_le)
  with m show ?thesis by blast
qed

text \<open>The matches of a scan are in order and do not overlap.\<close>

fun chained :: "nat \<Rightarrow> nat \<Rightarrow> re_match list \<Rightarrow> bool" where
  "chained n i [] \<longleftrightarrow> True"
| "chained n i (m # ms) \<longleftrightarrow>
     i \<le> m_start m \<and> m_start m \<le> m_end m \<and> m_end m \<le> n \<and> chained n (m_end m) ms"

lemma chained_mono: "chained n j ms \<Longrightarrow> i \<le> j \<Longrightarrow> chained n i ms"
  by (cases ms) auto

lemma finditer_from_chained: "chained (length s) i (finditer_from k r s i)"
proof (induction k arbitrary: i)
  case (Suc k)
  show ?case
  proof (cases "search_from r s i")
    case (Some m)
    then obtain j where j: "i \<le> j" "j \<le> length s" "match_at r s j = Some m"
      using search_from_match by blast
    from match_at_ok [OF over_True j(3,2)] have "m_start m = j" "clean (\<lambda>_. True) s j (m_end m)" by auto
    with Suc [of "m_end m"] Suc [of "Suc (m_end m)"] j Some show ?thesis
      by (auto simp: clean_def intro: chained_mono)
  qed simp
qed simp

lemma finditer_chained: "chained (length s) 0 (finditer r s)"
  unfolding finditer_def by (rule finditer_from_chained)

lemma finditer_from_match:
  "m \<in> set (finditer_from k r s i) \<Longrightarrow> m_start m \<le> length s \<and> match_at r s (m_start m) = Some m"
proof (induction k arbitrary: i)
  case (Suc k)
  then show ?case
  proof (cases "search_from r s i")
    case (Some m')
    then obtain j where j: "j \<le> length s" "match_at r s j = Some m'"
      using search_from_match by blast
    from match_at_ok [OF over_True j(2,1)] have "m_start m' = j" by simp
    with j Some Suc show ?thesis by auto
  qed simp
qed simp

lemma finditer_match:
  "m \<in> set (finditer r s) \<Longrightarrow> m_start m \<le> length s \<and> match_at r s (m_start m) = Some m"
  unfolding finditer_def by (rule finditer_from_match)

end
