(* ===== verification/Cvss.thy ===== *)
theory Cvss
  imports Binary64 Regex
begin

text \<open>
  The CVSS 3.1 base score (\<open>report/cvss.py\<close>) in double precision: every arithmetic operation
  rounds with \<open>fl\<close>.  The power \<open>** 15\<close> is the C library's, taken as correctly rounded.
\<close>

section \<open>The vector\<close>

definition cvss_prefix_re :: re where
  "cvss_prefix_re = Seq (lit ''CVSS:3.'') (Cls (one_of ''01''))"

definition vector_re :: re where
  "vector_re = seqs [cvss_prefix_re,
     lit ''/AV:'', Grp 1 (Cls (one_of ''NALP'')), lit ''/AC:'', Grp 2 (Cls (one_of ''LH'')),
     lit ''/PR:'', Grp 3 (Cls (one_of ''NLH'')), lit ''/UI:'', Grp 4 (Cls (one_of ''NR'')),
     lit ''/S:'', Grp 5 (Cls (one_of ''UC'')), lit ''/C:'', Grp 6 (Cls (one_of ''NLH'')),
     lit ''/I:'', Grp 7 (Cls (one_of ''NLH'')), lit ''/A:'', Grp 8 (Cls (one_of ''NLH''))]"

section \<open>Weights\<close>

definition w_av :: "(pystr, rat) pydict" where
  "w_av = [(''N'', fl (85 / 100)), (''A'', fl (62 / 100)), (''L'', fl (55 / 100)), (''P'', fl (2 / 10))]"

definition w_ac :: "(pystr, rat) pydict" where
  "w_ac = [(''L'', fl (77 / 100)), (''H'', fl (44 / 100))]"

definition w_pr_u :: "(pystr, rat) pydict" where
  "w_pr_u = [(''N'', fl (85 / 100)), (''L'', fl (62 / 100)), (''H'', fl (27 / 100))]"

definition w_pr_c :: "(pystr, rat) pydict" where
  "w_pr_c = [(''N'', fl (85 / 100)), (''L'', fl (68 / 100)), (''H'', fl (50 / 100))]"

definition w_ui :: "(pystr, rat) pydict" where
  "w_ui = [(''N'', fl (85 / 100)), (''R'', fl (62 / 100))]"

definition w_cia :: "(pystr, rat) pydict" where
  "w_cia = [(''H'', fl (56 / 100)), (''L'', fl (22 / 100)), (''N'', 0)]"

text \<open>The pattern only lets keys of the tables through, so the lookups never fail.\<close>

definition weight :: "(pystr, rat) pydict \<Rightarrow> pystr \<Rightarrow> rat" where
  "weight table k = dict_get_or table k 0"

section \<open>The formula\<close>

definition py_int :: "rat \<Rightarrow> int" where
  "py_int x = (if x < 0 then \<lceil>x\<rceil> else \<lfloor>x\<rfloor>)"

definition py_pow :: "rat \<Rightarrow> nat \<Rightarrow> rat" where
  "py_pow x n = fl (x ^ n)"

definition roundup1 :: "rat \<Rightarrow> rat" where
  "roundup1 x =
     (let n = py_int (fl (x * 100000)) in
      if n mod 10000 = 0 then fl (of_int n / 100000) else fl (of_int (n div 10000 + 1) / 10))"

definition iss_of :: "pystr \<Rightarrow> pystr \<Rightarrow> pystr \<Rightarrow> rat" where
  "iss_of c i a =
     fl (1 - fl (fl (fl (1 - weight w_cia c) * fl (1 - weight w_cia i)) * fl (1 - weight w_cia a)))"

definition impact_of :: "bool \<Rightarrow> rat \<Rightarrow> rat" where
  "impact_of scope_changed iss =
     (if scope_changed
      then fl (fl (fl (752 / 100) * fl (iss - fl (29 / 1000))) -
               fl (fl (325 / 100) * py_pow (fl (iss - fl (2 / 100))) 15))
      else fl (fl (642 / 100) * iss))"

definition exploitability_of :: "bool \<Rightarrow> pystr \<Rightarrow> pystr \<Rightarrow> pystr \<Rightarrow> pystr \<Rightarrow> rat" where
  "exploitability_of scope_changed av ac pr ui =
     fl (fl (fl (fl (fl (822 / 100) * weight w_av av) * weight w_ac ac) *
        weight (if scope_changed then w_pr_c else w_pr_u) pr) * weight w_ui ui)"

definition base_score ::
    "pystr \<Rightarrow> pystr \<Rightarrow> pystr \<Rightarrow> pystr \<Rightarrow> pystr \<Rightarrow> pystr \<Rightarrow> pystr \<Rightarrow> pystr \<Rightarrow> rat" where
  "base_score av ac pr ui s c i a =
     (let scope_changed = (s = ''C''); impact = impact_of scope_changed (iss_of c i a)
      in if impact \<le> 0 then 0
         else
           let e = exploitability_of scope_changed av ac pr ui;
               base = (if scope_changed then min (fl (fl (108 / 100) * fl (impact + e))) 10
                       else min (fl (impact + e)) 10)
           in roundup1 base)"

definition cvss_score :: "pystr option \<Rightarrow> rat option" where
  "cvss_score vector =
     (case vector of
        None \<Rightarrow> None
      | Some v \<Rightarrow>
          if v = [] then None
          else map_option (\<lambda>m. base_score (group_or v m 1) (group_or v m 2) (group_or v m 3)
                 (group_or v m 4) (group_or v m 5) (group_or v m 6) (group_or v m 7) (group_or v m 8))
               (search_from vector_re v 0))"

definition cvss_rating :: "rat option \<Rightarrow> pystr" where
  "cvss_rating s =
     (case s of
        None \<Rightarrow> ''Unknown''
      | Some s \<Rightarrow>
          if s = 0 then ''None'' else if s < 4 then ''Low'' else if s < 7 then ''Medium''
          else if s < 9 then ''High'' else ''Critical'')"

end
