(* ===== verification/CvssProps.thy ===== *)
theory CvssProps
  imports Cvss
begin

text \<open>
  The base score is a one-decimal number between 0 and 10 with the band the standard gives it,
  and it never falls when a metric gets worse, in spite of the rounding of every operation.
\<close>

section \<open>Weights\<close>

named_theorems cvss_tables \<open>the tables of metric weights\<close>

lemmas tables [cvss_tables] = w_av_def w_ac_def w_pr_u_def w_pr_c_def w_ui_def w_cia_def

lemma fl_frac_nonneg: "0 \<le> x \<Longrightarrow> 0 \<le> fl x"
  by (rule fl_nonneg)

lemma weight_nonneg: "(\<And>k w. (k, w) \<in> set t \<Longrightarrow> 0 \<le> w) \<Longrightarrow> 0 \<le> weight t k"
  by (auto simp: weight_def dict_get_or_def split: option.splits dest: map_of_SomeD)

lemma weights_nonneg [simp]:
  "0 \<le> weight w_av k" "0 \<le> weight w_ac k" "0 \<le> weight w_pr_u k" "0 \<le> weight w_pr_c k"
  "0 \<le> weight w_ui k" "0 \<le> weight w_cia k"
  by (rule weight_nonneg; auto simp: cvss_tables intro: fl_nonneg)+

lemma weight_cia_le_1: "weight w_cia k \<le> 1"
proof -
  have "fl (56 / 100) \<le> fl 1" "fl (22 / 100) \<le> fl 1" by (rule fl_mono, simp)+
  then show ?thesis by (auto simp: weight_def dict_get_or_def w_cia_def)
qed

text \<open>The values of a metric from the mildest to the worst.\<close>

definition worse :: "pystr list \<Rightarrow> pystr \<Rightarrow> pystr \<Rightarrow> bool" where
  "worse order a b \<longleftrightarrow> (\<exists>i j. i \<le> j \<and> j < length order \<and> order ! i = a \<and> order ! j = b)"

lemma worse_weight:
  assumes "worse order a b" "sorted (map (weight t) order)"
  shows "weight t a \<le> weight t b"
proof -
  obtain i j where "i \<le> j" "j < length order" "order ! i = a" "order ! j = b"
    using assms(1) by (auto simp: worse_def)
  with sorted_nth_mono [OF assms(2), of i j] show ?thesis by simp
qed

lemma orders_sorted:
  "sorted (map (weight w_av) [''P'', ''L'', ''A'', ''N''])"
  "sorted (map (weight w_ac) [''H'', ''L''])"
  "sorted (map (weight w_pr_u) [''H'', ''L'', ''N''])"
  "sorted (map (weight w_pr_c) [''H'', ''L'', ''N''])"
  "sorted (map (weight w_ui) [''R'', ''N''])"
  "sorted (map (weight w_cia) [''N'', ''L'', ''H''])"
proof -
  have "fl (2 / 10) \<le> fl (55 / 100)" "fl (2 / 10) \<le> fl (62 / 100)" "fl (2 / 10) \<le> fl (85 / 100)"
    by (rule fl_mono, simp)+
  then show "sorted (map (weight w_av) [''P'', ''L'', ''A'', ''N''])"
    by (simp add: weight_def dict_get_or_def w_av_def fl_mono)
qed (simp_all add: weight_def dict_get_or_def cvss_tables fl_mono fl_nonneg)

section \<open>The rounding up to one decimal\<close>

lemma py_int_nonneg: "0 \<le> x \<Longrightarrow> py_int x = \<lfloor>x\<rfloor>"
  by (simp add: py_int_def)

text \<open>The number of tenths.\<close>

definition tenths :: "rat \<Rightarrow> int" where
  "tenths x = - (- \<lfloor>fl (x * 100000)\<rfloor> div 10000)"

lemma ceil_div_mono: "a \<le> b \<Longrightarrow> - (- a div 10000) \<le> - (- b div (10000 :: int))"
  using zdiv_mono1 [of "- b" "- a" 10000] by simp

lemma tenths_mono: "x \<le> y \<Longrightarrow> tenths x \<le> tenths y"
  unfolding tenths_def by (rule ceil_div_mono, rule floor_mono, rule fl_mono) simp

lemma tenths_bounds:
  assumes "0 \<le> x" "x \<le> 10"
  shows "0 \<le> tenths x" "tenths x \<le> 100"
proof -
  have "fl (x * 100000) \<le> fl (of_int 1000000)" using assms(2) by (intro fl_mono) simp
  then have "fl (x * 100000) \<le> 1000000" using fl_of_int [of 1000000] by simp
  moreover have "0 \<le> fl (x * 100000)" using assms(1) by (simp add: fl_nonneg)
  ultimately have "0 \<le> \<lfloor>fl (x * 100000)\<rfloor>" "\<lfloor>fl (x * 100000)\<rfloor> \<le> 1000000"
    by (simp_all only: zero_le_floor floor_le_iff)
  note ceil_div_mono [OF this(1)] ceil_div_mono [OF this(2)]
  moreover have "- (- 0 div 10000) = (0 :: int)" "- (- 1000000 div 10000) = (100 :: int)" by simp_all
  ultimately show "0 \<le> tenths x" "tenths x \<le> 100" unfolding tenths_def by argo+
qed

lemma hundred_thousandths: "n = 10000 * t \<Longrightarrow> (of_int n :: rat) / 100000 = of_int t / 10"
  by simp

lemma roundup1_tenths:
  assumes "0 \<le> x"
  shows "roundup1 x = fl (of_int (tenths x) / 10)"
proof -
  let ?n = "\<lfloor>fl (x * 100000)\<rfloor>"
  have p: "py_int (fl (x * 100000)) = ?n" by (rule py_int_nonneg) (simp add: assms fl_nonneg)
  show ?thesis
  proof (cases "?n mod 10000 = 0")
    case True
    have "n mod 10000 = 0 \<Longrightarrow> n = 10000 * - (- n div 10000)" for n :: int
      by (auto simp: mod_eq_0_iff_dvd)
    note eq = hundred_thousandths [OF this [OF True], folded tenths_def]
    show ?thesis unfolding roundup1_def Let_def p if_P [OF True] eq ..
  next
    case False
    have "n mod 10000 \<noteq> 0 \<Longrightarrow> n div 10000 + 1 = - (- n div 10000)" for n :: int
      by (simp add: zdiv_zminus1_eq_if)
    note eq = this [OF False, folded tenths_def]
    show ?thesis unfolding roundup1_def Let_def p if_not_P [OF False] eq ..
  qed
qed

section \<open>The score\<close>

lemma exploitability_nonneg: "0 \<le> exploitability_of b av ac pr ui"
  unfolding exploitability_of_def by (cases b) (simp_all add: fl_nonneg)

text \<open>The value before rounding, and the score as its tenths.\<close>

definition base_of :: "bool \<Rightarrow> rat \<Rightarrow> rat \<Rightarrow> rat" where
  "base_of scope_changed impact e =
     (if scope_changed then min (fl (fl (108 / 100) * fl (impact + e))) 10 else min (fl (impact + e)) 10)"

lemma base_of_range: "0 < impact \<Longrightarrow> 0 \<le> e \<Longrightarrow> 0 \<le> base_of b impact e \<and> base_of b impact e \<le> 10"
  by (simp add: base_of_def fl_nonneg)

lemma base_of_mono:
  assumes "0 < x" "x \<le> y" "e \<le> f"
  shows "base_of b x e \<le> base_of b y f"
proof -
  have "fl (x + e) \<le> fl (y + f)" using assms by (intro fl_mono) simp
  moreover from this have "fl (fl (108 / 100) * fl (x + e)) \<le> fl (fl (108 / 100) * fl (y + f))"
    by (intro fl_mono mult_left_mono fl_nonneg) (use assms in simp_all)
  ultimately show ?thesis by (auto simp: base_of_def)
qed

lemma base_score_tenths:
  "base_score av ac pr ui s c i a =
     (let x = impact_of (s = ''C'') (iss_of c i a) in
      if x \<le> 0 then 0
      else fl (of_int (tenths (base_of (s = ''C'') x (exploitability_of (s = ''C'') av ac pr ui))) / 10))"
proof (cases "impact_of (s = ''C'') (iss_of c i a) \<le> 0")
  case False
  let ?x = "impact_of (s = ''C'') (iss_of c i a)" and ?e = "exploitability_of (s = ''C'') av ac pr ui"
  have "0 \<le> base_of (s = ''C'') ?x ?e" using base_of_range False exploitability_nonneg by simp
  from roundup1_tenths [OF this] False show ?thesis
    by (simp add: base_score_def base_of_def Let_def)
qed (simp add: base_score_def Let_def)

lemma base_score_steps: "\<exists>k. 0 \<le> k \<and> k \<le> 100 \<and> base_score av ac pr ui s c i a = fl (of_int k / 10)"
proof (cases "impact_of (s = ''C'') (iss_of c i a) \<le> 0")
  case True
  then show ?thesis by (intro exI [of _ 0]) (simp add: base_score_tenths Let_def)
next
  case False
  then have "0 \<le> base_of (s = ''C'') (impact_of (s = ''C'') (iss_of c i a))
        (exploitability_of (s = ''C'') av ac pr ui) \<and>
      base_of (s = ''C'') (impact_of (s = ''C'') (iss_of c i a))
        (exploitability_of (s = ''C'') av ac pr ui) \<le> 10"
    using base_of_range exploitability_nonneg by simp
  with False tenths_bounds show ?thesis by (auto simp: base_score_tenths Let_def)
qed

lemma fl_tenths_less:
  assumes "k < 10 * n" "\<bar>n\<bar> < 2 ^ 20"
  shows "fl (of_int k / 10) < of_int n"
proof -
  have "(of_int k :: rat) \<le> 10 * of_int n - 1" using assms(1) by linarith
  then have le: "(of_int k :: rat) / 10 \<le> of_int n - 1 / 10" by linarith
  have "fl (of_int k / 10) \<le> fl (of_int n - 1 / 10)" using le by (rule fl_mono)
  also have "fl (of_int n - 1 / 10) < of_int n"
  proof -
    have "(of_int \<bar>n\<bar> :: rat) \<le> of_int (2 ^ 20)" using assms(2) by (simp only: of_int_le_iff)
    then have "\<bar>(of_int n :: rat)\<bar> \<le> 2 ^ 20" by simp
    then have "\<bar>(of_int n :: rat) - 1 / 10\<bar> / 2 ^ 53 < 1 / 10" by (simp add: divide_simps)
    with fl_err [of "of_int n - 1 / 10"] show ?thesis by linarith
  qed
  finally show ?thesis .
qed

lemma fl_tenths_ge:
  assumes "10 * n \<le> k" "\<bar>n\<bar> < 2 ^ 20"
  shows "of_int n \<le> fl (of_int k / 10)"
proof -
  have "(of_int n :: rat) \<le> of_int k / 10" using assms(1) by linarith
  then have "fl (of_int n) \<le> fl (of_int k / 10)" by (rule fl_mono)
  then show ?thesis using fl_of_int [of n] assms(2) by simp
qed

lemma fl_tenths_cmp: "\<bar>n\<bar> < 2 ^ 20 \<Longrightarrow> fl (of_int k / 10) < of_int n \<longleftrightarrow> k < 10 * n"
  using fl_tenths_less fl_tenths_ge by (meson not_less)

text \<open>
  C22.  Every vector that scores has one of the 101 one-decimal scores, and the rating is the
  band the standard assigns to that number of tenths.
\<close>

theorem cvss_score_band:
  assumes "cvss_score vector = Some s"
  shows "\<exists>k. 0 \<le> k \<and> k \<le> 100 \<and> s = fl (of_int k / 10) \<and>
     cvss_rating (Some s) =
       (if k = 0 then ''None'' else if k < 40 then ''Low'' else if k < 70 then ''Medium''
        else if k < 90 then ''High'' else ''Critical'')"
proof -
  obtain av ac pr ui sc c i a where "s = base_score av ac pr ui sc c i a"
    using assms by (auto simp: cvss_score_def split: option.splits if_splits)
  then obtain k where k: "0 \<le> k" "k \<le> 100" "s = fl (of_int k / 10)" using base_score_steps by blast
  have "s = 0 \<longleftrightarrow> k = 0"
  proof
    show "s = 0 \<Longrightarrow> k = 0" using k fl_pos [of "of_int k / 10"] by (cases "k = 0") auto
  qed (use k in simp)
  moreover have "s < 4 \<longleftrightarrow> k < 40" "s < 7 \<longleftrightarrow> k < 70" "s < 9 \<longleftrightarrow> k < 90"
    using fl_tenths_cmp [of 4 k] fl_tenths_cmp [of 7 k] fl_tenths_cmp [of 9 k] k(3) by simp_all
  ultimately show ?thesis using k by (auto simp: cvss_rating_def)
qed

lemma cvss_score_band_witness:
  "\<exists>s k. cvss_score (Some ''CVSS:3.1/AV:N/AC:L/PR:N/UI:N/S:U/C:H/I:H/A:H'') = Some s \<and>
     0 \<le> k \<and> k \<le> 100 \<and> s = fl (of_int k / 10)"
proof -
  have "search_from vector_re ''CVSS:3.1/AV:N/AC:L/PR:N/UI:N/S:U/C:H/I:H/A:H'' 0 \<noteq> None" by code_simp
  then have "cvss_score (Some ''CVSS:3.1/AV:N/AC:L/PR:N/UI:N/S:U/C:H/I:H/A:H'') \<noteq> None"
    by (simp add: cvss_score_def)
  then obtain s where s: "cvss_score (Some ''CVSS:3.1/AV:N/AC:L/PR:N/UI:N/S:U/C:H/I:H/A:H'') = Some s"
    by blast
  from cvss_score_band [OF s] s show ?thesis by blast
qed

section \<open>Monotonicity\<close>

lemma exploitability_mono:
  assumes "weight w_av av \<le> weight w_av av'" "weight w_ac ac \<le> weight w_ac ac'"
    and "weight w_pr_u pr \<le> weight w_pr_u pr'" "weight w_pr_c pr \<le> weight w_pr_c pr'"
    and "weight w_ui ui \<le> weight w_ui ui'"
  shows "exploitability_of b av ac pr ui \<le> exploitability_of b av' ac' pr' ui'"
  unfolding exploitability_of_def using assms
  by (cases b) (simp_all add: fl_mono mult_mono fl_nonneg)

lemma iss_mono:
  assumes "weight w_cia c \<le> weight w_cia c'" "weight w_cia i \<le> weight w_cia i'"
    and "weight w_cia a \<le> weight w_cia a'"
  shows "iss_of c i a \<le> iss_of c' i' a'"
proof -
  have "fl (1 - weight w_cia k') \<le> fl (1 - weight w_cia k)" if "weight w_cia k \<le> weight w_cia k'" for k k'
    using that by (intro fl_mono) simp
  moreover have "0 \<le> fl (1 - weight w_cia k)" for k by (rule fl_nonneg) (simp add: weight_cia_le_1)
  ultimately show ?thesis unfolding iss_of_def using assms
    by (intro fl_mono diff_left_mono mult_mono) (simp_all add: fl_nonneg)
qed

text \<open>
  The score never falls when an exploitability metric gets worse, nor, as long as the
  scope is unchanged, when an impact metric does.
\<close>

lemma cvss_monotone:
  assumes "worse [''P'', ''L'', ''A'', ''N''] av av'" "worse [''H'', ''L''] ac ac'"
    and "worse [''H'', ''L'', ''N''] pr pr'" "worse [''R'', ''N''] ui ui'"
    and "if s = ''C'' then c' = c \<and> i' = i \<and> a' = a
      else worse [''N'', ''L'', ''H''] c c' \<and> worse [''N'', ''L'', ''H''] i i' \<and> worse [''N'', ''L'', ''H''] a a'"
  shows "base_score av ac pr ui s c i a \<le> base_score av' ac' pr' ui' s c' i' a'"
proof -
  note w = worse_weight [OF _ orders_sorted(1)] worse_weight [OF _ orders_sorted(2)]
    worse_weight [OF _ orders_sorted(3)] worse_weight [OF _ orders_sorted(4)]
    worse_weight [OF _ orders_sorted(5)] worse_weight [OF _ orders_sorted(6)]
  let ?x = "impact_of (s = ''C'') (iss_of c i a)" and ?y = "impact_of (s = ''C'') (iss_of c' i' a')"
  let ?e = "exploitability_of (s = ''C'') av ac pr ui" and ?f = "exploitability_of (s = ''C'') av' ac' pr' ui'"
  have e: "?e \<le> ?f" using assms(1-4) w by (intro exploitability_mono) auto
  have x: "?x \<le> ?y"
  proof (cases "s = ''C''")
    case True
    then show ?thesis using assms(5) by simp
  next
    case False
    then have "iss_of c i a \<le> iss_of c' i' a'" using assms(5) w(6) by (intro iss_mono) auto
    then have "fl (642 / 100) * iss_of c i a \<le> fl (642 / 100) * iss_of c' i' a'"
      by (intro mult_left_mono fl_nonneg) simp_all
    with False show ?thesis by (simp add: impact_of_def fl_mono)
  qed
  show ?thesis
  proof (cases "?x \<le> 0")
    case True
    obtain k where k: "0 \<le> k" "base_score av' ac' pr' ui' s c' i' a' = fl (of_int k / 10)"
      using base_score_steps by blast
    then show ?thesis using True by (simp add: base_score_tenths [of av] Let_def fl_nonneg)
  next
    case False
    have "tenths (base_of (s = ''C'') ?x ?e) \<le> tenths (base_of (s = ''C'') ?y ?f)"
      using False x e by (intro tenths_mono base_of_mono) simp_all
    then have "fl (of_int (tenths (base_of (s = ''C'') ?x ?e)) / 10) \<le>
        fl (of_int (tenths (base_of (s = ''C'') ?y ?f)) / 10)"
      by (intro fl_mono divide_right_mono) simp_all
    with False x show ?thesis by (simp add: base_score_tenths Let_def)
  qed
qed

lemma cvss_monotone_witness:
  "base_score ''L'' ''H'' ''L'' ''R'' ''U'' ''L'' ''N'' ''N'' \<le>
     base_score ''N'' ''H'' ''N'' ''R'' ''U'' ''H'' ''N'' ''L''"
proof (rule cvss_monotone)
  show "worse [''P'', ''L'', ''A'', ''N''] ''L'' ''N''"
    unfolding worse_def by (rule exI [of _ 1], rule exI [of _ 3]) simp
  show "worse [''H'', ''L''] ''H'' ''H''" unfolding worse_def by (rule exI [of _ 0], rule exI [of _ 0]) simp
  show "worse [''H'', ''L'', ''N''] ''L'' ''N''" unfolding worse_def by (rule exI [of _ 1], rule exI [of _ 2]) simp
  show "worse [''R'', ''N''] ''R'' ''R''" unfolding worse_def by (rule exI [of _ 0], rule exI [of _ 0]) simp
  have "worse [''N'', ''L'', ''H''] ''L'' ''H''" unfolding worse_def by (rule exI [of _ 1], rule exI [of _ 2]) simp
  moreover have "worse [''N'', ''L'', ''H''] ''N'' ''N''"
    unfolding worse_def by (rule exI [of _ 0], rule exI [of _ 0]) simp
  moreover have "worse [''N'', ''L'', ''H''] ''N'' ''L''"
    unfolding worse_def by (rule exI [of _ 0], rule exI [of _ 1]) simp
  ultimately show "if ''U'' = ''C'' then ''H'' = ''L'' \<and> ''N'' = ''N'' \<and> ''L'' = ''N''
      else worse [''N'', ''L'', ''H''] ''L'' ''H'' \<and> worse [''N'', ''L'', ''H''] ''N'' ''N'' \<and>
        worse [''N'', ''L'', ''H''] ''N'' ''L''" by simp
qed

end
