(* ===== verification/Findings.thy ===== *)
theory Findings
  imports Prelude Binary64
begin

text \<open>
  The finding that the scan pipeline passes from stage to stage, and the audit records it
  leaves behind: \<open>VulnClass\<close>, \<open>DupLocation\<close>, \<open>Finding\<close> and \<open>DroppedFinding\<close> of
  \<open>models.py\<close>.  A list of findings is a list of distinct objects, so an update of one is an
  update at its index.
\<close>

datatype vuln_class =
    UAF | HEAP_OVERFLOW | STACK_OVERFLOW | FMT_STRING | INT_OVERFLOW | TYPE_CONFUSION
  | RACE | INJECTION | DESERIALIZATION | LOGIC | INFO_LEAK | OTHER

datatype tp_verdict = TRUE_POSITIVE | FALSE_POSITIVE

record dup_location =
  d_file :: pystr
  d_line_start :: int
  d_line_end :: int
  d_vuln_class :: vuln_class
  d_title :: pystr
  d_chunk_id :: pystr
  d_source_ref :: "pystr option"
  d_sink_ref :: "pystr option"
  d_reasoning :: pystr

record finding =
  f_chunk_id :: pystr
  f_file :: pystr
  f_line_start :: int
  f_line_end :: int
  f_vuln_class :: vuln_class
  f_cwe :: "pystr option"
  f_title :: pystr
  f_impact :: pystr
  f_description :: pystr
  f_exploit_scenario :: pystr
  f_preconditions :: "pystr list"
  f_recommendation :: pystr
  f_code_snippet :: pystr
  f_source_ref :: "pystr option"
  f_sink_ref :: "pystr option"
  f_confidence :: rat
  f_votes :: int
  f_duplicates :: "dup_location list"
  f_backfilled_refs :: "pystr list"
  f_verdict :: "tp_verdict option"
  f_verdict_confidence :: "int option"
  f_verdict_reason :: pystr
  f_cvss_vector :: "pystr option"
  f_cvss_score :: "rat option"
  f_cvss_rating :: "pystr option"
  f_verifier_reasoning :: pystr
  f_vsvs_vector :: "pystr option"
  f_vsvs_score :: "rat option"
  f_vsvs_rating :: "pystr option"
  f_offensive_priority :: "pystr option"
  f_offensive_reason :: pystr

datatype drop_reason =
    DropFalsePositive | DropVerifyError | DropDuplicate | DropUnconfirmed | DropExcluded
  | DropGuardrailBlocked

record dropped_finding =
  x_file :: pystr
  x_line :: int
  x_vuln_class :: vuln_class
  x_title :: pystr
  x_chunk_id :: pystr
  x_reason :: drop_reason
  x_detail :: pystr
  x_canonical_idx :: "nat option"

text \<open>The stages build the audit record from the finding's own place, class and title.\<close>

definition drop_record :: "finding \<Rightarrow> drop_reason \<Rightarrow> pystr \<Rightarrow> nat option \<Rightarrow> dropped_finding" where
  "drop_record f reason detail idx =
     \<lparr>x_file = f_file f, x_line = f_line_start f, x_vuln_class = f_vuln_class f, x_title = f_title f,
      x_chunk_id = f_chunk_id f, x_reason = reason, x_detail = detail, x_canonical_idx = idx\<rparr>"

text \<open>
  Identity across runs of the deep dive: the line is bucketed; \<open>//\<close> on integers rounds
  down, as \<open>div\<close> does.
\<close>

definition canonical_key :: "int \<Rightarrow> finding \<Rightarrow> pystr \<times> int \<times> vuln_class" where
  "canonical_key line_bucket f = (f_file f, f_line_start f div line_bucket, f_vuln_class f)"

text \<open>A finding that only has what a test of the stages needs.\<close>

definition plain_finding :: "pystr \<Rightarrow> int \<Rightarrow> int \<Rightarrow> vuln_class \<Rightarrow> finding" where
  "plain_finding f a b c =
     \<lparr>f_chunk_id = [], f_file = f, f_line_start = a, f_line_end = b, f_vuln_class = c, f_cwe = None,
      f_title = [], f_impact = [], f_description = [], f_exploit_scenario = [], f_preconditions = [],
      f_recommendation = [], f_code_snippet = [], f_source_ref = None, f_sink_ref = None,
      f_confidence = 1 / 2, f_votes = 1, f_duplicates = [], f_backfilled_refs = [], f_verdict = None,
      f_verdict_confidence = None, f_verdict_reason = [], f_cvss_vector = None, f_cvss_score = None,
      f_cvss_rating = None, f_verifier_reasoning = [], f_vsvs_vector = None, f_vsvs_score = None,
      f_vsvs_rating = None, f_offensive_priority = None, f_offensive_reason = []\<rparr>"

end
