(* ===== verification/Dedup.thy ===== *)
theory Dedup
  imports Findings Regex
begin

text \<open>
  Step 7, deduplication (\<open>pipeline/stages/s7_dedup.py\<close>): the deterministic pass, the merge of
  the model's answers, the transfer of call sites onto the canonical finding, and the two
  entry points \<open>prefilter\<close> and \<open>run\<close>.  A map from a duplicate to its canonical finding is a
  dictionary of indices.
\<close>

section \<open>The interface of a canonical map\<close>

text \<open>Every duplicate points to an earlier finding of the list.\<close>

locale canonical_map =
  fixes co :: "(nat, nat) pydict" and n :: nat
  assumes down: "dict_get co j = Some i \<Longrightarrow> i < j \<and> j < n"
    and wf: "wf_dict co"

section \<open>Call sites\<close>

definition make_dup_location :: "finding \<Rightarrow> pystr \<Rightarrow> dup_location" where
  "make_dup_location f reasoning =
     \<lparr>d_file = f_file f, d_line_start = f_line_start f, d_line_end = f_line_end f,
      d_vuln_class = f_vuln_class f, d_title = f_title f, d_chunk_id = f_chunk_id f,
      d_source_ref = f_source_ref f, d_sink_ref = f_sink_ref f, d_reasoning = reasoning\<rparr>"

definition loc_key :: "dup_location \<Rightarrow> pystr \<times> int \<times> int" where
  "loc_key d = (d_file d, d_line_start d, d_line_end d)"

fun dedup_locs :: "(pystr \<times> int \<times> int) list \<Rightarrow> dup_location list \<Rightarrow> dup_location list" where
  "dedup_locs seen [] = []"
| "dedup_locs seen (d # ds) =
     (if loc_key d \<in> set seen then dedup_locs seen ds
      else d # dedup_locs (loc_key d # seen) ds)"

definition dedup_locations :: "dup_location list \<Rightarrow> dup_location list" where
  "dedup_locations ds = dedup_locs [] ds"

section \<open>The deterministic pass\<close>

definition trivial_reason :: pystr where
  "trivial_reason = ''trivial: same file/class within line tolerance''"

text \<open>\<open>bool(f.cwe)\<close>.\<close>

definition has_cwe :: "finding \<Rightarrow> bool" where
  "has_cwe f \<longleftrightarrow> (case f_cwe f of None \<Rightarrow> False | Some s \<Rightarrow> s \<noteq> [])"

definition cwe_allows :: "finding \<Rightarrow> finding \<Rightarrow> bool" where
  "cwe_allows a b \<longleftrightarrow>
     (if f_vuln_class a \<in> {LOGIC} then has_cwe a \<and> has_cwe b \<and> f_cwe a = f_cwe b
      else \<not> (has_cwe a \<and> has_cwe b \<and> f_cwe a \<noteq> f_cwe b))"

definition ranges_overlap :: "finding \<Rightarrow> finding \<Rightarrow> bool" where
  "ranges_overlap a b \<longleftrightarrow> f_line_start a \<le> f_line_end b \<and> f_line_start b \<le> f_line_end a"

definition same_bug :: "int \<Rightarrow> finding \<Rightarrow> finding \<Rightarrow> bool" where
  "same_bug line_tol a b \<longleftrightarrow>
     f_file a = f_file b \<and> f_vuln_class a = f_vuln_class b \<and> cwe_allows a b \<and>
     (\<bar>f_line_start a - f_line_start b\<bar> \<le> line_tol \<or> ranges_overlap a b)"

definition collapse_one ::
    "int \<Rightarrow> finding list \<Rightarrow> nat \<Rightarrow> (nat, nat) pydict \<Rightarrow> (nat, nat) pydict" where
  "collapse_one line_tol fs j co =
     (if dict_get co j \<noteq> None then co
      else case find (\<lambda>i. dict_get co i = None \<and> same_bug line_tol (fs ! i) (fs ! j)) [0..<j] of
             None \<Rightarrow> co
           | Some i \<Rightarrow> dict_set j i co)"

definition collapse_trivial :: "int \<Rightarrow> finding list \<Rightarrow> (nat, nat) pydict" where
  "collapse_trivial line_tol fs = fold (collapse_one line_tol fs) [0..<length fs] []"

section \<open>Attaching duplicates to their canonical finding\<close>

text \<open>The local \<open>root\<close> of \<open>_attach_duplicates\<close>, which stops at an index it has seen.\<close>

function root_seen :: "(nat, nat) pydict \<Rightarrow> nat list \<Rightarrow> nat \<Rightarrow> nat" where
  "root_seen co seen i =
     (case dict_get co i of
        None \<Rightarrow> i
      | Some k \<Rightarrow> if i \<in> set seen then i else root_seen co (i # seen) k)"
  by auto
termination
proof (relation "measure (\<lambda>(co, seen, i). card (fst ` set co - set seen))")
  fix co :: "(nat, nat) pydict" and seen i k
  assume "dict_get co i = Some k" "i \<notin> set seen"
  then have "i \<in> fst ` set co - set seen" by (auto dest: dict_get_Some_key)
  then have "fst ` set co - set (i # seen) \<subset> fst ` set co - set seen" by auto
  then have "card (fst ` set co - set (i # seen)) < card (fst ` set co - set seen)"
    by (intro psubset_card_mono) simp_all
  then show "((co, i # seen, k), co, seen, i) \<in> measure (\<lambda>(co, seen, i). card (fst ` set co - set seen))"
    by (simp only: in_measure prod.case)
qed simp

declare root_seen.simps [simp del]

definition same_site :: "finding \<Rightarrow> finding \<Rightarrow> bool" where
  "same_site a b \<longleftrightarrow> f_file a = f_file b \<and> ranges_overlap a b"

definition extend_dups :: "nat \<Rightarrow> dup_location list \<Rightarrow> finding list \<Rightarrow> finding list" where
  "extend_dups r ds fs = fs[r := (fs ! r)\<lparr>f_duplicates := f_duplicates (fs ! r) @ ds\<rparr>]"

definition attach_one ::
    "(nat, nat) pydict \<Rightarrow> (nat, pystr) pydict \<Rightarrow> nat \<times> nat \<Rightarrow> finding list \<Rightarrow> finding list" where
  "attach_one co reasoning jp fs =
     (let j = fst jp; r = root_seen co [] (snd jp);
          fs1 = (if same_site (fs ! j) (fs ! r) then fs
                 else extend_dups r
                        [make_dup_location (fs ! j) (dict_get_or reasoning j ''duplicate'')] fs)
      in if f_duplicates (fs1 ! j) = [] then fs1
         else (extend_dups r (f_duplicates (fs1 ! j)) fs1)
                [j := (extend_dups r (f_duplicates (fs1 ! j)) fs1 ! j)\<lparr>f_duplicates := []\<rparr>])"

definition dedup_at :: "nat \<Rightarrow> finding list \<Rightarrow> finding list" where
  "dedup_at r fs = fs[r := (fs ! r)\<lparr>f_duplicates := dedup_locations (f_duplicates (fs ! r))\<rparr>]"

text \<open>The set of roots is visited in some order; each visit changes only its own finding.\<close>

definition attach_duplicates ::
    "finding list \<Rightarrow> (nat, nat) pydict \<Rightarrow> (nat, pystr) pydict \<Rightarrow> finding list" where
  "attach_duplicates fs co reasoning =
     fold dedup_at (fromkeys (map (\<lambda>jp. root_seen co [] (snd jp)) co))
       (fold (attach_one co reasoning) co fs)"

section \<open>The pass before verification\<close>

definition unresolved_of :: "(nat, nat) pydict \<Rightarrow> nat \<Rightarrow> nat list" where
  "unresolved_of co n = filter (\<lambda>i. dict_get co i = None) [0..<n]"

definition resolved_of :: "(nat, nat) pydict \<Rightarrow> nat \<Rightarrow> nat list" where
  "resolved_of co n = filter (\<lambda>i. dict_get co i \<noteq> None) [0..<n]"

definition dedup_prefilter :: "int \<Rightarrow> finding list \<Rightarrow> finding list \<times> dropped_finding list" where
  "dedup_prefilter line_tol findings =
     (if length findings \<le> 1 then (findings, [])
      else
        let co = collapse_trivial line_tol findings;
            fs = attach_duplicates findings co (map (\<lambda>jp. (fst jp, trivial_reason)) co)
        in (map (\<lambda>i. fs ! i) (unresolved_of co (length fs)),
            map (\<lambda>i. drop_record (fs ! i) DropDuplicate trivial_reason None)
              (resolved_of co (length fs))))"

section \<open>The model's answer\<close>

text \<open>
  One line per input index.  The line grammar is the pattern \<open>_LINE_RE\<close>; what the model call
  returns is a parameter, \<open>None\<close> when it raised.
\<close>

definition line_re :: re where
  "line_re = nocase (seqs [
     lit ''index'', star (Cls py_space), Cls (one_of ''=''), star (Cls py_space),
     Grp 1 (plus (Cls py_digit)), plus (Cls py_space),
     lit ''is_duplicate'', star (Cls py_space), Cls (one_of ''=''), star (Cls py_space),
     Grp 2 (Alt (lit ''true'') (lit ''false'')), plus (Cls py_space),
     lit ''canonical'', star (Cls py_space), Cls (one_of ''=''), star (Cls py_space),
     Grp 3 (Seq (opt (Cls (one_of ''-''))) (plus (Cls py_digit))), plus (Cls py_space),
     lit ''reasoning'', star (Cls py_space), Cls (one_of ''=''), star (Cls py_space),
     Cls (\<lambda>c. c = CHR 0x22), Grp 4 (star (Cls (\<lambda>c. c \<noteq> CHR 0x22))), Cls (\<lambda>c. c = CHR 0x22)])"

definition signed_val :: "pystr \<Rightarrow> int" where
  "signed_val s = (if prefix ''-'' s then - int (digits_val (drop 1 s)) else int (digits_val s))"

definition parse_dedup_output :: "pystr \<Rightarrow> nat \<Rightarrow> (nat \<times> nat \<times> pystr) list" where
  "parse_dedup_output raw n =
     List.map_filter (\<lambda>m.
       let idx = int (digits_val (group_or raw m 1)); is_dup = (py_lower (group_or raw m 2) = ''true'');
           canon = signed_val (group_or raw m 3); why = py_strip (group_or raw m 4)
       in if \<not> is_dup then None
          else if 0 \<le> canon \<and> canon < idx \<and> idx < int n then Some (nat idx, nat canon, why)
          else None)
     (finditer line_re raw)"

definition semantic_dedup ::
    "(finding list \<Rightarrow> nat list \<Rightarrow> pystr option) \<Rightarrow> finding list \<Rightarrow> nat list \<Rightarrow> (nat \<times> nat \<times> pystr) list" where
  "semantic_dedup ask fs unresolved =
     (case ask fs unresolved of
        None \<Rightarrow> []
      | Some raw \<Rightarrow> parse_dedup_output raw (length unresolved))"

type_synonym dup_map_pair = "(nat, nat) pydict \<times> (nat, pystr) pydict"

fun merge_semantic :: "nat list \<Rightarrow> nat \<times> nat \<times> pystr \<Rightarrow> dup_map_pair \<Rightarrow> dup_map_pair" where
  "merge_semantic unresolved (local_idx, local_canon, why) (co, reasoning) =
     (let g_idx = unresolved ! local_idx; g_canon = unresolved ! local_canon
      in if dict_get co g_idx = None \<and> g_canon < g_idx
         then (dict_set g_idx g_canon co, dict_set g_idx why reasoning)
         else (co, reasoning))"

definition dup_maps ::
    "int \<Rightarrow> bool \<Rightarrow> (finding list \<Rightarrow> nat list \<Rightarrow> pystr option) \<Rightarrow> finding list \<Rightarrow> dup_map_pair" where
  "dup_maps line_tol semantic ask verified =
     (let co = collapse_trivial line_tol verified;
          reasoning = map (\<lambda>jp. (fst jp, trivial_reason)) co;
          unresolved = unresolved_of co (length verified)
      in if 2 \<le> length unresolved \<and> semantic
         then fold (merge_semantic unresolved) (semantic_dedup ask verified unresolved) (co, reasoning)
         else (co, reasoning))"

section \<open>The step\<close>

text \<open>The local \<open>root\<close> of \<open>run\<close> is a loop with no guard; not returning is \<open>None\<close>.\<close>

partial_function (option) root_while :: "(nat, nat) pydict \<Rightarrow> nat \<Rightarrow> nat option" where
  "root_while co i =
     (case dict_get co i of None \<Rightarrow> Some i | Some k \<Rightarrow> root_while co k)"

declare root_while.simps [code]

definition new_index_of :: "(nat, nat) pydict \<Rightarrow> nat \<Rightarrow> (nat, nat) pydict" where
  "new_index_of co n = zip (unresolved_of co n) [0..<length (unresolved_of co n)]"

fun drop_all ::
    "(nat, nat) pydict \<Rightarrow> (nat, pystr) pydict \<Rightarrow> (nat, nat) pydict \<Rightarrow> finding list \<Rightarrow> nat list \<Rightarrow>
     dropped_finding list option" where
  "drop_all co reasoning new_index fs [] = Some []"
| "drop_all co reasoning new_index fs (i # is) =
     (case root_while co i of
        None \<Rightarrow> None
      | Some r \<Rightarrow>
          map_option (\<lambda>rest.
            drop_record (fs ! i) DropDuplicate (dict_get_or reasoning i ''duplicate'')
              (dict_get new_index r) # rest)
          (drop_all co reasoning new_index fs is))"

definition dedup_run ::
    "int \<Rightarrow> bool \<Rightarrow> (finding list \<Rightarrow> nat list \<Rightarrow> pystr option) \<Rightarrow> finding list \<Rightarrow>
     (finding list \<times> dropped_finding list) option" where
  "dedup_run line_tol semantic ask verified =
     (if length verified \<le> 1 then Some (verified, [])
      else
        let (co, reasoning) = dup_maps line_tol semantic ask verified;
            fs = attach_duplicates verified co reasoning; n = length verified
        in map_option (\<lambda>dropped. (map (\<lambda>i. fs ! i) (unresolved_of co n), dropped))
             (drop_all co reasoning (new_index_of co n) fs (resolved_of co n)))"

end
