(* ===== verification/Prefilter.thy ===== *)
theory Prefilter
  imports Dedup CallGraph
begin

text \<open>
  Step 5, the deterministic gates before verification (\<open>pipeline/stages/s5_prefilter.py\<close>): the
  path, inventory, confidence and evidence gates, the backfill of missing references on what
  survives, and the two deduplications.  The text \<open>:.2f\<close> of a number is the argument \<open>fmt2\<close>; the
  dash of a message is written \<open>--\<close>.
\<close>

section \<open>Patterns\<close>

text \<open>
  \<open>(^|/)(tests?|__tests__|...)(/|$)|_test\.|\.test\.|\.spec\.|Test\.java$|Tests\.cs$\<close>, ignoring
  case.
\<close>

definition exclude_path_re :: re where
  "exclude_path_re = nocase (alts [
     seqs [Alt Bol (lit ''/''),
       alts [Seq (lit ''test'') (opt (lit ''s'')), lit ''__tests__'', Seq (lit ''mock'') (opt (lit ''s'')),
             Seq (lit ''example'') (opt (lit ''s'')), Seq (lit ''fixture'') (opt (lit ''s'')),
             Seq (lit ''sample'') (opt (lit ''s'')), lit ''testdata''],
       Alt (lit ''/'') Eol],
     lit ''_test.'', lit ''.test.'', lit ''.spec.'',
     Seq (lit ''Test.java'') Eol, Seq (lit ''Tests.cs'') Eol])"

definition secret_words_re :: re where
  "secret_words_re = alts [
     seqs [lit ''hard'', opt (Cls (\<lambda>c. py_space c \<or> c = CHR ''-'')), lit ''coded''],
     lit ''password'', lit ''passwd'',
     seqs [lit ''api'', opt (Cls (one_of ''_-'')), lit ''key''],
     seqs [lit ''access'', opt (Cls (one_of ''_-'')), lit ''key''],
     seqs [lit ''secret'', opt (Cls (one_of ''_-'')), lit ''key''],
     seqs [lit ''auth'', opt (Cls (one_of ''_-'')), lit ''token''],
     seqs [lit ''bearer'', plus (Cls py_space), lit ''token''],
     lit ''jwt'',
     seqs [lit ''private'', opt (Cls (one_of ''_-'')), lit ''key''],
     seqs [lit ''client'', opt (Cls (one_of ''_-'')), lit ''secret''],
     lit ''credential'']"

definition secret_text_re :: re where
  "secret_text_re = nocase (alts [
     seqs [Wordb, secret_words_re, Wordb],
     seqs [lit ''-----BEGIN'', plus (Cls py_space), star (Cls (\<lambda>c. is_upper_char c \<or> c = CHR '' '')),
       lit ''PRIVATE'', plus (Cls py_space), lit ''KEY-----''],
     seqs [Wordb, lit ''AKIA'', times_re 16 16 (Cls (\<lambda>c. py_digit c \<or> is_upper_char c)), Wordb],
     seqs [Wordb, lit ''gh'', Cls (one_of ''pousr''), lit ''_'', at_least 36 (Cls is_alnum_char), Wordb],
     seqs [Wordb, lit ''xox'', Cls (one_of ''baprs''), lit ''-'',
       at_least 10 (Cls (\<lambda>c. is_alnum_char c \<or> c = CHR ''-'')), Wordb]])"

definition is_secret_class :: "finding \<Rightarrow> bool" where
  "is_secret_class f \<longleftrightarrow>
     f_vuln_class f = INFO_LEAK \<or>
     re_search secret_text_re
       (join_with '' '' (filter (\<lambda>s. s \<noteq> []) [f_title f, f_description f, f_code_snippet f]))"

section \<open>Configuration\<close>

record gate_section =
  gs_min_pre_confidence :: "rat option"
  gs_require_evidence :: "bool option"
  gs_ast_backfill_evidence :: "bool option"

record prefilter_cfg =
  pc_step5_prefilter :: "gate_section option"
  pc_step6_verify :: "gate_section option"
  pc_line_tolerance :: int
  pc_pre_verify_threshold :: int
  pc_semantic :: bool

text \<open>A gate is read from the new section, else from the legacy one, else it has its default.\<close>

definition gate_value :: "prefilter_cfg \<Rightarrow> (gate_section \<Rightarrow> 'a option) \<Rightarrow> 'a \<Rightarrow> 'a" where
  "gate_value cfg key dflt =
     (case Option.bind (pc_step5_prefilter cfg) key of
        Some v \<Rightarrow> v
      | None \<Rightarrow> (case Option.bind (pc_step6_verify cfg) key of Some v \<Rightarrow> v | None \<Rightarrow> dflt))"

section \<open>Backfill\<close>

fun closest :: "int \<Rightarrow> int \<Rightarrow> int list \<Rightarrow> int" where
  "closest l b [] = b"
| "closest l b (x # xs) = closest l (if \<bar>x - l\<bar> < \<bar>b - l\<bar> then x else b) xs"

definition ref_text :: "pystr option \<Rightarrow> pystr" where
  "ref_text r = py_strip (case r of Some s \<Rightarrow> s | None \<Rightarrow> [])"

definition place_ref :: "pystr \<Rightarrow> int \<Rightarrow> pystr" where
  "place_ref f l = f @ '':'' @ show_int l"

text \<open>The source reference to fill in; \<open>[]\<close> when nothing is known.\<close>

definition backfill_source ::
    "finding \<Rightarrow> pystr \<Rightarrow> (pystr, int list) pydict \<Rightarrow> (pystr, pystr list list) pydict \<Rightarrow> pystr" where
  "backfill_source f sink anchors seed_idx =
     (if f_vuln_class f = INFO_LEAK then sink
      else case dict_get_or anchors (f_file f) [] of
        a # as \<Rightarrow> place_ref (f_file f) (closest (f_line_start f) a as)
      | [] \<Rightarrow> (case best_source_from_seed (dict_get_or seed_idx (f_file f) []) of
                 Some s \<Rightarrow> s | None \<Rightarrow> []))"

definition ast_backfill_evidence ::
    "finding \<Rightarrow> (pystr, int list) pydict \<Rightarrow> (pystr, pystr list list) pydict \<Rightarrow> finding" where
  "ast_backfill_evidence f anchors seed_idx =
     (let src0 = ref_text (f_source_ref f); sink0 = ref_text (f_sink_ref f);
          sink = (if sink0 = [] then place_ref (f_file f) (max 1 (f_line_start f)) else sink0);
          src = (if src0 = [] then backfill_source f sink anchors seed_idx else src0);
          filled = (if sink0 = [] then [''sink_ref''] else []) @
                   (if src0 = [] \<and> src \<noteq> [] then [''source_ref''] else [])
      in if filled = [] then f
         else f\<lparr>f_source_ref := nonempty src, f_sink_ref := nonempty sink,
                f_backfilled_refs := sort (remdups (f_backfilled_refs f @ filled))\<rparr>)"

section \<open>Gates\<close>

text \<open>Why a finding is dropped, in the order of the chain of tests.\<close>

definition gate_drop ::
    "(rat \<Rightarrow> pystr) \<Rightarrow> pystr list option \<Rightarrow> rat \<Rightarrow> bool \<Rightarrow> finding \<Rightarrow> (drop_reason \<times> pystr) option" where
  "gate_drop fmt2 valid_files min_conf require_evidence f =
     (let in_test_path = re_search exclude_path_re (f_file f);
          secret_class = in_test_path \<and> is_secret_class f
      in if in_test_path \<and> \<not> secret_class then Some (DropExcluded, ''test/mock/example path'')
         else if valid_files \<noteq> None \<and> f_file f \<notin> set (the valid_files)
         then Some (DropExcluded, ''file not in repo inventory'')
         else if f_confidence f < min_conf
         then Some (DropUnconfirmed, ''s4 confidence '' @ fmt2 (f_confidence f) @ '' < gate '' @ fmt2 min_conf)
         else if require_evidence \<and> \<not> (ref_text (f_source_ref f) \<noteq> [] \<and> ref_text (f_sink_ref f) \<noteq> [])
         then Some (DropUnconfirmed, ''missing source_ref/sink_ref -- data flow unproven'')
         else None)"

fun run_gates ::
    "(finding \<Rightarrow> (drop_reason \<times> pystr) option) \<Rightarrow> (finding \<Rightarrow> finding) \<Rightarrow> finding list \<Rightarrow>
     finding list \<times> dropped_finding list" where
  "run_gates gate backfill [] = ([], [])"
| "run_gates gate backfill (f # fs) =
     (let (keep, dropped) = run_gates gate backfill fs in
      case gate f of
        Some (reason, detail) \<Rightarrow> (keep, drop_record f reason detail None # dropped)
      | None \<Rightarrow> (backfill f # keep, dropped))"

section \<open>The step\<close>

definition prefilter_gates :: "(rat \<Rightarrow> pystr) \<Rightarrow> context_package \<Rightarrow> prefilter_cfg \<Rightarrow> finding \<Rightarrow> (drop_reason \<times> pystr) option" where
  "prefilter_gates fmt2 ctx cfg =
     gate_drop fmt2 (if cp_all_files ctx = [] then None else Some (cp_all_files ctx))
       (gate_value cfg gs_min_pre_confidence 0) (gate_value cfg gs_require_evidence False)"

definition backfill_of :: "context_package \<Rightarrow> prefilter_cfg \<Rightarrow> finding \<Rightarrow> finding" where
  "backfill_of ctx cfg f =
     (if gate_value cfg gs_ast_backfill_evidence True
      then ast_backfill_evidence f (entry_anchor_lines ctx) (seed_paths_by_file (cp_seed_taint_paths ctx))
      else f)"

definition stale_record :: "dropped_finding \<Rightarrow> dropped_finding" where
  "stale_record d = d\<lparr>x_canonical_idx := None, x_detail := ''pre-verify semantic: '' @ x_detail d\<rparr>"

definition prefilter_run ::
    "(rat \<Rightarrow> pystr) \<Rightarrow> (finding list \<Rightarrow> nat list \<Rightarrow> pystr option) \<Rightarrow> context_package \<Rightarrow> prefilter_cfg \<Rightarrow>
     finding list \<Rightarrow> (finding list \<times> dropped_finding list) option" where
  "prefilter_run fmt2 ask ctx cfg findings =
     (let (keep, dropped) = run_gates (prefilter_gates fmt2 ctx cfg) (backfill_of ctx cfg) findings;
          (keep, dup_dropped) = dedup_prefilter (pc_line_tolerance cfg) keep;
          dropped = dropped @ dup_dropped
      in if pc_pre_verify_threshold cfg \<noteq> 0 \<and> pc_pre_verify_threshold cfg \<le> int (length keep) \<and>
            pc_semantic cfg
         then map_option (\<lambda>(keep, sem_dropped). (keep, dropped @ map stale_record sem_dropped))
                (dedup_run (pc_line_tolerance cfg) True ask keep)
         else Some (keep, dropped))"

end
