(* ===== verification/Verify.thy ===== *)
theory Verify
  imports Findings Cvss
begin

text \<open>
  Step 6, adversarial verification (\<open>pipeline/stages/s6_verify.py\<close>): reading the verdict out of
  the verifier's reply, and sorting the findings into verified and dropped as the workers
  complete.  What the agent of a finding does is a parameter; so is the order of completion.
\<close>

section \<open>Reading a verdict\<close>

definition cvss_re :: re where
  "cvss_re = seqs [cvss_prefix_re,
     lit ''/AV:'', Cls (one_of ''NALP''), lit ''/AC:'', Cls (one_of ''LH''),
     lit ''/PR:'', Cls (one_of ''NLH''), lit ''/UI:'', Cls (one_of ''NR''), lit ''/S:'', Cls (one_of ''UC''),
     lit ''/C:'', Cls (one_of ''NLH''), lit ''/I:'', Cls (one_of ''NLH''), lit ''/A:'', Cls (one_of ''NLH'')]"

text \<open>Of the dashes the pattern accepts before the reason, only \<open>-\<close> is ASCII.\<close>

definition verdict_re :: re where
  "verdict_re = nocase (seqs [
     lit ''VERDICT:'', star (Cls py_space),
     Grp 1 (Alt (lit ''TRUE_POSITIVE'') (lit ''FALSE_POSITIVE'')), star (Cls py_space),
     lit ''(confidence:'', star (Cls py_space), Grp 2 (times_re 1 2 (Cls py_digit)), star (Cls py_space),
     lit ''/'', star (Cls py_space), lit ''10)'', star (Cls py_space), opt (Cls (one_of ''-'')),
     star (Cls py_space), Grp 3 (star (Cls (\<lambda>c. c \<noteq> CHR 0x0A)))])"

definition verdict_of :: "pystr \<Rightarrow> tp_verdict" where
  "verdict_of s = (if py_upper s = ''TRUE_POSITIVE'' then TRUE_POSITIVE else FALSE_POSITIVE)"

definition unparseable :: pystr where
  "unparseable = ''verifier output unparseable''"

record parsed_verdict =
  v_verdict :: tp_verdict
  v_conf :: int
  v_reason :: pystr
  v_cvss :: "pystr option"
  v_reasoning :: pystr

text \<open>The last line of the reply that carries a verdict: its index and its match.\<close>

fun last_verdict :: "pystr list \<Rightarrow> (nat \<times> re_match) option" where
  "last_verdict [] = None"
| "last_verdict (l # ls) =
     (case last_verdict ls of
        Some (i, m) \<Rightarrow> Some (Suc i, m)
      | None \<Rightarrow> map_option (\<lambda>m. (0, m)) (search_from verdict_re l 0))"

definition last_match :: "re \<Rightarrow> pystr \<Rightarrow> re_match option" where
  "last_match r s = (case finditer r s of [] \<Rightarrow> None | ms \<Rightarrow> Some (last ms))"

definition find_cvss :: "pystr list \<Rightarrow> pystr \<Rightarrow> pystr option" where
  "find_cvss tail_lines raw =
     (let tl = join_with [CHR 0x0A] tail_lines in
      case search_from cvss_re tl 0 of
        Some m \<Rightarrow> Some (group_or tl m 0)
      | None \<Rightarrow> map_option (\<lambda>m. group_or raw m 0) (last_match cvss_re raw))"

definition parse_reply_verdict :: "pystr \<Rightarrow> parsed_verdict" where
  "parse_reply_verdict raw =
     (let lines = splitlines (py_strip raw) in
      case last_verdict lines of
        None \<Rightarrow>
          \<lparr>v_verdict = FALSE_POSITIVE, v_conf = 0, v_reason = unparseable,
           v_cvss = find_cvss [] raw, v_reasoning = py_strip (join_with [CHR 0x0A] lines)\<rparr>
      | Some (i, m) \<Rightarrow>
          let l = lines ! i; reason = py_strip (group_or l m 3)
          in \<lparr>v_verdict = verdict_of (group_or l m 1),
              v_conf = max 0 (min 10 (int (digits_val (group_or l m 2)))),
              v_reason = (if reason = [] then ''(no reason given)'' else reason),
              v_cvss = find_cvss (drop i lines) raw,
              v_reasoning = py_strip (join_with [CHR 0x0A] (take i lines))\<rparr>)"

section \<open>One finding\<close>

datatype agent_result = Reply pystr | GuardrailBlocked pystr | AgentError pystr

definition verified_finding :: "finding \<Rightarrow> pystr \<Rightarrow> finding" where
  "verified_finding f raw =
     (let p = parse_reply_verdict raw; s = cvss_score (v_cvss p) in
      f\<lparr>f_verdict := Some (v_verdict p), f_verdict_confidence := Some (v_conf p),
        f_verdict_reason := v_reason p, f_cvss_vector := v_cvss p, f_cvss_score := s,
        f_cvss_rating := (if s = None then None else Some (cvss_rating s)),
        f_verifier_reasoning := v_reasoning p\<rparr>)"

text \<open>\<open>f.verdict_confidence or 0\<close>, and its text.\<close>

definition confidence_or_0 :: "finding \<Rightarrow> int" where
  "confidence_or_0 f = (case f_verdict_confidence f of Some c \<Rightarrow> c | None \<Rightarrow> 0)"

definition confidence_text :: "finding \<Rightarrow> pystr" where
  "confidence_text f = (case f_verdict_confidence f of Some c \<Rightarrow> show_int c | None \<Rightarrow> ''None'')"

text \<open>What becomes of a finding that was verified: \<open>None\<close> when it is kept.\<close>

definition verdict_drop :: "int \<Rightarrow> finding \<Rightarrow> (drop_reason \<times> pystr) option" where
  "verdict_drop min_conf f =
     (if f_verdict f = Some TRUE_POSITIVE \<and> min_conf \<le> confidence_or_0 f then None
      else if f_verdict f = Some TRUE_POSITIVE
      then Some (DropUnconfirmed, ''verifier confidence '' @ confidence_text f @ ''/10 below gate '' @ show_int min_conf)
      else if f_verdict_reason f = unparseable \<and> confidence_or_0 f = 0
      then Some (DropVerifyError, f_verdict_reason f)
      else Some (DropFalsePositive, f_verdict_reason f))"

section \<open>The step\<close>

record verify_state =
  vs_verified :: "finding list"
  vs_dropped :: "dropped_finding list"
  vs_guardrail_hits :: int

text \<open>The run stops when too many workers were blocked and none had succeeded.\<close>

datatype verify_abort = GuardrailAbort int

definition verify_step ::
    "int \<Rightarrow> int \<Rightarrow> finding \<Rightarrow> agent_result \<Rightarrow> verify_state \<Rightarrow> verify_abort + verify_state" where
  "verify_step par min_conf f result st =
     (case result of
        GuardrailBlocked e \<Rightarrow>
          (let hits = vs_guardrail_hits st + 1;
               st' = st\<lparr>vs_guardrail_hits := hits,
                 vs_dropped := vs_dropped st @ [drop_record f DropGuardrailBlocked (take 200 e) None]\<rparr>
           in if max 3 par \<le> hits \<and> vs_verified st = [] then Inl (GuardrailAbort hits) else Inr st')
      | AgentError e \<Rightarrow>
          Inr (st\<lparr>vs_dropped := vs_dropped st @ [drop_record f DropVerifyError (take 200 e) None]\<rparr>)
      | Reply raw \<Rightarrow>
          (let f2 = verified_finding f raw in
           case verdict_drop min_conf f2 of
             None \<Rightarrow> Inr (st\<lparr>vs_verified := vs_verified st @ [f2]\<rparr>)
           | Some (reason, detail) \<Rightarrow>
               Inr (st\<lparr>vs_dropped := vs_dropped st @ [drop_record f2 reason detail None]\<rparr>)))"

fun verify_loop ::
    "int \<Rightarrow> int \<Rightarrow> (nat \<Rightarrow> finding \<Rightarrow> agent_result) \<Rightarrow> finding list \<Rightarrow> nat list \<Rightarrow> verify_state \<Rightarrow>
     verify_abort + verify_state" where
  "verify_loop par min_conf agent fs [] st = Inr st"
| "verify_loop par min_conf agent fs (i # is) st =
     and_then (verify_step par min_conf (fs ! i) (agent i (fs ! i)) st)
       (verify_loop par min_conf agent fs is)"

text \<open>\<open>order\<close> is the order in which the workers complete.\<close>

definition verify_run ::
    "int \<Rightarrow> int \<Rightarrow> (nat \<Rightarrow> finding \<Rightarrow> agent_result) \<Rightarrow> nat list \<Rightarrow> finding list \<Rightarrow>
     verify_abort + finding list \<times> dropped_finding list" where
  "verify_run par min_conf agent order findings =
     and_then (verify_loop par min_conf agent findings order
         \<lparr>vs_verified = [], vs_dropped = [], vs_guardrail_hits = 0\<rparr>)
       (\<lambda>st. Inr (vs_verified st, vs_dropped st))"

end
