(* ===== verification/Chain.thy ===== *)
theory Chain
  imports Findings PyVal "HOL-Library.Product_Lexorder"
begin

text \<open>
  Step 8, the final report (\<open>pipeline/stages/s8_chain.py\<close>): reading the chain model's reply,
  which may be anything, into ranked findings and chains, the order of the report, and the
  degraded report when the reply cannot be used.
\<close>

section \<open>Data\<close>

datatype severity = CRITICAL | HIGH | MEDIUM | LOW | INFO

record chain =
  ch_title :: pystr
  ch_steps :: "nat list"
  ch_severity :: severity
  ch_blocked_by_controls :: "pystr list"
  ch_narrative :: pystr

record ranked_finding =
  rk_finding :: finding
  rk_severity :: severity
  rk_notes :: pystr

record final_report =
  fr_findings :: "ranked_finding list"
  fr_chains :: "chain list"
  fr_dropped :: "dropped_finding list"
  fr_raw_findings_count :: int
  fr_summary :: pystr
  fr_degraded :: bool

text \<open>
  The model's reply after the call and the extraction of a JSON value from it: the call
  raised, no value was found, or a value.
\<close>

datatype chain_reply = CallFailed pystr | NoJson pystr | Reply_value pyval

section \<open>Severity\<close>

fun severity_named :: "pystr \<Rightarrow> severity option" where
  "severity_named s =
     (if s = ''critical'' then Some CRITICAL else if s = ''high'' then Some HIGH
      else if s = ''medium'' then Some MEDIUM else if s = ''low'' then Some LOW
      else if s = ''info'' then Some INFO else None)"

definition coerce_sev :: "(pyval \<Rightarrow> pystr) \<Rightarrow> pyval \<Rightarrow> severity" where
  "coerce_sev rep v =
     (if \<not> truthy v then INFO
      else case severity_named (py_lower (py_strip (py_str rep v))) of Some s \<Rightarrow> s | None \<Rightarrow> INFO)"

definition cvss_band_to_sev :: "(pystr, severity) pydict" where
  "cvss_band_to_sev =
     [(''critical'', CRITICAL), (''high'', HIGH), (''medium'', MEDIUM), (''low'', LOW)]"

definition sev_from_band :: "pystr option \<Rightarrow> severity option" where
  "sev_from_band rating =
     dict_get cvss_band_to_sev (py_lower (py_strip (case rating of Some r \<Rightarrow> r | None \<Rightarrow> [])))"

definition final_severity :: "finding \<Rightarrow> severity \<Rightarrow> severity" where
  "final_severity f llm_label =
     (case sev_from_band (f_vsvs_rating f) of
        Some s \<Rightarrow> s
      | None \<Rightarrow> (case sev_from_band (f_cvss_rating f) of Some s \<Rightarrow> s | None \<Rightarrow> llm_label))"

definition offensive_rank :: "finding \<Rightarrow> nat" where
  "offensive_rank f =
     (let op = py_upper (py_strip (case f_offensive_priority f of Some p \<Rightarrow> p | None \<Rightarrow> [])) in
      case op of
        [p, d] \<Rightarrow> if p = CHR ''P'' \<and> py_digit d then digit_val d else 9
      | _ \<Rightarrow> 9)"

fun sev_order :: "severity \<Rightarrow> nat" where
  "sev_order CRITICAL = 0"
| "sev_order HIGH = 1"
| "sev_order MEDIUM = 2"
| "sev_order LOW = 3"
| "sev_order INFO = 4"

definition rank_key :: "ranked_finding \<Rightarrow> nat \<times> nat" where
  "rank_key r = (sev_order (rk_severity r), offensive_rank (rk_finding r))"

definition severity_sort_order :: "ranked_finding list \<Rightarrow> nat list" where
  "severity_sort_order ranked = sort_key (\<lambda>k. rank_key (ranked ! k)) [0..<length ranked]"

section \<open>Links into the report\<close>

text \<open>\<open>orig_to_sorted\<close>: where the finding of an original index stands in the report.\<close>

definition positions :: "nat list \<Rightarrow> (nat, nat) pydict" where
  "positions origs = zip origs [0..<length origs]"

definition remap_dropped :: "(nat, nat) pydict \<Rightarrow> dropped_finding \<Rightarrow> dropped_finding" where
  "remap_dropped pos d =
     (case x_canonical_idx d of
        None \<Rightarrow> d
      | Some i \<Rightarrow>
          if x_reason d = DropDuplicate \<and> dict_get pos i \<noteq> None
          then d\<lparr>x_canonical_idx := dict_get pos i\<rparr> else d)"

section \<open>The degraded report\<close>

definition unranked_report ::
    "finding list \<Rightarrow> dropped_finding list \<Rightarrow> int \<Rightarrow> pystr \<Rightarrow> final_report" where
  "unranked_report findings dropped raw_count summary =
     (let ranked = map (\<lambda>f. \<lparr>rk_finding = f, rk_severity = final_severity f INFO,
            rk_notes = ''(chain analysis unavailable -- severity from CVSS only)''\<rparr>) findings;
          order = severity_sort_order ranked
      in \<lparr>fr_findings = map (\<lambda>k. ranked ! k) order, fr_chains = [],
          fr_dropped = map (remap_dropped (positions order)) dropped,
          fr_raw_findings_count = raw_count, fr_summary = summary, fr_degraded = True\<rparr>)"

section \<open>Hydration\<close>

text \<open>Whatever the hydration raises: a \<open>TypeError\<close> or pydantic's \<open>ValidationError\<close>.\<close>

datatype hydrate_error = HydrateError

definition items_of :: "pyval \<Rightarrow> hydrate_error + pyval list" where
  "items_of v = or_raise (py_iter (py_or v (PList []))) HydrateError"

definition as_text :: "pyval \<Rightarrow> hydrate_error + pystr" where
  "as_text v = (case v of PStr s \<Rightarrow> Inr s | _ \<Rightarrow> Inl HydrateError)"

text \<open>\<open>item.get(k, default)\<close>.\<close>

definition get_default :: "pymap \<Rightarrow> pystr \<Rightarrow> pyval \<Rightarrow> pyval" where
  "get_default m k v = dict_get_or m k v"

text \<open>An index the model gave: an int, not a bool, of a finding not ranked yet.\<close>

definition rank_index :: "nat \<Rightarrow> nat list \<Rightarrow> pyval \<Rightarrow> nat option" where
  "rank_index n covered v =
     (case v of
        PInt i \<Rightarrow> if i < 0 \<or> int n \<le> i \<or> nat i \<in> set covered then None else Some (nat i)
      | _ \<Rightarrow> None)"

fun hydrate_ranked ::
    "(pyval \<Rightarrow> pystr) \<Rightarrow> finding list \<Rightarrow> pyval list \<Rightarrow> (nat \<times> ranked_finding) list \<Rightarrow>
     hydrate_error + (nat \<times> ranked_finding) list" where
  "hydrate_ranked rep findings [] acc = Inr acc"
| "hydrate_ranked rep findings (v # vs) acc =
     (case v of
        PDict item \<Rightarrow>
          (case rank_index (length findings) (map fst acc) (py_get item ''index'') of
             None \<Rightarrow> hydrate_ranked rep findings vs acc
           | Some i \<Rightarrow>
               and_then (as_text (get_default item ''exploitability_notes'' (PStr []))) (\<lambda>notes.
                 hydrate_ranked rep findings vs
                   (acc @ [(i, \<lparr>rk_finding = findings ! i,
                      rk_severity = final_severity (findings ! i) (coerce_sev rep (py_get item ''severity'')),
                      rk_notes = notes\<rparr>)])))
      | _ \<Rightarrow> hydrate_ranked rep findings vs acc)"

definition unranked_rest :: "finding list \<Rightarrow> nat list \<Rightarrow> (nat \<times> ranked_finding) list" where
  "unranked_rest findings covered =
     map (\<lambda>i. (i, \<lparr>rk_finding = findings ! i, rk_severity = final_severity (findings ! i) INFO,
         rk_notes = ''(not ranked by chaining pass)''\<rparr>))
       (filter (\<lambda>i. i \<notin> set covered) [0..<length findings])"

definition int_steps :: "pyval list \<Rightarrow> int list" where
  "int_steps vs = List.map_filter (\<lambda>v. case v of PInt i \<Rightarrow> Some i | _ \<Rightarrow> None) vs"

definition step_position :: "(nat, nat) pydict \<Rightarrow> int \<Rightarrow> nat option" where
  "step_position pos i = (if i < 0 then None else dict_get pos (nat i))"

definition show_int_list :: "int list \<Rightarrow> pystr" where
  "show_int_list is = ''['' @ join_with '', '' (map show_int is) @ '']''"

definition step_note :: "pystr \<Rightarrow> int list \<Rightarrow> pystr" where
  "step_note narrative lost =
     py_strip (narrative @ [CHR 0x0A, CHR 0x0A] @
       ''_Note: this chain referenced finding indices '' @ show_int_list (take 20 lost) @
       (if length lost \<le> 20 then [] else '' (+'' @ show_int (int (length lost) - 20) @ '' more)'') @
       '' that were not in the verified set; they have been omitted from the path above._'')"

definition list_or_empty :: "pyval \<Rightarrow> pyval list" where
  "list_or_empty v = (case py_or v (PList []) of PList vs \<Rightarrow> vs | _ \<Rightarrow> [])"

fun all_text :: "pyval list \<Rightarrow> hydrate_error + pystr list" where
  "all_text [] = Inr []"
| "all_text (v # vs) = and_then (as_text v) (\<lambda>s. and_then (all_text vs) (\<lambda>ss. Inr (s # ss)))"

text \<open>One chain: \<open>None\<close> when fewer than two of its steps are findings of the report.\<close>

definition hydrate_chain ::
    "(pyval \<Rightarrow> pystr) \<Rightarrow> (nat, nat) pydict \<Rightarrow> pymap \<Rightarrow> hydrate_error + chain option" where
  "hydrate_chain rep pos item =
     (let steps = int_steps (list_or_empty (py_get item ''steps''));
          remapped = List.map_filter (step_position pos) steps;
          lost = filter (\<lambda>i. step_position pos i = None) steps;
          narrative = py_or (get_default item ''narrative'' (PStr [])) (PStr [])
      in if length remapped < 2 then Inr None
         else
           and_then (as_text (py_or (get_default item ''title'' (PStr ''Unnamed chain''))
               (PStr ''Unnamed chain''))) (\<lambda>title.
           and_then (all_text (list_or_empty (py_get item ''blocked_by_controls''))) (\<lambda>blocked.
           and_then (if lost = [] then as_text narrative
               else Inr (step_note (py_str rep narrative) lost)) (\<lambda>text.
           Inr (Some \<lparr>ch_title = title, ch_steps = remapped,
             ch_severity = coerce_sev rep (py_get item ''severity''),
             ch_blocked_by_controls = blocked, ch_narrative = text\<rparr>)))))"

fun hydrate_chains ::
    "(pyval \<Rightarrow> pystr) \<Rightarrow> (nat, nat) pydict \<Rightarrow> pyval list \<Rightarrow> hydrate_error + chain list" where
  "hydrate_chains rep pos [] = Inr []"
| "hydrate_chains rep pos (v # vs) =
     (case v of
        PDict item \<Rightarrow>
          and_then (hydrate_chain rep pos item) (\<lambda>c.
            and_then (hydrate_chains rep pos vs) (\<lambda>cs.
              Inr (case c of None \<Rightarrow> cs | Some c \<Rightarrow> c # cs)))
      | _ \<Rightarrow> hydrate_chains rep pos vs)"

definition hydrate_report ::
    "(pyval \<Rightarrow> pystr) \<Rightarrow> pymap \<Rightarrow> finding list \<Rightarrow> dropped_finding list \<Rightarrow> int \<Rightarrow>
     hydrate_error + final_report" where
  "hydrate_report rep data findings dropped raw_count =
     and_then (items_of (py_get data ''ranked_findings'')) (\<lambda>items.
     and_then (hydrate_ranked rep findings items []) (\<lambda>pairs.
       let pairs = pairs @ unranked_rest findings (map fst pairs);
           ranked = map snd pairs; origs = map fst pairs;
           order = severity_sort_order ranked;
           pos = positions (map (\<lambda>k. origs ! k) order)
       in and_then (items_of (py_get data ''chains'')) (\<lambda>citems.
          and_then (hydrate_chains rep pos citems) (\<lambda>chains.
          Inr \<lparr>fr_findings = map (\<lambda>k. ranked ! k) order, fr_chains = chains,
               fr_dropped = map (remap_dropped pos) dropped,
               fr_raw_findings_count = raw_count,
               fr_summary = (case py_get data ''summary'' of PStr s \<Rightarrow> s | _ \<Rightarrow> []),
               fr_degraded = False\<rparr>))))"

section \<open>The step\<close>

definition has_key :: "pystr \<Rightarrow> pymap \<Rightarrow> bool" where
  "has_key k m \<longleftrightarrow> dict_get m k \<noteq> None"

definition coerce_list_payload :: "pyval list \<Rightarrow> pymap option" where
  "coerce_list_payload items =
     (let dicts = mappings_of items in
      if dicts \<noteq> [] \<and> list_all (\<lambda>x. has_key ''steps'' x \<or> has_key ''title'' x) dicts
      then Some [(''chains'', PList (map PDict dicts))]
      else if dicts \<noteq> [] \<and> list_all (has_key ''index'') dicts
      then Some [(''ranked_findings'', PList (map PDict dicts))]
      else None)"

definition reply_object :: "chain_reply \<Rightarrow> pystr + pymap" where
  "reply_object r =
     (case r of
        CallFailed e \<Rightarrow> Inl (''Chain analysis call failed ('' @ e @ '')'')
      | NoJson e \<Rightarrow> Inl (''Chain analysis failed to parse ('' @ e @ '')'')
      | Reply_value (PDict m) \<Rightarrow> Inr m
      | Reply_value (PList vs) \<Rightarrow>
          or_raise (coerce_list_payload vs) ''Chain analysis failed to parse (top-level array)''
      | Reply_value _ \<Rightarrow> Inl ''Chain analysis failed to parse (expected JSON object)'')"

definition degraded_summary :: "pystr \<Rightarrow> finding list \<Rightarrow> pystr" where
  "degraded_summary why findings =
     why @ ''. '' @ show_nat (length findings) @ '' verified findings reported unranked.''"

definition chain_run ::
    "(pyval \<Rightarrow> pystr) \<Rightarrow> chain_reply \<Rightarrow> finding list \<Rightarrow> dropped_finding list \<Rightarrow> int \<Rightarrow> final_report" where
  "chain_run rep reply findings dropped raw_count =
     (if findings = [] then
        \<lparr>fr_findings = [], fr_chains = [], fr_dropped = dropped, fr_raw_findings_count = raw_count,
         fr_summary = ''No findings survived adversarial verification.'', fr_degraded = False\<rparr>
      else case reply_object reply of
        Inl why \<Rightarrow> unranked_report findings dropped raw_count (degraded_summary why findings)
      | Inr data \<Rightarrow>
          (case hydrate_report rep data findings dropped raw_count of
             Inr report \<Rightarrow> report
           | Inl _ \<Rightarrow> unranked_report findings dropped raw_count
               (degraded_summary ''Chain analysis hydration failed'' findings)))"

end
