(* ===== verification/Pipeline.thy ===== *)
theory Pipeline
  imports Prefilter Verify Chain
begin

text \<open>
  The end of a scan (\<open>orchestrator/scan.py\<close>, steps 5 to 8 of a fresh run): gates, verification,
  deduplication, enrichment (\<open>orchestrator/enrich_findings.py\<close>) and the report.  The scores that
  \<open>report/enrich.py\<close> computes are parameters.
\<close>

section \<open>Enrichment\<close>

definition prefix_path :: "pystr option \<Rightarrow> pystr \<Rightarrow> pystr option" where
  "prefix_path path pre =
     (case path of
        None \<Rightarrow> None
      | Some p \<Rightarrow> if p = [] \<or> prefix (pre @ ''/'') p then Some p else Some (pre @ ''/'' @ p))"

definition prefix_ref :: "pystr option \<Rightarrow> pystr \<Rightarrow> pystr option" where
  "prefix_ref ref pre =
     (case ref of
        None \<Rightarrow> None
      | Some r \<Rightarrow>
          if r = [] then Some r
          else
            let (file_part, sep, line_part) =
              (case cut_first '':'' r of None \<Rightarrow> (r, [], []) | Some (a, b) \<Rightarrow> (a, '':'', b))
            in Some ((case prefix_path (Some file_part) pre of Some p \<Rightarrow> p | None \<Rightarrow> ''None'') @ sep @ line_part))"

record vsvs_result =
  vr_vector :: pystr
  vr_score :: rat
  vr_rating :: pystr

record enrich_env =
  en_path_prefix :: "pystr option"
  en_vsvs :: "pystr \<Rightarrow> vsvs_result option"
  en_offensive :: "finding \<Rightarrow> pystr option \<times> pystr"

definition prefix_finding :: "pystr \<Rightarrow> finding \<Rightarrow> finding" where
  "prefix_finding pre f =
     f\<lparr>f_file := the (prefix_path (Some (f_file f)) pre),
       f_source_ref := prefix_ref (f_source_ref f) pre, f_sink_ref := prefix_ref (f_sink_ref f) pre\<rparr>"

text \<open>\<open>en_vsvs\<close> is \<open>None\<close> throughout when there is no application profile.\<close>

definition enrich_finding :: "enrich_env \<Rightarrow> finding \<Rightarrow> finding" where
  "enrich_finding env f =
     (let f1 = (case en_path_prefix env of
                  Some p \<Rightarrow> if p = [] then f else prefix_finding p f | None \<Rightarrow> f);
          f2 = (case f_cvss_vector f1 of
                  Some v \<Rightarrow>
                    if v = [] then f1
                    else (case en_vsvs env v of
                       Some r \<Rightarrow> f1\<lparr>f_vsvs_vector := Some (vr_vector r), f_vsvs_score := Some (vr_score r),
                         f_vsvs_rating := Some (vr_rating r)\<rparr>
                     | None \<Rightarrow> f1)
                | None \<Rightarrow> f1)
      in f2\<lparr>f_offensive_priority := fst (en_offensive env f2), f_offensive_reason := snd (en_offensive env f2)\<rparr>)"

definition enrich_findings :: "enrich_env \<Rightarrow> finding list \<Rightarrow> finding list" where
  "enrich_findings env fs = map (enrich_finding env) fs"

section \<open>Steps 5 to 8\<close>

text \<open>
  What the outside contributes: the semantic model before and after verification, the agents
  and the order they finish in, the chain model's reply on the canonical findings.
\<close>

record scan_world =
  w_ask5 :: "finding list \<Rightarrow> nat list \<Rightarrow> pystr option"
  w_agent :: "nat \<Rightarrow> finding \<Rightarrow> agent_result"
  w_order :: "nat \<Rightarrow> nat list"
  w_ask7 :: "finding list \<Rightarrow> nat list \<Rightarrow> pystr option"
  w_chain :: "finding list \<Rightarrow> chain_reply"
  w_env :: enrich_env

record scan_cfg =
  sc_prefilter :: prefilter_cfg
  sc_parallel :: int
  sc_min_confidence :: int
  sc_semantic :: bool

datatype scan_error = ScanDiverged | ScanAborted verify_abort

definition scan_tail ::
    "(rat \<Rightarrow> pystr) \<Rightarrow> (pyval \<Rightarrow> pystr) \<Rightarrow> scan_world \<Rightarrow> context_package \<Rightarrow> scan_cfg \<Rightarrow> finding list \<Rightarrow>
     scan_error + final_report" where
  "scan_tail fmt2 rep w ctx cfg raw =
     and_then (or_raise (prefilter_run fmt2 (w_ask5 w) ctx (sc_prefilter cfg) raw) ScanDiverged)
       (\<lambda>(findings, pre_dropped).
     and_then (case verify_run (sc_parallel cfg) (sc_min_confidence cfg) (w_agent w)
                 (w_order w (length findings)) findings of
                 Inl e \<Rightarrow> Inl (ScanAborted e) | Inr r \<Rightarrow> Inr r)
       (\<lambda>(verified, dropped).
     and_then (or_raise (dedup_run (pc_line_tolerance (sc_prefilter cfg)) (sc_semantic cfg) (w_ask7 w) verified)
         ScanDiverged)
       (\<lambda>(canonical, dup_dropped).
     Inr (chain_run rep (w_chain w (enrich_findings (w_env w) canonical))
       (enrich_findings (w_env w) canonical) (pre_dropped @ dropped @ dup_dropped)
       (int (length raw))))))"

end
