(* ===== verification/DedupProps.thy ===== *)
theory DedupProps
  imports Dedup
begin

text \<open>
  Deduplication loses nothing: the map of duplicates always points down, so its roots exist,
  and every call site and every earlier duplicate reaches the finding that stays.
\<close>

section \<open>Roots\<close>

context canonical_map
begin

lemma root_exists: "\<exists>r. root_while co i = Some r \<and> dict_get co r = None \<and> r \<le> i"
proof (induction i rule: less_induct)
  case (less i)
  show ?case
  proof (cases "dict_get co i")
    case None
    then show ?thesis by (simp add: root_while.simps [of co i])
  next
    case (Some k)
    with down have "k < i" by simp
    from less.IH [OF this] obtain r where "root_while co k = Some r" "dict_get co r = None" "r \<le> k"
      by blast
    with Some \<open>k < i\<close> show ?thesis by (simp add: root_while.simps [of co i])
  qed
qed

lemma root_seen_while: "\<forall>x \<in> set seen. i < x \<Longrightarrow> root_while co i = Some (root_seen co seen i)"
proof (induction i arbitrary: seen rule: less_induct)
  case (less i)
  show ?case
  proof (cases "dict_get co i")
    case None
    then show ?thesis by (simp add: root_while.simps [of co i] root_seen.simps [of co seen i])
  next
    case (Some k)
    with down have "k < i" by simp
    moreover have "\<forall>x \<in> set (i # seen). k < x" using less.prems \<open>k < i\<close> by auto
    moreover have "i \<notin> set seen" using less.prems by blast
    ultimately show ?thesis using less.IH [of k "i # seen"] Some
      by (simp add: root_while.simps [of co i] root_seen.simps [of co seen i])
  qed
qed

lemma root_while_seen: "root_while co i = Some (root_seen co [] i)"
  by (rule root_seen_while) simp

lemma root_kept: "dict_get co (root_seen co [] i) = None" and root_le: "root_seen co [] i \<le> i"
  using root_exists [of i] root_while_seen [of i] by auto

lemma root_key_notin: "root_seen co [] i \<notin> fst ` set co"
  using root_kept by (simp add: map_of_eq_None_iff)

lemma co_pair: "(j, p) \<in> set co \<Longrightarrow> dict_get co j = Some p \<and> p < j \<and> j < n"
  using wf down by (metis wf_dict_get)

lemma root_pair: "(j, p) \<in> set co \<Longrightarrow> root_seen co [] p < n \<and> root_while co j = Some (root_seen co [] p)"
proof -
  assume "(j, p) \<in> set co"
  then have c: "dict_get co j = Some p" "p < j" "j < n" using co_pair by auto
  then have "root_seen co [] p < n" using root_le [of p] by linarith
  moreover have "root_while co j = root_while co p" using c by (simp add: root_while.simps [of co j])
  ultimately show ?thesis using root_while_seen [of p] by simp
qed

end

section \<open>The deterministic pass\<close>

text \<open>What the pass has established when the outer loop has reached \<open>m\<close>.\<close>

definition collapsed_upto :: "int \<Rightarrow> finding list \<Rightarrow> nat \<Rightarrow> (nat, nat) pydict \<Rightarrow> bool" where
  "collapsed_upto tol fs m co \<longleftrightarrow> wf_dict co \<and>
     (\<forall>j i. dict_get co j = Some i \<longrightarrow>
        i < j \<and> j < m \<and> dict_get co i = None \<and> same_bug tol (fs ! i) (fs ! j)) \<and>
     (\<forall>i j. i < j \<longrightarrow> j < m \<longrightarrow> dict_get co i = None \<longrightarrow> dict_get co j = None \<longrightarrow>
        \<not> same_bug tol (fs ! i) (fs ! j))"

lemma collapse_one_upto:
  assumes "collapsed_upto tol fs m co"
  shows "collapsed_upto tol fs (Suc m) (collapse_one tol fs m co)"
proof -
  have fresh: "dict_get co m = None" using assms unfolding collapsed_upto_def by (cases "dict_get co m") auto
  let ?p = "\<lambda>i. dict_get co i = None \<and> same_bug tol (fs ! i) (fs ! m)"
  show ?thesis
  proof (cases "find ?p [0..<m]")
    case None
    then have no: "\<not> ?p i" if "i < m" for i using that by (auto simp: find_None_iff)
    then have "collapsed_upto tol fs (Suc m) co"
      using assms unfolding collapsed_upto_def by (metis less_Suc_eq)
    with None fresh show ?thesis by (simp add: collapse_one_def)
  next
    case (Some i)
    then have i: "i < m" "?p i" by (auto simp: find_Some_iff)
    have "collapsed_upto tol fs (Suc m) (dict_set m i co)"
      using assms i fresh unfolding collapsed_upto_def
      by (auto simp: dict_get_set less_Suc_eq) (meson less_asym)
    with Some fresh show ?thesis by (simp add: collapse_one_def)
  qed
qed

lemma collapse_trivial_upto: "collapsed_upto tol fs (length fs) (collapse_trivial tol fs)"
proof -
  have "collapsed_upto tol fs m (fold (collapse_one tol fs) [0..<m] [])" for m
    by (induction m) (simp_all add: collapse_one_upto, simp add: collapsed_upto_def)
  then show ?thesis by (simp add: collapse_trivial_def)
qed

lemmas collapse_trivial_facts = collapse_trivial_upto [unfolded collapsed_upto_def]

interpretation trivial: canonical_map "collapse_trivial tol fs" "length fs" for tol fs
  by unfold_locales (use collapse_trivial_facts in blast)+

section \<open>The model's answers\<close>

lemma parse_dedup_output_bounds:
  "(idx, canon, why) \<in> set (parse_dedup_output raw n) \<Longrightarrow> canon < idx \<and> idx < n"
  by (auto simp: parse_dedup_output_def List.map_filter_def Let_def split: if_splits)

text \<open>The maps stay canonical whatever the model answered.\<close>

definition maps_ok :: "nat \<Rightarrow> dup_map_pair \<Rightarrow> bool" where
  "maps_ok n m \<longleftrightarrow> canonical_map (fst m) n \<and> fst ` set (fst m) = fst ` set (snd m)"

lemma merge_semantic_ok:
  assumes "maps_ok n m" "\<forall>i \<in> set u. i < n" "idx < length u"
  shows "maps_ok n (merge_semantic u (idx, canon, why) m)"
proof -
  obtain co rs where m: "m = (co, rs)" by (cases m)
  have "u ! idx < n" using assms(2,3) by simp
  then show ?thesis using assms(1) m
    by (auto simp: maps_ok_def canonical_map_def Let_def dict_get_set set_dict_keys_set)
qed

lemma fold_merge_ok:
  assumes "maps_ok n m" "\<forall>i \<in> set u. i < n" "\<And>x. x \<in> set sem \<Longrightarrow> fst x < length u"
  shows "maps_ok n (fold (merge_semantic u) sem m)"
  using assms(1,3)
proof (induction sem arbitrary: m)
  case (Cons x sem)
  obtain idx canon why where x: "x = (idx, canon, why)" by (cases x)
  have "maps_ok n (merge_semantic u x m)"
    unfolding x by (rule merge_semantic_ok [OF Cons.prems(1) assms(2)]) (use Cons.prems(2) [of x] x in simp)
  with Cons show ?case by simp
qed simp

lemma semantic_dedup_bounds:
  "x \<in> set (semantic_dedup ask fs u) \<Longrightarrow> fst x < length u"
  by (cases x) (auto simp: semantic_dedup_def split: option.splits dest: parse_dedup_output_bounds)

lemma dup_maps_ok: "maps_ok (length fs) (dup_maps tol semantic ask fs)"
proof -
  let ?co = "collapse_trivial tol fs"
  have t: "maps_ok (length fs) (?co, map (\<lambda>jp. (fst jp, trivial_reason)) ?co)"
    by (simp add: maps_ok_def trivial.canonical_map_axioms image_image)
  have u: "\<forall>i \<in> set (unresolved_of ?co (length fs)). i < length fs"
    by (simp add: unresolved_of_def)
  show ?thesis
    using fold_merge_ok [OF t u semantic_dedup_bounds] t by (auto simp: dup_maps_def Let_def)
qed

interpretation merged: canonical_map "fst (dup_maps tol semantic ask fs)" "length fs"
  for tol semantic ask fs
  using dup_maps_ok [of fs tol semantic ask] by (simp add: maps_ok_def)

section \<open>Attaching\<close>

text \<open>A finding without its list of duplicates, and its place as a location key.\<close>

definition bare :: "finding \<Rightarrow> finding" where
  "bare f = f\<lparr>f_duplicates := []\<rparr>"

definition place :: "finding \<Rightarrow> pystr \<times> int \<times> int" where
  "place f = (f_file f, f_line_start f, f_line_end f)"

lemma bare_update [simp]: "bare (f\<lparr>f_duplicates := ds\<rparr>) = bare f"
  by (simp add: bare_def)

lemma bare_fields:
  assumes "bare f = bare g"
  shows "make_dup_location f r = make_dup_location g r" "same_site f h = same_site g h"
    "same_site h f = same_site h g" "same_bug tol f h = same_bug tol g h"
    "same_bug tol h f = same_bug tol h g" "place f = place g"
    "drop_record f reason d k = drop_record g reason d k"
proof -
  have "f_file f = f_file g" "f_line_start f = f_line_start g" "f_line_end f = f_line_end g"
    "f_vuln_class f = f_vuln_class g" "f_title f = f_title g" "f_chunk_id f = f_chunk_id g"
    "f_source_ref f = f_source_ref g" "f_sink_ref f = f_sink_ref g" "f_cwe f = f_cwe g"
    using assms unfolding bare_def by (metis finding.select_convs finding.surjective finding.update_convs(18))+
  then show "make_dup_location f r = make_dup_location g r" "same_site f h = same_site g h"
    "same_site h f = same_site h g" "same_bug tol f h = same_bug tol g h"
    "same_bug tol h f = same_bug tol h g" "place f = place g"
    "drop_record f reason d k = drop_record g reason d k"
    by (simp_all add: make_dup_location_def same_site_def ranges_overlap_def same_bug_def
        cwe_allows_def has_cwe_def place_def drop_record_def)
qed

definition same_bare :: "finding list \<Rightarrow> finding list \<Rightarrow> bool" where
  "same_bare fs gs \<longleftrightarrow> length fs = length gs \<and> (\<forall>x < length gs. bare (fs ! x) = bare (gs ! x))"

lemma same_bare_refl [simp]: "same_bare fs fs"
  by (simp add: same_bare_def)

lemma same_bare_trans: "same_bare fs gs \<Longrightarrow> same_bare gs hs \<Longrightarrow> same_bare fs hs"
  by (simp add: same_bare_def)

lemma same_bare_update: "same_bare fs gs \<Longrightarrow> bare f = bare (fs ! x) \<Longrightarrow> same_bare (fs[x := f]) gs"
  by (cases "x < length fs") (auto simp: same_bare_def nth_list_update list_update_beyond)

text \<open>What one collapsed finding \<open>j\<close> hands to its root.\<close>

definition handed ::
    "(nat, nat) pydict \<Rightarrow> (nat, pystr) pydict \<Rightarrow> finding list \<Rightarrow> nat \<times> nat \<Rightarrow> dup_location list" where
  "handed co rs fs jp =
     (if same_site (fs ! fst jp) (fs ! root_seen co [] (snd jp)) then []
      else [make_dup_location (fs ! fst jp) (dict_get_or rs (fst jp) ''duplicate'')]) @
     f_duplicates (fs ! fst jp)"

lemma attach_one_effect:
  assumes "j < length fs" "root_seen co [] p < length fs" "root_seen co [] p \<noteq> j"
  shows "same_bare (attach_one co rs (j, p) fs) fs"
    and "x < length fs \<Longrightarrow> f_duplicates (attach_one co rs (j, p) fs ! x) =
       (if x = j then []
        else if x = root_seen co [] p then f_duplicates (fs ! x) @ handed co rs fs (j, p)
        else f_duplicates (fs ! x))"
  using assms
  by (auto simp: attach_one_def Let_def extend_dups_def handed_def same_bare_def nth_list_update)

lemma handed_cong:
  assumes "same_bare gs fs" "fst jp < length fs" "root_seen co [] (snd jp) < length fs"
    "f_duplicates (gs ! fst jp) = f_duplicates (fs ! fst jp)"
  shows "handed co rs gs jp = handed co rs fs jp"
proof -
  have "bare (gs ! fst jp) = bare (fs ! fst jp)"
    "bare (gs ! root_seen co [] (snd jp)) = bare (fs ! root_seen co [] (snd jp))"
    using assms(1-3) by (auto simp: same_bare_def)
  note b = bare_fields [OF this(1)] bare_fields [OF this(2)]
  show ?thesis unfolding handed_def by (simp only: b assms(4))
qed

text \<open>The fold over the map: collapsed findings end empty, roots collect what they are handed.\<close>

definition collected ::
    "(nat, nat) pydict \<Rightarrow> (nat, pystr) pydict \<Rightarrow> finding list \<Rightarrow> (nat \<times> nat) list \<Rightarrow> nat \<Rightarrow> dup_location list" where
  "collected co rs fs ps x =
     concat (map (handed co rs fs) (filter (\<lambda>jp. root_seen co [] (snd jp) = x) ps))"

lemma fold_attach:
  assumes "distinct (map fst ps)"
    and "\<And>j p. (j, p) \<in> set ps \<Longrightarrow> j < length fs \<and> j \<in> K \<and>
           root_seen co [] p < length fs \<and> root_seen co [] p \<notin> K"
  shows "same_bare (fold (attach_one co rs) ps fs) fs \<and>
    (\<forall>x < length fs. f_duplicates (fold (attach_one co rs) ps fs ! x) =
       (if x \<in> fst ` set ps then [] else f_duplicates (fs ! x) @ collected co rs fs ps x))"
  using assms
proof (induction ps arbitrary: fs)
  case Nil
  then show ?case by (simp add: collected_def)
next
  case (Cons jp ps)
  obtain j p where jp: "jp = (j, p)" by (cases jp)
  let ?r = "root_seen co [] p" and ?gs = "attach_one co rs (j, p) fs"
  have j: "j < length fs" "?r < length fs" "j \<in> K" "?r \<notin> K" using Cons.prems(2) [of j p] jp by auto
  then have "?r \<noteq> j" by auto
  note one = attach_one_effect [where rs = rs, OF j(1,2) this]
  have len: "length ?gs = length fs" using one(1) by (simp add: same_bare_def)
  have IH: "same_bare (fold (attach_one co rs) ps ?gs) ?gs \<and>
    (\<forall>x < length ?gs. f_duplicates (fold (attach_one co rs) ps ?gs ! x) =
       (if x \<in> fst ` set ps then [] else f_duplicates (?gs ! x) @ collected co rs ?gs ps x))"
    by (rule Cons.IH) (use Cons.prems jp len in auto)
  have notin: "j \<notin> fst ` set ps" using Cons.prems(1) jp by simp
  have h: "handed co rs ?gs q = handed co rs fs q" if "q \<in> set ps" for q
  proof (rule handed_cong [OF one(1)])
    show q: "fst q < length fs" and "root_seen co [] (snd q) < length fs"
      using Cons.prems(2) [of "fst q" "snd q"] that by auto
    have "fst q \<in> K" using Cons.prems(2) [of "fst q" "snd q"] that by simp
    moreover have "fst q \<noteq> j" using notin that by (metis image_eqI)
    ultimately have "fst q \<noteq> j" "fst q \<noteq> ?r" using j(4) by metis+
    then show "f_duplicates (?gs ! fst q) = f_duplicates (fs ! fst q)" using one(2) [OF q] by simp
  qed
  have c: "collected co rs ?gs ps x = collected co rs fs ps x" for x
    unfolding collected_def using h by (intro arg_cong [of _ _ concat] map_cong) auto
  have "f_duplicates (fold (attach_one co rs) (jp # ps) fs ! x) =
      (if x \<in> fst ` set (jp # ps) then [] else f_duplicates (fs ! x) @ collected co rs fs (jp # ps) x)"
    if x: "x < length fs" for x
  proof (cases "x \<in> fst ` set ps")
    case True
    then show ?thesis using IH len x by (simp add: jp)
  next
    case False
    then have eq: "f_duplicates (fold (attach_one co rs) (jp # ps) fs ! x) =
        f_duplicates (?gs ! x) @ collected co rs fs ps x"
      using IH len x by (simp add: jp c)
    have none: "collected co rs fs ps j = []"
      using Cons.prems(2) j(3) by (fastforce simp: collected_def filter_empty_conv)
    consider "x = j" | "x \<noteq> j" "x = ?r" | "x \<noteq> j" "x \<noteq> ?r" by blast
    then show ?thesis
    proof cases
      case 1
      then show ?thesis using eq one(2) [OF x] none by (simp add: jp)
    next
      case 2
      then show ?thesis using eq one(2) [OF x] False by (simp add: jp collected_def)
    next
      case 3
      then show ?thesis using eq one(2) [OF x] False by (simp add: jp collected_def)
    qed
  qed
  moreover have "same_bare (fold (attach_one co rs) (jp # ps) fs) fs"
    using IH one(1) by (auto simp: jp intro: same_bare_trans)
  ultimately show ?case by blast
qed

lemma keys_dedup_locs: "loc_key ` set (dedup_locs seen ds) \<union> set seen = loc_key ` set ds \<union> set seen"
  by (induction seen ds rule: dedup_locs.induct) auto

lemma keys_dedup_locations [simp]: "loc_key ` set (dedup_locations ds) = loc_key ` set ds"
  using keys_dedup_locs [of "[]" ds] by (simp add: dedup_locations_def)

lemma fold_dedup_at:
  "same_bare (fold dedup_at rs fs) fs \<and>
   (\<forall>x < length fs. loc_key ` set (f_duplicates (fold dedup_at rs fs ! x)) =
      loc_key ` set (f_duplicates (fs ! x)))"
proof (induction rs arbitrary: fs)
  case (Cons r rs)
  have "same_bare (dedup_at r fs) fs" by (auto simp: dedup_at_def intro: same_bare_update)
  moreover have "loc_key ` set (f_duplicates (dedup_at r fs ! x)) = loc_key ` set (f_duplicates (fs ! x))"
    if "x < length fs" for x using that by (cases "x = r") (simp_all add: dedup_at_def)
  moreover have "length (dedup_at r fs) = length fs" by (simp add: dedup_at_def)
  ultimately show ?case using Cons [of "dedup_at r fs"] by (auto intro: same_bare_trans)
qed simp

text \<open>
  \<open>covers c f\<close>: the finding \<open>c\<close> stands for \<open>f\<close>.  It is at the same place, or overlaps it in the
  same file, or lists its place among its duplicates, and it lists all that \<open>f\<close> listed.
\<close>

definition covers :: "finding \<Rightarrow> finding \<Rightarrow> bool" where
  "covers c f \<longleftrightarrow>
     (place c = place f \<or> same_site f c \<or> place f \<in> loc_key ` set (f_duplicates c)) \<and>
     loc_key ` set (f_duplicates f) \<subseteq> loc_key ` set (f_duplicates c)"

lemma loc_key_make [simp]: "loc_key (make_dup_location f r) = place f"
  by (simp add: loc_key_def make_dup_location_def place_def)

context canonical_map
begin

lemma attach_effect:
  assumes "length fs = n"
  shows "same_bare (attach_duplicates fs co rs) fs"
    and "x < n \<Longrightarrow> dict_get co x = None \<Longrightarrow>
      loc_key ` set (f_duplicates (attach_duplicates fs co rs ! x)) =
      loc_key ` set (f_duplicates (fs ! x)) \<union> loc_key ` set (collected co rs fs co x)"
proof -
  let ?gs = "fold (attach_one co rs) co fs"
  have "same_bare ?gs fs \<and> (\<forall>x < length fs. f_duplicates (?gs ! x) =
      (if x \<in> fst ` set co then [] else f_duplicates (fs ! x) @ collected co rs fs co x))"
  proof (rule fold_attach [where K = "fst ` set co"])
    show "distinct (map fst co)" using wf by (simp add: wf_dict_def)
    show "j < length fs \<and> j \<in> fst ` set co \<and> root_seen co [] p < length fs \<and>
        root_seen co [] p \<notin> fst ` set co" if "(j, p) \<in> set co" for j p
      using that co_pair root_pair root_key_notin assms by (metis fst_conv image_eqI)
  qed
  moreover note fold_dedup_at [of "fromkeys (map (\<lambda>jp. root_seen co [] (snd jp)) co)" ?gs]
  moreover have "length ?gs = n" using calculation(1) assms by (simp add: same_bare_def)
  ultimately show "same_bare (attach_duplicates fs co rs) fs"
    and "x < n \<Longrightarrow> dict_get co x = None \<Longrightarrow>
      loc_key ` set (f_duplicates (attach_duplicates fs co rs ! x)) =
      loc_key ` set (f_duplicates (fs ! x)) \<union> loc_key ` set (collected co rs fs co x)"
    using assms by (auto simp: attach_duplicates_def map_of_eq_None_iff image_Un intro: same_bare_trans)
qed

lemma attach_covers:
  assumes "length fs = n" "j < n"
  shows "root_seen co [] j < n \<and> covers (attach_duplicates fs co rs ! root_seen co [] j) (fs ! j)"
proof -
  let ?r = "root_seen co [] j" and ?c = "attach_duplicates fs co rs ! root_seen co [] j"
  have r: "?r < n" using root_le [of j] assms(2) by linarith
  have b: "bare ?c = bare (fs ! ?r)" using attach_effect(1) [OF assms(1)] r assms(1)
    by (simp add: same_bare_def)
  have d: "loc_key ` set (f_duplicates ?c) =
      loc_key ` set (f_duplicates (fs ! ?r)) \<union> loc_key ` set (collected co rs fs co ?r)"
    by (rule attach_effect(2) [OF assms(1) r root_kept])
  show ?thesis
  proof (cases "dict_get co j")
    case None
    then have j: "?r = j" by (simp add: root_seen.simps [of co "[]" j])
    show ?thesis using r d bare_fields(6) [OF b] unfolding covers_def j by blast
  next
    case (Some p)
    then have jp: "(j, p) \<in> set co" by (simp add: map_of_SomeD)
    have "root_seen co [] p = ?r" using root_pair [OF jp] root_while_seen [of j] by simp
    then have "set (handed co rs fs (j, p)) \<subseteq> set (collected co rs fs co ?r)"
      using jp by (fastforce simp: collected_def)
    then have "loc_key ` set (handed co rs fs (j, p)) \<subseteq> loc_key ` set (f_duplicates ?c)"
      unfolding d by blast
    then have sub: "loc_key ` set (f_duplicates (fs ! j)) \<subseteq> loc_key ` set (f_duplicates ?c)"
      and site: "\<not> same_site (fs ! j) (fs ! ?r) \<Longrightarrow> place (fs ! j) \<in> loc_key ` set (f_duplicates ?c)"
      unfolding handed_def fst_conv snd_conv \<open>root_seen co [] p = ?r\<close>
      by (simp_all add: image_Un)
    have "same_site (fs ! j) ?c = same_site (fs ! j) (fs ! ?r)" by (rule bare_fields(3) [OF b])
    then show ?thesis using r sub site unfolding covers_def by blast
  qed
qed

lemma unresolved_index:
  assumes "j < n"
  shows "\<exists>k < length (unresolved_of co n).
     unresolved_of co n ! k = root_seen co [] j \<and>
     dict_get (new_index_of co n) (root_seen co [] j) = Some k"
proof -
  let ?u = "unresolved_of co n"
  have "root_seen co [] j \<in> set ?u"
    using root_kept [of j] root_le [of j] assms by (simp add: unresolved_of_def)
  then obtain k where k: "k < length ?u" "?u ! k = root_seen co [] j" by (auto simp: in_set_conv_nth)
  moreover have "distinct ?u" by (simp add: unresolved_of_def)
  then have "dict_get (zip ?u [0..<length ?u]) (?u ! k) = Some ([0..<length ?u] ! k)"
    by (intro map_of_zip_nth) (use k in simp_all)
  ultimately show ?thesis by (auto simp: new_index_of_def)
qed

lemma drop_all_eq:
  "drop_all co rs ni fs is = Some (map (\<lambda>i. drop_record (fs ! i) DropDuplicate
     (dict_get_or rs i ''duplicate'') (dict_get ni (root_seen co [] i))) is)"
  by (induction "is") (simp_all add: root_while_seen)

end

lemma resolved_partition: "length (unresolved_of co n) + length (resolved_of co n) = n"
  using sum_length_filter_compl [of "\<lambda>i. dict_get co i = None" "[0..<n]"]
  by (simp add: unresolved_of_def resolved_of_def)

section \<open>The step\<close>

text \<open>The value of \<open>run\<close> on two findings or more, for whatever the model answered.\<close>

lemma dedup_run_value:
  fixes tol semantic ask verified
  defines "m \<equiv> dup_maps tol semantic ask verified" and "n \<equiv> length verified"
  assumes "1 < n"
  shows "dedup_run tol semantic ask verified =
    Some (map (\<lambda>i. attach_duplicates verified (fst m) (snd m) ! i) (unresolved_of (fst m) n),
      map (\<lambda>i. drop_record (attach_duplicates verified (fst m) (snd m) ! i) DropDuplicate
        (dict_get_or (snd m) i ''duplicate'')
        (dict_get (new_index_of (fst m) n) (root_seen (fst m) [] i))) (resolved_of (fst m) n))"
  using assms(3) merged.drop_all_eq [of tol semantic ask verified]
  by (simp add: dedup_run_def m_def n_def Let_def case_prod_beta)

lemma covers_refl: "covers f f"
  by (simp add: covers_def)

text \<open>
  C15.  Step 7 always returns, whatever the semantic model answers, and loses no finding: each
  input finding is covered by a finding that stays, at whose index its audit record points
  when it was collapsed; what stays and what was dropped add up to the input.
\<close>

theorem dedup_loses_nothing:
  "\<exists>canonical dropped. dedup_run tol semantic ask verified = Some (canonical, dropped) \<and>
     length canonical + length dropped = length verified \<and>
     (\<forall>f \<in> set verified. \<exists>k < length canonical. covers (canonical ! k) f \<and>
        (bare (canonical ! k) = bare f \<or>
         (\<exists>why. drop_record f DropDuplicate why (Some k) \<in> set dropped)))"
proof (cases "1 < length verified")
  case False
  then have "dedup_run tol semantic ask verified = Some (verified, [])" by (simp add: dedup_run_def)
  moreover have "\<exists>k < length verified. covers (verified ! k) f \<and> bare (verified ! k) = bare f"
    if "f \<in> set verified" for f using that covers_refl by (metis in_set_conv_nth)
  ultimately show ?thesis by fastforce
next
  case True
  let ?m = "dup_maps tol semantic ask verified" and ?n = "length verified"
  let ?fs = "attach_duplicates verified (fst ?m) (snd ?m)" and ?u = "unresolved_of (fst ?m) ?n"
  have bare: "same_bare ?fs verified" by (rule merged.attach_effect(1)) simp
  let ?can = "map (\<lambda>i. ?fs ! i) ?u"
  let ?dr = "map (\<lambda>i. drop_record (?fs ! i) DropDuplicate (dict_get_or (snd ?m) i ''duplicate'')
    (dict_get (new_index_of (fst ?m) ?n) (root_seen (fst ?m) [] i))) (resolved_of (fst ?m) ?n)"
  have "\<exists>k < length ?can. covers (?can ! k) (verified ! j) \<and> (bare (?can ! k) = bare (verified ! j) \<or>
      (\<exists>why. drop_record (verified ! j) DropDuplicate why (Some k) \<in> set ?dr))"
    if j: "j < ?n" for j
  proof -
    obtain k where k: "k < length ?u" "?u ! k = root_seen (fst ?m) [] j"
      "dict_get (new_index_of (fst ?m) ?n) (root_seen (fst ?m) [] j) = Some k"
      using merged.unresolved_index [OF j, of tol semantic ask] by blast
    have bj: "bare (?fs ! j) = bare (verified ! j)" using bare j by (simp add: same_bare_def)
    have "covers (?fs ! (?u ! k)) (verified ! j)"
      using merged.attach_covers [OF refl j, of tol semantic ask "snd ?m"] k(2) by simp
    then have cov: "covers (?can ! k) (verified ! j)" using k(1) by simp
    have "bare (?can ! k) = bare (verified ! j) \<or>
        (\<exists>why. drop_record (verified ! j) DropDuplicate why (Some k) \<in> set ?dr)"
    proof (cases "dict_get (fst ?m) j")
      case None
      then show ?thesis using k(1,2) bj by (simp add: root_seen.simps [of _ "[]" j])
    next
      case (Some i)
      then have "j \<in> set (resolved_of (fst ?m) ?n)" using j by (simp add: resolved_of_def)
      then have "drop_record (?fs ! j) DropDuplicate (dict_get_or (snd ?m) j ''duplicate'') (Some k) \<in> set ?dr"
        unfolding set_map k(3) [symmetric] by (rule imageI)
      then show ?thesis unfolding bare_fields(7) [OF bj] by blast
    qed
    moreover have "k < length ?can" using k(1) by simp
    ultimately show ?thesis using cov by blast
  qed
  then have "\<forall>f \<in> set verified. \<exists>k < length ?can. covers (?can ! k) f \<and> (bare (?can ! k) = bare f \<or>
      (\<exists>why. drop_record f DropDuplicate why (Some k) \<in> set ?dr))"
    unfolding all_set_conv_all_nth by blast
  moreover have "length ?can + length ?dr = ?n" by (simp add: resolved_partition)
  ultimately show ?thesis using dedup_run_value [OF True, of tol semantic ask] by blast
qed

lemma dedup_loses_nothing_witness:
  "\<exists>canonical dropped k.
     dedup_run 10 True (\<lambda>_ _. Some ''index=1 is_duplicate=TRUE canonical = 0 reasoning=\"one fix\"'')
       [plain_finding ''a.py'' 1 2 RACE, plain_finding ''b.py'' 5 6 RACE] = Some (canonical, dropped) \<and>
     length canonical + length dropped = 2 \<and> k < length canonical \<and>
     covers (canonical ! k) (plain_finding ''b.py'' 5 6 RACE)"
  using dedup_loses_nothing [of 10 True
      "\<lambda>_ _. Some ''index=1 is_duplicate=TRUE canonical = 0 reasoning=\"one fix\"''"
      "[plain_finding ''a.py'' 1 2 RACE, plain_finding ''b.py'' 5 6 RACE]"]
  by (elim exE) auto

section \<open>The pass before verification\<close>

lemma sorted_unresolved: "sorted_wrt (<) (unresolved_of co n)"
  by (simp add: unresolved_of_def sorted_wrt_filter)

lemma kept_not_same:
  assumes "a < b" "b < length (unresolved_of (collapse_trivial tol fs) (length fs))"
  shows "\<not> same_bug tol (fs ! (unresolved_of (collapse_trivial tol fs) (length fs) ! a))
     (fs ! (unresolved_of (collapse_trivial tol fs) (length fs) ! b))"
proof -
  let ?co = "collapse_trivial tol fs" and ?u = "unresolved_of (collapse_trivial tol fs) (length fs)"
  have "?u ! a < ?u ! b" using sorted_unresolved assms by (metis sorted_wrt_iff_nth_less)
  moreover have "?u ! a \<in> set ?u" "?u ! b \<in> set ?u" using assms by simp_all
  then have "dict_get ?co (?u ! a) = None" "dict_get ?co (?u ! b) = None" "?u ! b < length fs"
    unfolding unresolved_of_def by auto
  ultimately show ?thesis using collapse_trivial_facts by blast
qed

lemma collapse_none:
  assumes "\<And>a b. a < b \<Longrightarrow> b < length fs \<Longrightarrow> \<not> same_bug tol (fs ! a) (fs ! b)"
  shows "collapse_trivial tol fs = []"
proof (rule ccontr)
  assume "collapse_trivial tol fs \<noteq> []"
  then obtain j i where "(j, i) \<in> set (collapse_trivial tol fs)" by (metis list.set_intros(1) neq_Nil_conv surj_pair)
  then have "dict_get (collapse_trivial tol fs) j = Some i" using trivial.co_pair by blast
  then show False using collapse_trivial_facts assms by blast
qed

lemma prefilter_value:
  assumes "1 < length fs"
  shows "\<exists>gs. same_bare gs fs \<and> dedup_prefilter tol fs =
    (map (\<lambda>i. gs ! i) (unresolved_of (collapse_trivial tol fs) (length fs)),
     map (\<lambda>i. drop_record (gs ! i) DropDuplicate trivial_reason None)
       (resolved_of (collapse_trivial tol fs) (length fs)))"
proof -
  let ?gs = "attach_duplicates fs (collapse_trivial tol fs)
    (map (\<lambda>jp. (fst jp, trivial_reason)) (collapse_trivial tol fs))"
  have "same_bare ?gs fs" by (rule trivial.attach_effect(1)) simp
  then show ?thesis using assms
    by (intro exI [of _ ?gs]) (simp add: dedup_prefilter_def Let_def same_bare_def)
qed

lemma prefilter_fixpoint:
  assumes "\<And>a b. a < b \<Longrightarrow> b < length fs \<Longrightarrow> \<not> same_bug tol (fs ! a) (fs ! b)"
  shows "dedup_prefilter tol fs = (fs, [])"
  using collapse_none [OF assms]
  by (simp add: dedup_prefilter_def attach_duplicates_def unresolved_of_def resolved_of_def
      map_nth fromkeys_def)

text \<open>
  C16.  The deterministic pass is exact and stable: no two findings it keeps are the same bug,
  every finding it drops is the same bug as one it keeps, nothing disappears, and a second pass
  over its result changes nothing.
\<close>

theorem prefilter_exact:
  assumes "dedup_prefilter tol fs = (keep, dropped)"
  shows "(\<forall>b < length keep. \<forall>a < b. \<not> same_bug tol (keep ! a) (keep ! b)) \<and>
     (\<forall>f \<in> set fs. \<exists>c \<in> set keep. bare c = bare f \<or> same_bug tol c f) \<and>
     length keep + length dropped = length fs \<and> dedup_prefilter tol keep = (keep, [])"
proof (cases "1 < length fs")
  case False
  then have "keep = fs \<and> dropped = []" using assms by (simp add: dedup_prefilter_def)
  with False assms show ?thesis by auto
next
  case True
  let ?co = "collapse_trivial tol fs" and ?u = "unresolved_of (collapse_trivial tol fs) (length fs)"
  obtain gs where gs: "same_bare gs fs" "keep = map (\<lambda>i. gs ! i) ?u"
    "dropped = map (\<lambda>i. drop_record (gs ! i) DropDuplicate trivial_reason None) (resolved_of ?co (length fs))"
    using prefilter_value [OF True, of tol] assms by auto
  have b: "bare (gs ! i) = bare (fs ! i)" if "i < length fs" for i
    using gs(1) that by (simp add: same_bare_def)
  have same: "same_bug tol (gs ! i) (gs ! j) = same_bug tol (fs ! i) (fs ! j)"
    if "i < length fs" "j < length fs" for i j
    using bare_fields(4) [OF b [OF that(1)]] bare_fields(5) [OF b [OF that(2)]] by simp
  have u: "?u ! a < length fs" if "a < length ?u" for a
    using nth_mem [OF that] by (simp add: unresolved_of_def)
  have no: "\<not> same_bug tol (keep ! a) (keep ! b)" if "a < b" "b < length keep" for a b
    using kept_not_same [of a b tol fs] same u that gs(2) by simp
  have "\<exists>c \<in> set keep. bare c = bare (fs ! j) \<or> same_bug tol c (fs ! j)" if j: "j < length fs" for j
  proof (cases "dict_get ?co j")
    case None
    then have "gs ! j \<in> set keep" using j gs(2) by (simp add: unresolved_of_def)
    with b [OF j] show ?thesis by blast
  next
    case (Some i)
    then have i: "i < j" "dict_get ?co i = None" "same_bug tol (fs ! i) (fs ! j)"
      using collapse_trivial_facts by blast+
    then have "gs ! i \<in> set keep" using j gs(2) by (simp add: unresolved_of_def)
    moreover have "bare (gs ! i) = bare (fs ! i)" using b i(1) j by simp
    note bare_fields(4) [OF this]
    then have "same_bug tol (gs ! i) (fs ! j)" using i(3) by blast
    ultimately show ?thesis by blast
  qed
  then have "\<forall>f \<in> set fs. \<exists>c \<in> set keep. bare c = bare f \<or> same_bug tol c f"
    unfolding all_set_conv_all_nth by blast
  moreover have "length keep + length dropped = length fs" by (simp add: gs(2,3) resolved_partition)
  moreover have "dedup_prefilter tol keep = (keep, [])" using no by (rule prefilter_fixpoint)
  ultimately show ?thesis using no by blast
qed

lemma prefilter_exact_witness:
  "\<exists>keep dropped. dedup_prefilter 10 [plain_finding ''a.py'' 1 2 RACE, plain_finding ''a.py'' 9 9 RACE] =
       (keep, dropped) \<and> length keep + length dropped = 2 \<and> dedup_prefilter 10 keep = (keep, [])"
proof -
  obtain keep dropped where d: "dedup_prefilter 10
      [plain_finding ''a.py'' 1 2 RACE, plain_finding ''a.py'' 9 9 RACE] = (keep, dropped)"
    by (meson surj_pair)
  from prefilter_exact [OF d] d show ?thesis by auto
qed

section \<open>What later stages use\<close>

lemma unresolved_less: "i \<in> set (unresolved_of co n) \<Longrightarrow> i < n"
  by (simp add: unresolved_of_def)

lemma same_bare_kept:
  assumes "same_bare gs fs" "k \<in> set (map (\<lambda>i. gs ! i) (unresolved_of co (length fs)))"
  shows "\<exists>f \<in> set fs. bare k = bare f"
proof -
  obtain i where "i < length fs" "k = gs ! i" using assms(2) by (auto dest: unresolved_less)
  with assms(1) show ?thesis by (auto simp: same_bare_def)
qed

text \<open>A stage that only removes findings and moves call sites between them.\<close>

definition thinned :: "finding list \<Rightarrow> finding list \<Rightarrow> dropped_finding list \<Rightarrow> bool" where
  "thinned fs keep dropped \<longleftrightarrow>
     length keep + length dropped = length fs \<and> (\<forall>k \<in> set keep. \<exists>f \<in> set fs. bare k = bare f)"

lemma prefilter_thinned: "thinned fs (fst (dedup_prefilter tol fs)) (snd (dedup_prefilter tol fs))"
proof (cases "1 < length fs")
  case True
  obtain gs where gs: "same_bare gs fs" "dedup_prefilter tol fs =
      (map (\<lambda>i. gs ! i) (unresolved_of (collapse_trivial tol fs) (length fs)),
       map (\<lambda>i. drop_record (gs ! i) DropDuplicate trivial_reason None)
         (resolved_of (collapse_trivial tol fs) (length fs)))"
    using prefilter_value [OF True] by blast
  then show ?thesis using same_bare_kept [OF gs(1)] by (simp add: thinned_def resolved_partition)
qed (auto simp: thinned_def dedup_prefilter_def)

lemma dedup_run_thinned:
  "\<exists>keep dropped. dedup_run tol semantic ask fs = Some (keep, dropped) \<and> thinned fs keep dropped"
proof (cases "1 < length fs")
  case True
  let ?m = "dup_maps tol semantic ask fs"
  have "same_bare (attach_duplicates fs (fst ?m) (snd ?m)) fs"
    by (rule merged.attach_effect(1)) simp
  from same_bare_kept [OF this] dedup_run_value [OF True, of tol semantic ask] show ?thesis
    by (simp add: thinned_def resolved_partition)
qed (auto simp: thinned_def dedup_run_def)

end
