(* ===== verification/PrefilterProps.thy ===== *)
theory PrefilterProps
  imports Prefilter DedupProps
begin

text \<open>
  The gates of step 5 hold of what survives, and the references a finding must bring are its
  own: the backfill cannot satisfy the evidence gate.
\<close>

lemma run_gates_filter:
  "run_gates gate backfill fs =
     (map backfill (filter (\<lambda>f. gate f = None) fs),
      map (\<lambda>f. drop_record f (fst (the (gate f))) (snd (the (gate f))) None)
        (filter (\<lambda>f. gate f \<noteq> None) fs))"
  by (induction fs) (auto split: option.splits)

text \<open>A finding that passed the gates of a configuration.\<close>

definition admissible :: "context_package \<Rightarrow> prefilter_cfg \<Rightarrow> finding \<Rightarrow> bool" where
  "admissible ctx cfg f \<longleftrightarrow>
     (re_search exclude_path_re (f_file f) \<longrightarrow> is_secret_class f) \<and>
     (cp_all_files ctx \<noteq> [] \<longrightarrow> f_file f \<in> set (cp_all_files ctx)) \<and>
     gate_value cfg gs_min_pre_confidence 0 \<le> f_confidence f \<and>
     (gate_value cfg gs_require_evidence False \<longrightarrow>
        ref_text (f_source_ref f) \<noteq> [] \<and> ref_text (f_sink_ref f) \<noteq> [])"

lemma prefilter_gates_None: "prefilter_gates fmt2 ctx cfg f = None \<longleftrightarrow> admissible ctx cfg f"
  by (auto simp: prefilter_gates_def gate_drop_def admissible_def Let_def)

lemma backfill_own_refs:
  "ref_text (f_source_ref f) \<noteq> [] \<Longrightarrow> ref_text (f_sink_ref f) \<noteq> [] \<Longrightarrow> backfill_of ctx cfg f = f"
  by (simp add: backfill_of_def ast_backfill_evidence_def Let_def)

lemma thinned_trans:
  assumes "thinned fs k1 d1" "thinned k1 k2 d2"
  shows "thinned fs k2 (d1 @ d2)"
  using assms unfolding thinned_def by fastforce

lemma prefilter_run_thinned:
  "\<exists>keep dropped rest. prefilter_run fmt2 ask ctx cfg findings = Some (keep, dropped) \<and>
     thinned (map (backfill_of ctx cfg) (filter (admissible ctx cfg) findings)) keep rest \<and>
     length dropped = length (filter (\<lambda>f. \<not> admissible ctx cfg f) findings) + length rest"
proof -
  let ?fs = "map (backfill_of ctx cfg) (filter (admissible ctx cfg) findings)"
  let ?dd = "dedup_prefilter (pc_line_tolerance cfg) ?fs"
  let ?run = "dedup_run (pc_line_tolerance cfg) True ask (fst ?dd)"
  have g: "\<exists>d0. run_gates (prefilter_gates fmt2 ctx cfg) (backfill_of ctx cfg) findings = (?fs, d0) \<and>
      length d0 = length (filter (\<lambda>f. \<not> admissible ctx cfg f) findings)"
    by (simp add: run_gates_filter prefilter_gates_None)
  then obtain d0 where d0: "run_gates (prefilter_gates fmt2 ctx cfg) (backfill_of ctx cfg) findings = (?fs, d0)"
    "length d0 = length (filter (\<lambda>f. \<not> admissible ctx cfg f) findings)" by blast
  note one = prefilter_thinned [of ?fs "pc_line_tolerance cfg"]
  obtain k2 d2 where two: "?run = Some (k2, d2)" "thinned (fst ?dd) k2 d2"
    using dedup_run_thinned by blast
  show ?thesis
  proof (cases "pc_pre_verify_threshold cfg \<noteq> 0 \<and> pc_pre_verify_threshold cfg \<le> int (length (fst ?dd)) \<and>
      pc_semantic cfg")
    case True
    then have "prefilter_run fmt2 ask ctx cfg findings =
        Some (k2, (d0 @ snd ?dd) @ map stale_record d2)"
      unfolding prefilter_run_def d0(1) Let_def case_prod_beta fst_conv snd_conv
      by (simp only: not_False_eq_True simp_thms if_True two(1) option.map fst_conv snd_conv)
    then show ?thesis using thinned_trans [OF one two(2)] d0(2) by fastforce
  next
    case False
    then have "prefilter_run fmt2 ask ctx cfg findings = Some (fst ?dd, d0 @ snd ?dd)"
      unfolding prefilter_run_def d0(1) Let_def case_prod_beta fst_conv snd_conv by (rule if_not_P)
    then show ?thesis using one d0(2) by fastforce
  qed
qed

text \<open>
  C17.  Step 5 always returns, accounts for every finding as kept or dropped, and keeps, up to
  the backfill and the moved call sites, only findings that pass every gate.
\<close>

theorem prefilter_accounts:
  "\<exists>keep dropped. prefilter_run fmt2 ask ctx cfg findings = Some (keep, dropped) \<and>
     length keep + length dropped = length findings \<and>
     (\<forall>k \<in> set keep. \<exists>f \<in> set findings. admissible ctx cfg f \<and> bare k = bare (backfill_of ctx cfg f))"
proof -
  obtain keep dropped rest where r: "prefilter_run fmt2 ask ctx cfg findings = Some (keep, dropped)"
    "thinned (map (backfill_of ctx cfg) (filter (admissible ctx cfg) findings)) keep rest"
    "length dropped = length (filter (\<lambda>f. \<not> admissible ctx cfg f) findings) + length rest"
    using prefilter_run_thinned by blast
  have "length keep + length dropped = length findings"
    using r(2,3) sum_length_filter_compl [of "admissible ctx cfg" findings] by (simp add: thinned_def)
  moreover have "\<forall>k \<in> set keep. \<exists>f \<in> set findings. admissible ctx cfg f \<and> bare k = bare (backfill_of ctx cfg f)"
    using r(2) by (auto simp: thinned_def)
  ultimately show ?thesis using r(1) by blast
qed

definition sample_cfg :: prefilter_cfg where
  "sample_cfg =
     \<lparr>pc_step5_prefilter = Some \<lparr>gs_min_pre_confidence = None, gs_require_evidence = Some True,
        gs_ast_backfill_evidence = None\<rparr>,
      pc_step6_verify = None, pc_line_tolerance = 10, pc_pre_verify_threshold = 2, pc_semantic = True\<rparr>"

definition empty_ctx :: context_package where
  "empty_ctx =
     \<lparr>cp_call_graph = [], cp_call_graph_files = [], cp_def_spans = [], cp_seed_taint_paths = [],
      cp_seed_taint_evidence = [], cp_entry_points = [], cp_all_files = []\<rparr>"

lemma prefilter_accounts_witness:
  "\<exists>keep dropped. prefilter_run (\<lambda>_. []) (\<lambda>_ _. None) empty_ctx sample_cfg
       [plain_finding ''a.py'' 1 2 RACE, plain_finding ''tests/b.py'' 5 6 RACE] = Some (keep, dropped) \<and>
     length keep + length dropped = 2"
  using prefilter_accounts [of "\<lambda>_. []" "\<lambda>_ _. None" empty_ctx sample_cfg
      "[plain_finding ''a.py'' 1 2 RACE, plain_finding ''tests/b.py'' 5 6 RACE]"]
  by auto

text \<open>
  With the evidence gate on, every finding that survives brought its own source and sink
  reference, and still has exactly those: the backfill cannot make up the evidence.
\<close>

lemma evidence_not_manufactured:
  assumes "gate_value cfg gs_require_evidence False"
    and "prefilter_run fmt2 ask ctx cfg findings = Some (keep, dropped)"
  shows "\<forall>k \<in> set keep. \<exists>f \<in> set findings. bare k = bare f \<and>
     ref_text (f_source_ref f) \<noteq> [] \<and> ref_text (f_sink_ref f) \<noteq> []"
proof
  fix k assume k: "k \<in> set keep"
  obtain keep' dropped' rest where "prefilter_run fmt2 ask ctx cfg findings = Some (keep', dropped')"
    and r: "thinned (map (backfill_of ctx cfg) (filter (admissible ctx cfg) findings)) keep' rest"
    using prefilter_run_thinned by blast
  with assms(2) have "thinned (map (backfill_of ctx cfg) (filter (admissible ctx cfg) findings)) keep rest"
    by simp
  then obtain f where f: "f \<in> set findings" "admissible ctx cfg f" "bare k = bare (backfill_of ctx cfg f)"
    using k by (auto simp: thinned_def)
  with assms(1) have "ref_text (f_source_ref f) \<noteq> []" "ref_text (f_sink_ref f) \<noteq> []"
    by (simp_all add: admissible_def)
  with f backfill_own_refs show "\<exists>f \<in> set findings. bare k = bare f \<and>
     ref_text (f_source_ref f) \<noteq> [] \<and> ref_text (f_sink_ref f) \<noteq> []" by metis
qed

lemma evidence_not_manufactured_witness:
  "\<exists>keep dropped. prefilter_run (\<lambda>_. []) (\<lambda>_ _. None) empty_ctx sample_cfg
       [plain_finding ''a.py'' 1 2 RACE] = Some (keep, dropped) \<and> keep = []"
proof -
  obtain keep dropped where r: "prefilter_run (\<lambda>_. []) (\<lambda>_ _. None) empty_ctx sample_cfg
      [plain_finding ''a.py'' 1 2 RACE] = Some (keep, dropped)"
    using prefilter_run_thinned by blast
  have "gate_value sample_cfg gs_require_evidence False" by (simp add: gate_value_def sample_cfg_def)
  from evidence_not_manufactured [OF this r] have "keep = []"
    by (cases keep) (auto simp: plain_finding_def ref_text_def)
  with r show ?thesis by blast
qed

end
