(* ===== verification/RegexRun.thy ===== *)
theory RegexRun
  imports Regex
begin

text \<open>
  Running a pattern forward: \<open>eats r a u b c c'\<close> says that on the text \<open>a @ u @ b\<close>, standing
  after \<open>a\<close>, the first way to match \<open>r\<close> consumes exactly \<open>u\<close> and turns the captures \<open>c\<close> into
  \<open>c'\<close>.  The rules follow the pattern, so that a text built to a pattern's shape is seen to
  match without running the search.
\<close>

section \<open>The first way to match\<close>

definition eats ::
    "re \<Rightarrow> pystr \<Rightarrow> pystr \<Rightarrow> pystr \<Rightarrow> (nat \<times> nat \<times> nat) list \<Rightarrow> (nat \<times> nat \<times> nat) list \<Rightarrow> bool" where
  "eats r a u b c c' \<longleftrightarrow>
     (\<exists>rest. re_at r (a @ u @ b) (length a, c) = (length a + length u, c') # rest)"

lemma eats_Seq:
  assumes "eats r a u (v @ b) c c1" "eats r' (a @ u) v b c1 c2"
  shows "eats (Seq r r') a (u @ v) b c c2"
  using assms by (auto simp: eats_def add.assoc)

lemma eats_Grp:
  assumes "eats r a u b c c'"
  shows "eats (Grp k r) a u b c ((k, length a, length a + length u) # c')"
  using assms by (auto simp: eats_def)

lemma eats_Alt1: "eats r a u b c c' \<Longrightarrow> eats (Alt r r') a u b c c'"
  by (auto simp: eats_def)

lemma eats_Alt2:
  assumes "re_at r (a @ u @ b) (length a, c) = []" "eats r' a u b c c'"
  shows "eats (Alt r r') a u b c c'"
  using assms by (auto simp: eats_def)

lemma eats_Cls: "p x \<Longrightarrow> eats (Cls p) a [x] b c c"
  by (simp add: eats_def class_at_def nth_append)

lemma re_at_Cls_no:
  assumes "b = [] \<or> \<not> p (hd b)"
  shows "re_at (Cls p) (a @ b) (length a, c) = []"
  using assms by (cases b) (auto simp: class_at_def nth_append)

lemma re_at_Seq_no:
  assumes "b = [] \<or> \<not> p (hd b)"
  shows "re_at (Seq (Cls p) r) (a @ b) (length a, c) = []"
  using re_at_Cls_no [of b p a c, OF assms] by (simp del: re_at.simps(2))

section \<open>Literals\<close>

lemma lit_simps: "lit [] = Eps" "lit [x] = Cls (\<lambda>d. d = x)"
  "lit (x # y # w) = Seq (Cls (\<lambda>d. d = x)) (lit (y # w))"
  by (simp_all add: lit_def)

lemma eats_Eps: "eats Eps a [] b c c"
  by (simp add: eats_def)

lemma eats_lit: "eats (lit w) a w b c c"
proof (induction w arbitrary: a rule: induct_list012)
  case 1
  then show ?case by (simp add: eats_Eps lit_simps)
next
  case (2 x)
  then show ?case by (simp add: eats_Cls lit_simps)
next
  case (3 x y w)
  then show ?case
    using eats_Seq [OF eats_Cls [of "\<lambda>d. d = x" x a "(y # w) @ b"] "3.IH"(2)] by (simp add: lit_simps)
qed

lemma same_case: "lower_char x = x \<or> upper_char x = x"
  by (auto simp: lower_char_def upper_char_def Let_def)

lemma eats_nocase_lit: "eats (nocase (lit w)) a w b c c"
proof (induction w arbitrary: a rule: induct_list012)
  case 1
  then show ?case by (simp add: eats_Eps lit_simps)
next
  case (2 x)
  then show ?case using same_case by (simp add: eats_Cls lit_simps)
next
  case (3 x y w)
  have "eats (Cls (\<lambda>d. lower_char d = x \<or> upper_char d = x)) a [x] ((y # w) @ b) c c"
    using same_case by (intro eats_Cls) simp
  then show ?case using eats_Seq [OF _ "3.IH"(2)] by (fastforce simp: lit_simps)
qed

section \<open>Repeated classes\<close>

text \<open>A greedy repetition of a class takes the characters of the class, as many as it may.\<close>

lemma rep_class:
  assumes "list_all p u" "lo \<le> length u" "length u < n"
    and "hi = Some (length u) \<or> (hi = None \<or> (\<exists>h. hi = Some h \<and> length u \<le> h)) \<and> (b = [] \<or> \<not> p (hd b))"
  shows "\<exists>rest. rep_at n (re_at (Cls p) (a @ u @ b)) True lo hi (length a, c) = (length a + length u, c) # rest"
  using assms
proof (induction u arbitrary: a n lo hi)
  case Nil
  obtain k where n: "n = Suc k" using Nil.prems(3) by (cases n) auto
  show ?case
  proof (cases "hi = Some 0")
    case False
    with Nil.prems(4) have "re_at (Cls p) (a @ b) (length a, c) = []" by (intro re_at_Cls_no) auto
    with n Nil.prems(2) show ?thesis by simp
  qed (use n Nil.prems(2) in simp)
next
  case (Cons x u)
  obtain k where n: "n = Suc k" using Cons.prems(3) by (cases n) auto
  have x: "re_at (Cls p) (a @ (x # u) @ b) (length a, c) = [(Suc (length a), c)]"
    using Cons.prems(1) by (simp add: class_at_def nth_append)
  have h: "hi \<noteq> Some 0" using Cons.prems(4) by auto
  have "\<exists>rest. rep_at k (re_at (Cls p) ((a @ [x]) @ u @ b)) True (lo - 1) (map_option (\<lambda>n. n - 1) hi)
      (length (a @ [x]), c) = (length (a @ [x]) + length u, c) # rest"
    by (rule Cons.IH) (use Cons.prems n in auto)
  then show ?case using x h n by (auto simp del: re_at.simps(2))
qed

lemma eats_star:
  assumes "list_all p u" "b = [] \<or> \<not> p (hd b)"
  shows "eats (star (Cls p)) a u b c c"
  using rep_class [OF assms(1), of 0 "length (a @ u @ b) - length a + 1" None b a c] assms(2)
  by (simp add: eats_def del: re_at.simps(2))

lemma eats_times:
  assumes "list_all p u" "lo \<le> length u" "length u \<le> hi" "length u = hi \<or> b = [] \<or> \<not> p (hd b)"
  shows "eats (times_re lo hi (Cls p)) a u b c c"
  using rep_class [OF assms(1,2), of "lo + (length (a @ u @ b) - length a) + 1" "Some hi" b a c] assms(2-)
  by (auto simp: eats_def simp del: re_at.simps(2))

lemma case_class [simp]:
  "py_space (lower_char c) = py_space c" "py_space (upper_char c) = py_space c"
  "py_digit (lower_char c) = py_digit c" "py_digit (upper_char c) = py_digit c"
  by (auto simp: py_space_def py_digit_def lower_char_def upper_char_def Let_def)

lemma eats_plus:
  assumes "list_all p u" "1 \<le> length u" "b = [] \<or> \<not> p (hd b)"
  shows "eats (plus (Cls p)) a u b c c"
  using rep_class [OF assms(1,2), of "1 + (length (a @ u @ b) - length a) + 1" None b a c] assms(3)
  by (simp add: eats_def del: re_at.simps(2))

lemma eats_Wordb: "at_boundary (a @ b) (length a) \<Longrightarrow> eats Wordb a [] b c c"
  by (simp add: eats_def)

lemma eats_Grp_at:
  "eats r a u b c c' \<Longrightarrow> i = length a \<Longrightarrow> j = length a + length u \<Longrightarrow> eats (Grp k r) a u b c ((k, i, j) # c')"
  by (simp only: eats_Grp)

lemma eats_at_least:
  assumes "list_all p u" "lo \<le> length u" "b = [] \<or> \<not> p (hd b)"
  shows "eats (at_least lo (Cls p)) a u b c c"
  using rep_class [OF assms(1,2), of "lo + (length (a @ u @ b) - length a) + 1" None b a c] assms(2,3)
  by (simp add: eats_def del: re_at.simps(2))

section \<open>From the first way to the match\<close>

text \<open>In the middle of a text, and past a character at which the pattern cannot start.\<close>

lemma eats_search:
  assumes "eats r a u b [] c"
  shows "search_from r (a @ u @ b) (length a) = Some \<lparr>m_start = length a, m_end = length a + length u, m_caps = c\<rparr>"
proof -
  let ?s = "a @ u @ b"
  have "match_at r ?s (length a) = Some \<lparr>m_start = length a, m_end = length a + length u, m_caps = c\<rparr>"
    using assms by (auto simp: eats_def match_at_def)
  moreover have "[length a..<Suc (length ?s)] = length a # [Suc (length a)..<Suc (length ?s)]" by (rule upt_conv_Cons) simp
  ultimately show ?thesis by (simp add: search_from_def List.map_filter_def del: upt_Suc)
qed

lemma search_skip:
  assumes "re_at r (a @ x # b) (length a, []) = []"
  shows "search_from r (a @ x # b) (length a) = search_from r (a @ x # b) (Suc (length a))"
proof -
  have "[length a..<Suc (length (a @ x # b))] = length a # [Suc (length a)..<Suc (length (a @ x # b))]"
    by (rule upt_conv_Cons) simp
  then show ?thesis using assms by (simp add: search_from_def List.map_filter_def match_at_def del: upt_Suc)
qed

lemma search_end: "re_at r a (length a, []) = [] \<Longrightarrow> search_from r a (length a) = None"
  by (simp add: search_from_def List.map_filter_def match_at_def)

lemma eats_match:
  assumes "eats r [] u b [] c"
  shows "search_from r (u @ b) 0 = Some \<lparr>m_start = 0, m_end = length u, m_caps = c\<rparr>"
  using eats_search [OF assms] by simp

lemma span_text_at: "i = length a \<Longrightarrow> j = length a + length u \<Longrightarrow> span_text (a @ u @ b) i j = u"
  by (simp add: span_text_def)

section \<open>Patterns that cannot match\<close>

text \<open>A pattern that cannot match without a character of \<open>P\<close>.\<close>

primrec needs :: "(char \<Rightarrow> bool) \<Rightarrow> re \<Rightarrow> bool" where
  "needs P Eps \<longleftrightarrow> False"
| "needs P (Cls p) \<longleftrightarrow> (\<forall>c. p c \<longrightarrow> P c)"
| "needs P (Seq r r') \<longleftrightarrow> needs P r \<or> needs P r'"
| "needs P (Alt r r') \<longleftrightarrow> needs P r \<and> needs P r'"
| "needs P (Rep g lo hi r) \<longleftrightarrow> 0 < lo \<and> needs P r"
| "needs P (Grp k r) \<longleftrightarrow> needs P r"
| "needs P (Backref k) \<longleftrightarrow> False"
| "needs P Bol \<longleftrightarrow> False"
| "needs P Eol \<longleftrightarrow> False"
| "needs P Wordb \<longleftrightarrow> False"
| "needs P (Ahead b p) \<longleftrightarrow> False"
| "needs P (Behind b p) \<longleftrightarrow> False"

lemma needs_none:
  assumes "list_all (\<lambda>c. \<not> P c) s"
  shows "needs P r \<Longrightarrow> re_at r s st = []"
proof (induction r arbitrary: st)
  case (Rep g lo hi r)
  then show ?case by (auto simp: Let_def)
qed (use assms in \<open>auto simp: class_at_def list_all_length\<close>)

lemma needs_finditer:
  assumes "list_all (\<lambda>c. \<not> P c) s" "needs P r"
  shows "finditer r s = []"
  using needs_none [OF assms]
  by (simp add: finditer_def search_from_def match_at_def List.map_filter_def del: upt_Suc)

text \<open>The characters a match has at least.\<close>

primrec least :: "re \<Rightarrow> nat" where
  "least Eps = 0"
| "least (Cls p) = 1"
| "least (Seq r r') = least r + least r'"
| "least (Alt r r') = min (least r) (least r')"
| "least (Rep g lo hi r) = lo * least r"
| "least (Grp k r) = least r"
| "least (Backref k) = 0"
| "least Bol = 0"
| "least Eol = 0"
| "least Wordb = 0"
| "least (Ahead b p) = 0"
| "least (Behind b p) = 0"

lemma rep_at_least:
  assumes f: "\<And>st st'. st' \<in> set (f st) \<Longrightarrow> fst st + n \<le> fst st'"
  shows "st' \<in> set (rep_at k f g lo hi st) \<Longrightarrow> fst st + lo * n \<le> fst st'"
proof (induction k arbitrary: lo hi st)
  case 0
  then show ?case by (auto split: if_splits)
next
  case (Suc k)
  then consider "lo = 0" "st' = st"
    | st1 hi' where "st1 \<in> set (f st)" "st' \<in> set (rep_at k f g (lo - 1) hi' st1)"
    by (auto simp: Let_def split: if_splits)
  then show ?case
  proof cases
    case 2
    then have "fst st + n \<le> fst st1" "fst st1 + (lo - 1) * n \<le> fst st'" using f Suc.IH by blast+
    then show ?thesis by (cases lo) auto
  qed simp
qed

lemma re_at_least: "st' \<in> set (re_at r s st) \<Longrightarrow> fst st + least r \<le> fst st'"
proof (induction r arbitrary: st st')
  case (Seq r r')
  from Seq.prems obtain st1 where "st1 \<in> set (re_at r s st)" "st' \<in> set (re_at r' s st1)" by auto
  then have "fst st + least r \<le> fst st1" "fst st1 + least r' \<le> fst st'" by (simp_all add: Seq.IH)
  then show ?case by simp
next
  case (Rep g lo hi r)
  then show ?case 
    using rep_at_least [of "re_at r s" "least r" st', OF Rep.IH] by (simp only: least.simps re_at.simps)
next
  case (Alt r r')
  from Alt.prems consider "st' \<in> set (re_at r s st)" | "st' \<in> set (re_at r' s st)" by auto
  then have "fst st + least r \<le> fst st' \<or> fst st + least r' \<le> fst st'" by (cases; use Alt.IH in blast)
  then show ?case by (auto simp: min_def)
qed (auto split: if_splits option.splits)

lemma least_none:
  assumes "length s < i + least r" "i \<le> length s"
  shows "re_at r s (i, []) = []"
proof (rule ccontr)
  assume "re_at r s (i, []) \<noteq> []"
  then obtain st where "st \<in> set (re_at r s (i, []))" by (metis hd_in_set)
  moreover from this have "step_ok (\<lambda>_. True) s (i, []) st" by (rule re_at_ok [OF over_True])
  ultimately show False using re_at_least [of st r s "(i, [])"] assms by (simp add: step_ok_def caps_ok_def clean_def)
qed

lemma least_finditer:
  assumes "length s < least r"
  shows "finditer r s = []"
proof -
  have "List.map_filter (match_at r s) [0..<Suc (length s)] = []"
    using least_none assms
    by (simp add: List.map_filter_def match_at_def filter_empty_conv del: upt_Suc)
  then show ?thesis by (simp add: finditer_def search_from_def del: upt_Suc)
qed

end
