(* ===== verification/VerifyProps.thy ===== *)
theory VerifyProps
  imports Verify RegexRun PyText "HOL-Library.Multiset"
begin

text \<open>
  Verification accounts for every finding once, confirms none without a verdict line that says
  so, does not depend on the order in which the workers finish, and stops early only for the
  reason it gives.
\<close>

section \<open>The buckets\<close>

definition confirmed ::
    "int \<Rightarrow> (nat \<Rightarrow> finding \<Rightarrow> agent_result) \<Rightarrow> finding list \<Rightarrow> nat \<Rightarrow> finding option" where
  "confirmed min_conf agent fs i =
     (case agent i (fs ! i) of
        Reply raw \<Rightarrow>
          if verdict_drop min_conf (verified_finding (fs ! i) raw) = None
          then Some (verified_finding (fs ! i) raw) else None
      | _ \<Rightarrow> None)"

definition dropped_as ::
    "int \<Rightarrow> (nat \<Rightarrow> finding \<Rightarrow> agent_result) \<Rightarrow> finding list \<Rightarrow> nat \<Rightarrow> dropped_finding option" where
  "dropped_as min_conf agent fs i =
     (case agent i (fs ! i) of
        Reply raw \<Rightarrow>
          map_option (\<lambda>(reason, detail). drop_record (verified_finding (fs ! i) raw) reason detail None)
            (verdict_drop min_conf (verified_finding (fs ! i) raw))
      | GuardrailBlocked e \<Rightarrow> Some (drop_record (fs ! i) DropGuardrailBlocked (take 200 e) None)
      | AgentError e \<Rightarrow> Some (drop_record (fs ! i) DropVerifyError (take 200 e) None))"

fun is_blocked :: "agent_result \<Rightarrow> bool" where
  "is_blocked (GuardrailBlocked _) = True"
| "is_blocked _ = False"

definition blocked :: "(nat \<Rightarrow> finding \<Rightarrow> agent_result) \<Rightarrow> finding list \<Rightarrow> nat \<Rightarrow> bool" where
  "blocked agent fs i \<longleftrightarrow> is_blocked (agent i (fs ! i))"

abbreviation blocks :: "(nat \<Rightarrow> finding \<Rightarrow> agent_result) \<Rightarrow> finding list \<Rightarrow> nat list \<Rightarrow> int" where
  "blocks agent fs is \<equiv> int (length (filter (blocked agent fs) is))"

lemma one_bucket: "confirmed min_conf agent fs i = None \<longleftrightarrow> dropped_as min_conf agent fs i \<noteq> None"
  by (auto simp: confirmed_def dropped_as_def split: agent_result.splits)

lemma verify_step_state:
  assumes "verify_step p min_conf (fs ! i) (agent i (fs ! i)) st = Inr st'"
  shows "vs_verified st' = vs_verified st @ List.map_filter (confirmed min_conf agent fs) [i] \<and>
     vs_dropped st' = vs_dropped st @ List.map_filter (dropped_as min_conf agent fs) [i] \<and>
     vs_guardrail_hits st' = vs_guardrail_hits st + blocks agent fs [i]"
  using assms
  by (auto simp: verify_step_def confirmed_def dropped_as_def blocked_def Let_def List.map_filter_def
      split: agent_result.splits option.splits if_splits)

lemma verify_step_abort:
  "(\<exists>e. verify_step p min_conf (fs ! i) (agent i (fs ! i)) st = Inl e) \<longleftrightarrow>
     blocked agent fs i \<and> max 3 p \<le> vs_guardrail_hits st + 1 \<and> vs_verified st = []"
  by (auto simp: verify_step_def blocked_def Let_def split: agent_result.splits option.splits)

lemma map_filter_Cons: "List.map_filter f (x # xs) = List.map_filter f [x] @ List.map_filter f xs"
  by (simp add: List.map_filter_def)

lemma verify_loop_state:
  "verify_loop p min_conf agent fs is st = Inr st' \<Longrightarrow>
     vs_verified st' = vs_verified st @ List.map_filter (confirmed min_conf agent fs) is \<and>
     vs_dropped st' = vs_dropped st @ List.map_filter (dropped_as min_conf agent fs) is"
proof (induction "is" arbitrary: st)
  case Nil
  then show ?case by (simp add: List.map_filter_def)
next
  case (Cons i "is")
  then obtain st1 where "verify_step p min_conf (fs ! i) (agent i (fs ! i)) st = Inr st1"
    and l: "verify_loop p min_conf agent fs is st1 = Inr st'" by auto
  from verify_step_state [of p min_conf fs i agent, OF this(1)] Cons.IH [OF l]
  show ?case unfolding map_filter_Cons [of _ i "is"] by (metis append.assoc)
qed

lemma verify_run_buckets:
  "verify_run p min_conf agent order fs = Inr (v, d) \<Longrightarrow>
     v = List.map_filter (confirmed min_conf agent fs) order \<and>
     d = List.map_filter (dropped_as min_conf agent fs) order"
  using verify_loop_state by (fastforce simp: verify_run_def)

lemma buckets_length:
  "length (List.map_filter (confirmed min_conf agent fs) is) +
     length (List.map_filter (dropped_as min_conf agent fs) is) = length is"
  using one_bucket [of min_conf agent fs]
  by (induction "is") (auto simp: List.map_filter_def)

lemma mset_map_filter: "mset is = mset js \<Longrightarrow> mset (List.map_filter f is) = mset (List.map_filter f js)"
  unfolding List.map_filter_def by (metis mset_filter mset_map)

section \<open>Reading back a verdict line\<close>

definition tp_value :: "tp_verdict \<Rightarrow> pystr" where
  "tp_value v = (case v of TRUE_POSITIVE \<Rightarrow> ''TRUE_POSITIVE'' | FALSE_POSITIVE \<Rightarrow> ''FALSE_POSITIVE'')"

text \<open>The line the verifier is asked for.\<close>

definition verdict_line :: "tp_verdict \<Rightarrow> nat \<Rightarrow> pystr \<Rightarrow> pystr" where
  "verdict_line v n why =
     ''VERDICT:'' @ '' '' @ tp_value v @ '' '' @ ''(confidence:'' @ '' '' @ show_nat n @ ''/'' @ ''10)'' @
       '' '' @ ''-'' @ '' '' @ why"

text \<open>A reason: one line of text, not blank at either end.\<close>

definition plain_reason :: "pystr \<Rightarrow> bool" where
  "plain_reason why \<longleftrightarrow>
     why \<noteq> [] \<and> list_all (\<lambda>c. \<not> line_break c) why \<and> \<not> py_space (hd why) \<and> \<not> py_space (last why)"

lemma show_nat_short: "n \<le> 10 \<Longrightarrow> 1 \<le> length (show_nat n) \<and> length (show_nat n) \<le> 2"
proof -
  assume "n \<le> 10"
  then have "n < 10 \<or> n = 10" by linarith
  then show ?thesis by (auto simp: show_nat.simps [of n] show_nat.simps [of 1] show_nat.simps [of "Suc 0"])
qed

lemma lit_hd_not [simp]: "\<not> py_space CHR ''V''" "\<not> py_space CHR ''T''" "\<not> py_space CHR ''F''"
  "\<not> py_space CHR ''(''" "\<not> py_space CHR ''/''" "\<not> py_space CHR ''1''" "\<not> py_space CHR ''-''"
  "\<not> py_digit CHR ''/''" "py_space CHR '' ''" "lower_char CHR '' '' = CHR '' ''"
  by (simp_all add: py_space_def py_digit_def lower_char_def Let_def)

lemma nocase_verdict_re:
  "verdict_re = Seq (nocase (lit ''VERDICT:'')) (Seq (star (Cls py_space))
     (Seq (Grp 1 (Alt (nocase (lit ''TRUE_POSITIVE'')) (nocase (lit ''FALSE_POSITIVE''))))
     (Seq (star (Cls py_space)) (Seq (nocase (lit ''(confidence:'')) (Seq (star (Cls py_space))
     (Seq (Grp 2 (times_re 1 2 (Cls py_digit))) (Seq (star (Cls py_space)) (Seq (nocase (lit ''/''))
     (Seq (star (Cls py_space)) (Seq (nocase (lit ''10)'')) (Seq (star (Cls py_space))
     (Seq (opt (nocase (Cls (one_of ''-'')))) (Seq (star (Cls py_space))
     (Grp 3 (star (nocase (Cls (\<lambda>c. c \<noteq> CHR 0x0A))))))))))))))))))"
  by (simp add: verdict_re_def)

lemma F_not_T: "lower_char CHR ''F'' \<noteq> CHR ''T''" "upper_char CHR ''F'' \<noteq> CHR ''T''"
  by code_simp+

lemma tp_eats:
  "eats (Alt (nocase (lit ''TRUE_POSITIVE'')) (nocase (lit ''FALSE_POSITIVE''))) a (tp_value v) b c c"
proof (cases v)
  case TRUE_POSITIVE
  then show ?thesis by (simp add: tp_value_def eats_Alt1 eats_nocase_lit)
next
  case FALSE_POSITIVE
  have "re_at (nocase (lit ''TRUE_POSITIVE'')) (a @ ''FALSE_POSITIVE'' @ b) (length a, c) = []"
    unfolding lit_simps nocase.simps by (rule re_at_Seq_no) (simp add: F_not_T)
  then show ?thesis using FALSE_POSITIVE by (simp add: tp_value_def eats_Alt2 eats_nocase_lit)
qed

lemma verdict_eats:
  fixes v :: tp_verdict
  assumes "n \<le> 10" "plain_reason why"
  defines "a1 \<equiv> ([] @ ''VERDICT:'') @ '' ''"
  defines "a2 \<equiv> (((a1 @ tp_value v) @ '' '') @ ''(confidence:'') @ '' ''"
  defines "a3 \<equiv> (((((((a2 @ show_nat n) @ []) @ ''/'') @ []) @ ''10)'') @ '' '') @ ''-'') @ '' ''"
  shows "eats verdict_re [] (verdict_line v n why) [] []
    [(3, length a3, length a3 + length why), (2, length a2, length a2 + length (show_nat n)),
     (1, length a1, length a1 + length (tp_value v))]"
proof -
  have d: "list_all py_digit (show_nat n)" "1 \<le> length (show_nat n)" "length (show_nat n) \<le> 2"
    using show_nat_digits [of n] show_nat_short [OF assms(1)] by (auto simp: py_isdigit_def)
  have w: "list_all (\<lambda>c. lower_char c \<noteq> CHR 0x0A \<or> upper_char c \<noteq> CHR 0x0A) why"
    using assms(2) by (auto simp: plain_reason_def list_all_iff line_break_def lower_char_def upper_char_def Let_def)
  have tp: "tp_value v @ x \<noteq> [] \<and> \<not> py_space (hd (tp_value v @ x))" for x by (cases v) (simp_all add: tp_value_def)
  have sn: "show_nat n @ x \<noteq> [] \<and> \<not> py_space (hd (show_nat n @ x))" for x
    using d by (cases "show_nat n") (auto simp: py_space_def py_digit_def Let_def)
  have line: "verdict_line v n why =
    ''VERDICT:'' @ '' '' @ tp_value v @ '' '' @ ''(confidence:'' @ '' '' @ show_nat n @ [] @ ''/'' @ [] @ ''10)'' @
       '' '' @ ''-'' @ '' '' @ why" by (simp add: verdict_line_def)
  show ?thesis
    unfolding nocase_verdict_re line a1_def a2_def a3_def
    apply (rule eats_Seq, rule eats_nocase_lit)
    apply (rule eats_Seq, rule eats_star, simp, use tp in simp)
    apply (rule eats_Seq, rule eats_Grp, rule tp_eats)
    apply (rule eats_Seq, rule eats_star, simp, simp)
    apply (rule eats_Seq, rule eats_nocase_lit)
    apply (rule eats_Seq, rule eats_star, simp, use sn in simp)
    apply (rule eats_Seq, rule eats_Grp, rule eats_times, rule d, rule d, rule d, simp)
    apply (rule eats_Seq, rule eats_star, simp, simp)
    apply (rule eats_Seq, rule eats_nocase_lit)
    apply (rule eats_Seq, rule eats_star, simp, simp)
    apply (rule eats_Seq, rule eats_nocase_lit)
    apply (rule eats_Seq, rule eats_star, simp, simp)
    apply (rule eats_Seq, simp only: nocase.simps, rule eats_times, simp add: one_of_def lower_char_def Let_def, simp, simp, simp)
    apply (rule eats_Seq, rule eats_star, simp, use assms(2) in \<open>simp add: plain_reason_def\<close>)
    apply (rule eats_Grp, simp only: nocase.simps, rule eats_star, rule w, simp)
    done
qed

lemma verdict_match:
  assumes "n \<le> 10" "plain_reason why"
  shows "\<exists>m. search_from verdict_re (verdict_line v n why) 0 = Some m \<and>
    group_or (verdict_line v n why) m 1 = tp_value v \<and>
    group_or (verdict_line v n why) m 2 = show_nat n \<and>
    group_or (verdict_line v n why) m 3 = why"
proof -
  let ?l = "verdict_line v n why"
  define a1 where "a1 = ([] @ ''VERDICT:'') @ '' ''"
  define a2 where "a2 = (((a1 @ tp_value v) @ '' '') @ ''(confidence:'') @ '' ''"
  define a3 where "a3 = (((((((a2 @ show_nat n) @ []) @ ''/'') @ []) @ ''10)'') @ '' '') @ ''-'') @ '' ''"
  note e = verdict_eats [OF assms, of v, folded a1_def, folded a2_def, folded a3_def]
  have "?l = a1 @ tp_value v @ '' '' @ ''(confidence:'' @ '' '' @ show_nat n @ ''/'' @ ''10)'' @ '' '' @ ''-'' @ '' '' @ why"
    by (simp add: verdict_line_def a1_def)
  then have g1: "span_text ?l (length a1) (length a1 + length (tp_value v)) = tp_value v"
    by (simp add: span_text_at)
  have "?l = a2 @ show_nat n @ ''/'' @ ''10)'' @ '' '' @ ''-'' @ '' '' @ why"
    by (simp add: verdict_line_def a1_def a2_def)
  then have g2: "span_text ?l (length a2) (length a2 + length (show_nat n)) = show_nat n"
    by (simp add: span_text_at)
  have "?l = a3 @ why @ []" by (simp add: verdict_line_def a1_def a2_def a3_def)
  then have g3: "span_text ?l (length a3) (length a3 + length why) = why"
    by (simp only: span_text_at)
  from eats_match [OF e] show ?thesis using g1 g2 g3 by (simp add: group_or_def group_def)
qed

lemma splitlines_last:
  assumes "l \<noteq> []" "list_all (\<lambda>c. \<not> line_break c) l"
  shows "splitlines_from cr cur l = [rev cur @ l]"
  using assms
proof (induction l arbitrary: cr cur)
  case (Cons c l)
  have "c \<noteq> CHR 0x0A" using Cons.prems(2) by (auto simp: line_break_def)
  then have "splitlines_from cr cur (c # l) = splitlines_from False (c # cur) l" using Cons.prems(2) by simp
  then show ?case using Cons.IH [of False "c # cur"] Cons.prems(2) by (cases "l = []") simp_all
qed simp

lemma splitlines_lead:
  assumes "l \<noteq> []" "list_all (\<lambda>c. \<not> line_break c) l"
  shows "\<exists>ls. splitlines_from cr cur (pre @ CHR 0x0A # l) = ls @ [l]"
proof (induction pre arbitrary: cr cur)
  case Nil
  show ?case using splitlines_last [OF assms] by (auto simp: line_break_def)
next
  case (Cons c pre)
  then show ?case by (auto; metis append_Cons)
qed

lemma strip_keeps_last_line:
  assumes "l \<noteq> []" "\<not> py_space (hd l)" "\<not> py_space (last l)" "list_all (\<lambda>c. \<not> line_break c) l"
  shows "\<exists>ls. splitlines (py_strip (pre @ CHR 0x0A # l)) = ls @ [l]"
proof -
  have r: "py_rstrip (x @ l) = x @ l" for x
    using assms(1,3) by (cases l rule: rev_cases) (auto simp: py_rstrip_def)
  have "py_space CHR 0x0A" by (simp add: py_space_def)
  then have "py_lstrip (pre @ CHR 0x0A # l) = l \<or> (\<exists>p. py_lstrip (pre @ CHR 0x0A # l) = p @ CHR 0x0A # l)"
    using assms(1,2) unfolding py_lstrip_def by (induction pre) (cases l; auto)+
  then have "py_strip (pre @ CHR 0x0A # l) = l \<or> (\<exists>p. py_strip (pre @ CHR 0x0A # l) = p @ CHR 0x0A # l)"
    using r [of "[]"] r [of "p @ [CHR 0x0A]" for p] by (auto simp: py_strip_def)
  then show ?thesis using splitlines_last [OF assms(1,4), of False "[]"] splitlines_lead [OF assms(1,4), of False "[]"]
    by (auto simp: splitlines_def)
qed

lemma strip_plain: "w \<noteq> [] \<Longrightarrow> \<not> py_space (hd w) \<Longrightarrow> \<not> py_space (last w) \<Longrightarrow> py_strip w = w"
proof -
  assume w: "w \<noteq> []" "\<not> py_space (hd w)" "\<not> py_space (last w)"
  from w(1,2) have "py_lstrip w = w" by (cases w) (simp_all add: py_lstrip_def)
  moreover from w(1,3) have "py_rstrip w = w" by (cases w rule: rev_cases) (simp_all add: py_rstrip_def)
  ultimately show ?thesis by (simp add: py_strip_def)
qed

lemma last_verdict_last: "search_from verdict_re l 0 = Some m \<Longrightarrow> last_verdict (ls @ [l]) = Some (length ls, m)"
  by (induction ls) auto

lemma verdict_line_read:
  assumes "n \<le> 10" "plain_reason why"
  shows "let p = parse_reply_verdict (prose @ [CHR 0x0A] @ verdict_line v n why)
     in v_verdict p = v \<and> v_conf p = int n \<and> v_reason p = why"
proof -
  let ?l = "verdict_line v n why"
  obtain m where m: "search_from verdict_re ?l 0 = Some m" "group_or ?l m 1 = tp_value v"
    "group_or ?l m 2 = show_nat n" "group_or ?l m 3 = why" using verdict_match [OF assms(1,2)] by blast
  have nb: "list_all (\<lambda>c. \<not> line_break c) (show_nat n)"
    using show_nat_digits [of n] by (auto simp: py_isdigit_def list_all_iff py_digit_def line_break_def Let_def)
  have "list_all (\<lambda>c. \<not> line_break c) ?l"
    using nb assms(2) by (cases v) (simp_all add: verdict_line_def tp_value_def plain_reason_def line_break_def)
  moreover have "?l \<noteq> []" "\<not> py_space (hd ?l)" "\<not> py_space (last ?l)"
    using assms(2) by (simp_all add: verdict_line_def plain_reason_def)
  ultimately obtain ls where ls: "splitlines (py_strip (prose @ CHR 0x0A # ?l)) = ls @ [?l]"
    using strip_keeps_last_line by blast
  have "verdict_of (tp_value v) = v" by (cases v) (simp_all add: verdict_of_def tp_value_def pystr_eval)
  moreover have "py_strip why = why" "why \<noteq> []" using assms(2) by (simp_all add: plain_reason_def strip_plain)
  moreover have "min 10 (int n) = int n" using assms(1) by simp
  ultimately show ?thesis
    using last_verdict_last [OF m(1), of ls] show_nat_digits [of n] m(2-4)
    by (simp add: parse_reply_verdict_def ls Let_def nth_append)
qed


lemma sample_reason: "plain_reason ''id reaches the query''"
  by (simp add: plain_reason_def line_break_def py_space_def)


definition good_reply :: pystr where
  "good_reply = [] @ [CHR 0x0A] @ verdict_line TRUE_POSITIVE 9 ''id reaches the query''"

lemma good_reply_confirms: "verdict_drop 7 (verified_finding f good_reply) = None"
  using verdict_line_read [OF _ sample_reason, of 9 "[]" TRUE_POSITIVE]
  by (simp add: verdict_drop_def verified_finding_def confidence_or_0_def good_reply_def Let_def)

section \<open>Verdicts\<close>

lemma last_verdict_nth:
  "last_verdict ls = Some (i, m) \<Longrightarrow> i < length ls \<and> search_from verdict_re (ls ! i) 0 = Some m \<and>
     (\<forall>j. i < j \<longrightarrow> j < length ls \<longrightarrow> search_from verdict_re (ls ! j) 0 = None)"
proof (induction ls arbitrary: i m)
  case (Cons l ls)
  have none: "last_verdict ls = None \<Longrightarrow> x \<in> set ls \<Longrightarrow> search_from verdict_re x 0 = None" for x ls
    by (induction ls) (auto split: option.splits)
  show ?case
  proof (cases "last_verdict ls")
    case None
    with Cons.prems none [OF None] show ?thesis
      by (auto simp: nth_Cons split: nat.splits option.splits)
  next
    case (Some km)
    obtain k m' where km: "km = (k, m')" by (cases km)
    with Cons.prems Some have "i = Suc k" "m = m'" by auto
    with Cons.IH [of k m'] Some km show ?thesis by (auto simp: nth_Cons split: nat.splits)
  qed
qed simp

text \<open>
  \<open>confirms raw n\<close>: the last verdict line of the reply says TRUE_POSITIVE with confidence at
  least \<open>n\<close>, of 10.
\<close>

definition confirms :: "pystr \<Rightarrow> int \<Rightarrow> bool" where
  "confirms raw n \<longleftrightarrow>
     (let lines = splitlines (py_strip raw) in
      \<exists>i m. i < length lines \<and> search_from verdict_re (lines ! i) 0 = Some m \<and>
        (\<forall>j. i < j \<longrightarrow> j < length lines \<longrightarrow> search_from verdict_re (lines ! j) 0 = None) \<and>
        py_upper (group_or (lines ! i) m 1) = ''TRUE_POSITIVE'' \<and>
        n \<le> max 0 (min 10 (int (digits_val (group_or (lines ! i) m 2)))))"

lemma parse_reply_verdict_confirms:
  assumes "v_verdict (parse_reply_verdict raw) = TRUE_POSITIVE" "n \<le> v_conf (parse_reply_verdict raw)"
  shows "confirms raw n"
proof -
  let ?lines = "splitlines (py_strip raw)"
  obtain i m where im: "last_verdict ?lines = Some (i, m)"
    using assms(1) by (cases "last_verdict ?lines") (auto simp: parse_reply_verdict_def Let_def)
  from assms im have "py_upper (group_or (?lines ! i) m 1) = ''TRUE_POSITIVE''"
    "n \<le> max 0 (min 10 (int (digits_val (group_or (?lines ! i) m 2))))"
    by (auto simp: parse_reply_verdict_def Let_def verdict_of_def split: if_splits)
  with last_verdict_nth [OF im] show ?thesis unfolding confirms_def Let_def by blast
qed

lemma confirmed_confirms:
  assumes "confirmed min_conf agent fs i = Some k"
  shows "\<exists>raw. agent i (fs ! i) = Reply raw \<and> k = verified_finding (fs ! i) raw \<and> confirms raw min_conf"
proof -
  obtain raw where raw: "agent i (fs ! i) = Reply raw" "k = verified_finding (fs ! i) raw"
    "verdict_drop min_conf (verified_finding (fs ! i) raw) = None"
    using assms by (auto simp: confirmed_def split: agent_result.splits if_splits)
  from raw(3) have "f_verdict (verified_finding (fs ! i) raw) = Some TRUE_POSITIVE"
    "min_conf \<le> confidence_or_0 (verified_finding (fs ! i) raw)"
    by (auto simp: verdict_drop_def split: if_splits)
  then have "confirms raw min_conf"
    by (intro parse_reply_verdict_confirms) (simp_all add: verified_finding_def Let_def confidence_or_0_def)
  with raw(1,2) show ?thesis by blast
qed

text \<open>
  C18.  Verification keeps or drops every finding exactly once, and keeps one only when the
  last verdict line of its own verifier's reply says TRUE_POSITIVE with a confidence that
  reaches the gate: an error, a blocked or an unreadable reply never confirms.
\<close>

theorem verify_confirms_only_verdicts:
  assumes "verify_run par min_conf agent order findings = Inr (verified, dropped)"
    and "mset order = mset [0..<length findings]"
  shows "length verified + length dropped = length findings \<and>
     (\<forall>k \<in> set verified. \<exists>i < length findings. \<exists>raw.
        agent i (findings ! i) = Reply raw \<and> k = verified_finding (findings ! i) raw \<and> confirms raw min_conf)"
proof -
  note b = verify_run_buckets [OF assms(1)]
  have "length order = length findings" using assms(2) by (metis length_upt minus_nat.diff_0 size_mset)
  moreover have "set order = {0..<length findings}" using assms(2) by (metis set_mset_mset set_upt)
  moreover have "\<exists>i < length findings. \<exists>raw. agent i (findings ! i) = Reply raw \<and>
      k = verified_finding (findings ! i) raw \<and> confirms raw min_conf" if k: "k \<in> set verified" for k
  proof -
    obtain i where "i \<in> set order" "confirmed min_conf agent findings i = Some k"
      using k b by (auto simp: in_map_filter)
    then show ?thesis using confirmed_confirms [of min_conf agent findings i k] calculation(2) by auto
  qed
  ultimately show ?thesis using b buckets_length [of min_conf agent findings order] by simp
qed

lemma verify_confirms_only_verdicts_witness:
  "\<exists>v d. verify_run 4 7 (\<lambda>i _. if i = 0 then AgentError ''timeout'' else Reply good_reply) [1, 0]
     [plain_finding ''a.py'' 1 2 RACE, plain_finding ''b.py'' 5 6 RACE] = Inr (v, d) \<and>
     v \<noteq> [] \<and> length v + length d = 2"
proof -
  let ?fs = "[plain_finding ''a.py'' 1 2 RACE, plain_finding ''b.py'' 5 6 RACE]"
  let ?run = "verify_run 4 7 (\<lambda>i _. if i = 0 then AgentError ''timeout'' else Reply good_reply) [1, 0] ?fs"
  have "\<exists>v d. ?run = Inr (v, d) \<and> v \<noteq> []"
    by (simp add: verify_run_def verify_step_def good_reply_confirms Let_def)
  then obtain v d where r: "?run = Inr (v, d)" "v \<noteq> []" by blast
  from verify_confirms_only_verdicts [OF r(1)] r show ?thesis by (simp add: upt_rec)
qed

text \<open>
  The order in which the workers finish does not change which findings are verified and
  which audit records are written.
\<close>

lemma verify_order_independent:
  assumes "verify_run par min_conf agent order findings = Inr (v, d)"
    and "verify_run par min_conf agent order' findings = Inr (v', d')"
    and "mset order' = mset order"
  shows "mset v' = mset v \<and> mset d' = mset d"
  using verify_run_buckets [OF assms(1)] verify_run_buckets [OF assms(2)] mset_map_filter [OF assms(3)]
  by metis

lemma verify_order_independent_witness:
  "\<exists>v d v' d'. verify_run 4 7 (\<lambda>i _. AgentError ''x'') [1, 0]
       [plain_finding ''a.py'' 1 2 RACE, plain_finding ''b.py'' 5 6 RACE] = Inr (v, d) \<and>
     verify_run 4 7 (\<lambda>i _. AgentError ''x'') [0, 1]
       [plain_finding ''a.py'' 1 2 RACE, plain_finding ''b.py'' 5 6 RACE] = Inr (v', d') \<and>
     d' \<noteq> d \<and> mset d' = mset d"
proof -
  let ?fs = "[plain_finding ''a.py'' 1 2 RACE, plain_finding ''b.py'' 5 6 RACE]"
  let ?dr = "\<lambda>f. drop_record f DropVerifyError ''x'' None"
  have a: "verify_run 4 7 (\<lambda>i _. AgentError ''x'') [1, 0] ?fs = Inr ([], [?dr (?fs ! 1), ?dr (?fs ! 0)])"
    and b: "verify_run 4 7 (\<lambda>i _. AgentError ''x'') [0, 1] ?fs = Inr ([], [?dr (?fs ! 0), ?dr (?fs ! 1)])"
    by (simp_all add: verify_run_def verify_step_def)
  from verify_order_independent [OF a b] have "mset [?dr (?fs ! 0), ?dr (?fs ! 1)] = mset [?dr (?fs ! 1), ?dr (?fs ! 0)]"
    by simp
  moreover have "?dr (?fs ! 0) \<noteq> ?dr (?fs ! 1)" by (simp add: drop_record_def plain_finding_def)
  ultimately show ?thesis using a b by auto
qed

section \<open>Stopping early\<close>

text \<open>A worker at which the run aborts, after \<open>hits\<close> blocks and with nothing verified.\<close>

definition aborts_at ::
    "int \<Rightarrow> int \<Rightarrow> (nat \<Rightarrow> finding \<Rightarrow> agent_result) \<Rightarrow> finding list \<Rightarrow> int \<Rightarrow> nat list \<Rightarrow> nat \<Rightarrow> bool" where
  "aborts_at p min_conf agent fs hits as i \<longleftrightarrow>
     blocked agent fs i \<and> max 3 p \<le> hits + blocks agent fs (as @ [i]) \<and>
     List.map_filter (confirmed min_conf agent fs) as = []"

lemma aborts_at_Cons:
  "aborts_at p min_conf agent fs hits (i # as) j \<longleftrightarrow>
     confirmed min_conf agent fs i = None \<and>
     aborts_at p min_conf agent fs (hits + blocks agent fs [i]) as j"
  by (auto simp: aborts_at_def List.map_filter_def)

lemma verify_loop_abort:
  "(\<exists>e. verify_loop p min_conf agent fs is st = Inl e) \<longleftrightarrow>
     vs_verified st = [] \<and>
     (\<exists>as i bs. is = as @ i # bs \<and> aborts_at p min_conf agent fs (vs_guardrail_hits st) as i)"
proof (induction "is" arbitrary: st)
  case (Cons i "is")
  let ?step = "verify_step p min_conf (fs ! i) (agent i (fs ! i)) st" and ?h = "vs_guardrail_hits st"
  have "(\<exists>as j bs. i # is = as @ j # bs \<and> aborts_at p min_conf agent fs ?h as j) \<longleftrightarrow>
      aborts_at p min_conf agent fs ?h [] i \<or>
      (\<exists>as j bs. is = as @ j # bs \<and> aborts_at p min_conf agent fs ?h (i # as) j)"
    by (subst Cons_eq_append_conv) blast
  moreover have "(\<exists>e. ?step = Inl e) \<longleftrightarrow> vs_verified st = [] \<and> aborts_at p min_conf agent fs ?h [] i"
    unfolding verify_step_abort by (auto simp: aborts_at_def)
  moreover have "vs_verified st = [] \<and>
      (\<exists>as j bs. is = as @ j # bs \<and> aborts_at p min_conf agent fs ?h (i # as) j) \<longleftrightarrow>
      (\<exists>e. verify_loop p min_conf agent fs is st1 = Inl e)" if "?step = Inr st1" for st1
    using verify_step_state [of p min_conf fs i agent, OF that] Cons.IH [of st1]
    by (auto simp: aborts_at_Cons List.map_filter_def split: option.splits)
  ultimately show ?case by (cases ?step) auto
qed simp

text \<open>
  Verification aborts exactly when, at a blocked worker, the blocks so far reach the gate
  (the parallelism, three at least) and no finding has been verified before it.
\<close>

lemma verify_aborts_iff:
  "(\<exists>e. verify_run par min_conf agent order findings = Inl e) \<longleftrightarrow>
     (\<exists>as i bs. order = as @ i # bs \<and> blocked agent findings i \<and>
        max 3 par \<le> blocks agent findings (as @ [i]) \<and>
        List.map_filter (confirmed min_conf agent findings) as = [])"
proof -
  have "(\<exists>e. verify_run par min_conf agent order findings = Inl e) \<longleftrightarrow>
      (\<exists>e. verify_loop par min_conf agent findings order
         \<lparr>vs_verified = [], vs_dropped = [], vs_guardrail_hits = 0\<rparr> = Inl e)"
    by (auto simp: verify_run_def and_then_def split: sum.splits)
  then show ?thesis unfolding verify_loop_abort aborts_at_def by simp
qed

end
