(* ===== verification/ChainProps.thy ===== *)
theory ChainProps
  imports Chain "HOL-Library.Multiset"
begin

text \<open>
  Whatever the chain model answers, the report lists every finding once, in order, with the
  severity its CVSS band dictates, and every link into the report points to the right finding.
\<close>

section \<open>Ranked pairs\<close>

text \<open>Ranked findings tagged with the index of the finding they are about.\<close>

definition pairs_ok :: "finding list \<Rightarrow> (nat \<times> ranked_finding) list \<Rightarrow> bool" where
  "pairs_ok fs ps \<longleftrightarrow> distinct (map fst ps) \<and>
     (\<forall>p \<in> set ps. fst p < length fs \<and> rk_finding (snd p) = fs ! fst p \<and>
        (\<exists>l. rk_severity (snd p) = final_severity (fs ! fst p) l))"

lemma rank_index_Some: "rank_index n covered v = Some i \<Longrightarrow> i < n \<and> i \<notin> set covered"
  by (auto simp: rank_index_def split: pyval.splits if_splits)

lemma hydrate_ranked_ok:
  "hydrate_ranked rep fs vs acc = Inr ps \<Longrightarrow> pairs_ok fs acc \<Longrightarrow> pairs_ok fs ps"
proof (induction vs arbitrary: acc)
  case (Cons v vs)
  show ?case
  proof (cases "\<exists>item. v = PDict item")
    case False
    then have "hydrate_ranked rep fs vs acc = Inr ps" using Cons.prems(1) by (cases v) auto
    then show ?thesis using Cons.IH Cons.prems(2) by blast
  next
    case True
    then obtain item where v: "v = PDict item" by blast
    show ?thesis
    proof (cases "rank_index (length fs) (map fst acc) (py_get item ''index'')")
      case None
      then show ?thesis using Cons v by simp
    next
      case (Some i)
      note i = rank_index_Some [OF Some]
      obtain nt where h: "hydrate_ranked rep fs vs (acc @ [(i, \<lparr>rk_finding = fs ! i,
            rk_severity = final_severity (fs ! i) (coerce_sev rep (py_get item ''severity'')),
            rk_notes = nt\<rparr>)]) = Inr ps"
        using Cons.prems(1) v Some by auto
      show ?thesis
        by (rule Cons.IH [OF h]) (use Cons.prems(2) i in \<open>auto simp: pairs_ok_def\<close>)
    qed
  qed
qed simp

lemma unranked_rest_ok:
  assumes "pairs_ok fs ps"
  shows "pairs_ok fs (ps @ unranked_rest fs (map fst ps))"
    and "set (map fst (ps @ unranked_rest fs (map fst ps))) = {..<length fs}"
proof -
  have f: "map fst (unranked_rest fs c) = filter (\<lambda>i. i \<notin> set c) [0..<length fs]" for c
    by (simp add: unranked_rest_def comp_def)
  have "\<forall>p \<in> set (unranked_rest fs c). fst p < length fs \<and> rk_finding (snd p) = fs ! fst p \<and>
      (\<exists>l. rk_severity (snd p) = final_severity (fs ! fst p) l)" for c
    by (auto simp: unranked_rest_def)
  then show "pairs_ok fs (ps @ unranked_rest fs (map fst ps))"
    using assms unfolding pairs_ok_def map_append distinct_append f set_append by auto
  show "set (map fst (ps @ unranked_rest fs (map fst ps))) = {..<length fs}"
    using assms unfolding map_append set_append f pairs_ok_def by auto
qed

section \<open>The order of the report\<close>

lemma sort_order_perm: "mset (severity_sort_order rs) = mset [0..<length rs]"
  by (simp add: severity_sort_order_def)

lemma sort_order_facts:
  "length (severity_sort_order rs) = length rs" "distinct (severity_sort_order rs)"
  "set (severity_sort_order rs) = {..<length rs}"
  by (auto simp: severity_sort_order_def)

lemma sort_order_sorted: "sorted (map rank_key (map (\<lambda>k. rs ! k) (severity_sort_order rs)))"
  by (simp add: severity_sort_order_def comp_def)

text \<open>
  A report laid out from complete ranked pairs: which place each finding has, and what the
  links say.
\<close>

definition laid_out ::
    "finding list \<Rightarrow> ranked_finding list \<Rightarrow> (nat, nat) pydict \<Rightarrow> bool" where
  "laid_out fs rs pos \<longleftrightarrow>
     length rs = length fs \<and> mset (map rk_finding rs) = mset fs \<and> sorted (map rank_key rs) \<and>
     (\<forall>r \<in> set rs. \<exists>l. rk_severity r = final_severity (rk_finding r) l) \<and>
     dom (dict_get pos) = {..<length fs} \<and> inj_on (\<lambda>i. the (dict_get pos i)) {..<length fs} \<and>
     (\<forall>i < length fs. the (dict_get pos i) < length fs \<and> rk_finding (rs ! the (dict_get pos i)) = fs ! i)"

lemma dict_get_positions:
  assumes "distinct os"
  shows "dict_get (positions os) i = Some k \<longleftrightarrow> k < length os \<and> os ! k = i"
proof -
  have "dict_get (positions os) i = Some k \<longleftrightarrow> (i, k) \<in> set (zip os [0..<length os])"
    unfolding positions_def by (rule map_of_eq_Some_iff) (simp add: assms)
  also have "\<dots> \<longleftrightarrow> k < length os \<and> os ! k = i" by (auto simp: in_set_zip)
  finally show ?thesis .
qed

lemma lay_out:
  assumes "pairs_ok fs ps" "set (map fst ps) = {..<length fs}"
  defines "order \<equiv> severity_sort_order (map snd ps)"
  shows "laid_out fs (map (\<lambda>k. map snd ps ! k) order) (positions (map (\<lambda>k. map fst ps ! k) order))"
proof -
  let ?n = "length fs" and ?rs = "map (\<lambda>k. map snd ps ! k) order" and ?os = "map (\<lambda>k. map fst ps ! k) order"
  have d: "distinct (map fst ps)" using assms(1) by (simp add: pairs_ok_def)
  have n: "length ps = ?n" using distinct_card [OF d] assms(2) by simp
  have o: "length order = ?n" "distinct order" "set order = {..<?n}"
    using sort_order_facts [of "map snd ps"] n by (simp_all add: order_def)
  have dist: "distinct ?os"
    unfolding distinct_map o(3) using o(2) by (intro conjI inj_on_nth d) (simp_all add: n)
  have sets: "set ?os = {..<?n}"
  proof -
    have "(\<lambda>k. xs ! k) ` {..<length xs} = set xs" for xs :: "nat list" by (auto simp: set_conv_nth)
    from this [of "map fst ps"] show ?thesis unfolding set_map o(3) using n assms(2) by simp
  qed
  have at: "rk_finding (?rs ! k) = fs ! (?os ! k) \<and> ?os ! k < ?n \<and>
      (\<exists>l. rk_severity (?rs ! k) = final_severity (fs ! (?os ! k)) l)" if "k < ?n" for k
  proof -
    have "order ! k < ?n" using o that by (metis lessThan_iff nth_mem)
    then have "ps ! (order ! k) \<in> set ps" using n by simp
    then show ?thesis using assms(1) that o(1) n \<open>order ! k < ?n\<close> by (simp add: pairs_ok_def)
  qed
  have pos: "dict_get (positions ?os) i = Some k \<longleftrightarrow> k < ?n \<and> ?os ! k = i" for i k
    using dict_get_positions [OF dist] o(1) by simp
  have ex: "\<exists>k. dict_get (positions ?os) i = Some k" if "i < ?n" for i
    using that sets pos o(1) by (metis in_set_conv_nth length_map lessThan_iff)
  have "mset ?os = mset [0..<?n]" using dist sets by (metis atLeast0LessThan distinct_upt set_eq_iff_mset_eq_distinct set_upt)
  then have "mset (map (\<lambda>i. fs ! i) ?os) = mset (map (\<lambda>i. fs ! i) [0..<?n])" by (simp only: mset_map)
  moreover have "map rk_finding ?rs = map (\<lambda>i. fs ! i) ?os"
    using at o(1) by (intro nth_equalityI) auto
  ultimately have "mset (map rk_finding ?rs) = mset fs" by (metis map_nth)
  moreover have "\<forall>r \<in> set ?rs. \<exists>l. rk_severity r = final_severity (rk_finding r) l"
    using at o(1) by (metis in_set_conv_nth length_map)
  moreover have "sorted (map rank_key ?rs)" unfolding order_def by (rule sort_order_sorted)
  moreover have "dom (dict_get (positions ?os)) = {..<?n}" using ex pos at by (auto simp: dom_def)
  moreover have "inj_on (\<lambda>i. the (dict_get (positions ?os) i)) {..<?n}"
    using ex pos by (intro inj_onI) (metis lessThan_iff option.sel)
  moreover have "the (dict_get (positions ?os) i) < ?n \<and> rk_finding (?rs ! the (dict_get (positions ?os) i)) = fs ! i"
    if "i < ?n" for i
    using ex [OF that] pos at by (metis option.sel)
  moreover have "length ?rs = ?n" using o(1) by simp
  ultimately show ?thesis unfolding laid_out_def by blast
qed

section \<open>Chains\<close>

lemma hydrate_chain_steps:
  assumes "hydrate_chain rep pos item = Inr (Some c)"
  shows "2 \<le> length (ch_steps c) \<and> set (ch_steps c) \<subseteq> ran (dict_get pos)"
proof -
  have "set (List.map_filter (step_position pos) is) \<subseteq> ran (dict_get pos)" for "is"
    by (auto simp: List.map_filter_def step_position_def ran_def split: if_splits)
  moreover have "2 \<le> length (ch_steps c) \<and>
      ch_steps c = List.map_filter (step_position pos) (int_steps (list_or_empty (py_get item ''steps'')))"
    using assms by (auto simp: hydrate_chain_def Let_def split: if_splits)
  ultimately show ?thesis by metis
qed

lemma hydrate_chains_steps:
  "hydrate_chains rep pos vs = Inr cs \<Longrightarrow> c \<in> set cs \<Longrightarrow>
     2 \<le> length (ch_steps c) \<and> set (ch_steps c) \<subseteq> ran (dict_get pos)"
proof (induction vs arbitrary: cs)
  case (Cons v vs)
  show ?case
  proof (cases "\<exists>item. v = PDict item")
    case False
    then have "hydrate_chains rep pos vs = Inr cs" using Cons.prems(1) by (cases v) auto
    with Cons show ?thesis by blast
  next
    case True
    then obtain item x ys where "v = PDict item" "hydrate_chain rep pos item = Inr x"
      "hydrate_chains rep pos vs = Inr ys" "cs = (case x of None \<Rightarrow> ys | Some c \<Rightarrow> c # ys)"
      using Cons.prems(1) by auto
    then show ?thesis using Cons.IH [of ys] Cons.prems(2) hydrate_chain_steps [of rep pos item]
      by (cases x) auto
  qed
qed simp

section \<open>The report\<close>

definition report_ok :: "finding list \<Rightarrow> dropped_finding list \<Rightarrow> final_report \<Rightarrow> bool" where
  "report_ok fs dropped rep \<longleftrightarrow>
     (\<exists>pos. laid_out fs (fr_findings rep) pos \<and> fr_dropped rep = map (remap_dropped pos) dropped \<and>
        (\<forall>c \<in> set (fr_chains rep). 2 \<le> length (ch_steps c) \<and> set (ch_steps c) \<subseteq> ran (dict_get pos)))"

lemma hydrate_report_ok:
  assumes "hydrate_report rep data fs dropped raw_count = Inr r"
  shows "report_ok fs dropped r"
proof -
  obtain items ps where "hydrate_ranked rep fs items [] = Inr ps"
    and rest: "(let ps = ps @ unranked_rest fs (map fst ps);
           ranked = map snd ps; origs = map fst ps;
           order = severity_sort_order ranked;
           pos = positions (map (\<lambda>k. origs ! k) order)
       in and_then (items_of (py_get data ''chains'')) (\<lambda>citems.
          and_then (hydrate_chains rep pos citems) (\<lambda>chains.
          Inr \<lparr>fr_findings = map (\<lambda>k. ranked ! k) order, fr_chains = chains,
               fr_dropped = map (remap_dropped pos) dropped,
               fr_raw_findings_count = raw_count,
               fr_summary = (case py_get data ''summary'' of PStr s \<Rightarrow> s | _ \<Rightarrow> []),
               fr_degraded = False\<rparr>))) = Inr r"
    using assms unfolding hydrate_report_def by auto
  then have ps: "pairs_ok fs ps" using hydrate_ranked_ok by (metis distinct.simps(1) empty_iff list.set(1) list.simps(8) pairs_ok_def)
  let ?ps = "ps @ unranked_rest fs (map fst ps)"
  let ?order = "severity_sort_order (map snd ?ps)"
  let ?pos = "positions (map (\<lambda>k. map fst ?ps ! k) ?order)"
  have lay: "laid_out fs (map (\<lambda>k. map snd ?ps ! k) ?order) ?pos"
    by (rule lay_out [OF unranked_rest_ok [OF ps]])
  obtain citems chains where c: "hydrate_chains rep ?pos citems = Inr chains"
    and r: "r = \<lparr>fr_findings = map (\<lambda>k. map snd ?ps ! k) ?order, fr_chains = chains,
        fr_dropped = map (remap_dropped ?pos) dropped, fr_raw_findings_count = raw_count,
        fr_summary = (case py_get data ''summary'' of PStr s \<Rightarrow> s | _ \<Rightarrow> []), fr_degraded = False\<rparr>"
    using rest unfolding Let_def by (simp only: and_then_Inr) blast
  show ?thesis unfolding report_ok_def
    using lay hydrate_chains_steps [OF c] by (intro exI [of _ ?pos]) (simp add: r)
qed

lemma unranked_report_ok: "report_ok fs dropped (unranked_report fs dropped raw_count summary)"
proof -
  let ?rs = "map (\<lambda>f. \<lparr>rk_finding = f, rk_severity = final_severity f INFO,
      rk_notes = ''(chain analysis unavailable -- severity from CVSS only)''\<rparr>) fs"
  let ?ps = "zip [0..<length fs] ?rs"
  have m: "map snd ?ps = ?rs" "map fst ?ps = [0..<length fs]" by simp_all
  have "pairs_ok fs ?ps" by (auto simp: pairs_ok_def in_set_zip intro!: exI [of _ INFO])
  moreover have "set (map fst ?ps) = {..<length fs}" by auto
  ultimately have "laid_out fs (map (\<lambda>k. map snd ?ps ! k) (severity_sort_order (map snd ?ps)))
      (positions (map (\<lambda>k. map fst ?ps ! k) (severity_sort_order (map snd ?ps))))"
    by (rule lay_out)
  moreover have "map (\<lambda>k. [0..<length fs] ! k) (severity_sort_order ?rs) = severity_sort_order ?rs"
    using sort_order_facts(3) [of ?rs] by (intro map_idI) auto
  ultimately show ?thesis unfolding report_ok_def m
    by (intro exI [of _ "positions (severity_sort_order ?rs)"]) (simp add: unranked_report_def Let_def)
qed

lemma chain_run_ok: "report_ok fs dropped (chain_run rep reply fs dropped raw_count)"
proof (cases "fs = []")
  case True
  have "map (remap_dropped []) dropped = dropped"
    by (rule map_idI) (simp add: remap_dropped_def split: option.splits)
  with True show ?thesis
    by (auto simp: chain_run_def report_ok_def laid_out_def intro!: exI [of _ "[]"])
next
  case False
  then show ?thesis
    by (auto simp: chain_run_def hydrate_report_ok unranked_report_ok split: sum.splits)
qed

text \<open>
  C20.  Whatever the chain model replies, the report lists every verified finding exactly once,
  in the order of severity and then of offensive priority, and the severity is the one of the
  environmental CVSS band, else of the base band; only without either does the model choose.
\<close>

theorem report_complete_and_ordered:
  "mset (map rk_finding (fr_findings (chain_run rep reply findings dropped raw_count))) = mset findings \<and>
   sorted (map rank_key (fr_findings (chain_run rep reply findings dropped raw_count))) \<and>
   (\<forall>r \<in> set (fr_findings (chain_run rep reply findings dropped raw_count)).
      case sev_from_band (f_vsvs_rating (rk_finding r)) of
        Some s \<Rightarrow> rk_severity r = s
      | None \<Rightarrow> (case sev_from_band (f_cvss_rating (rk_finding r)) of
                   Some s \<Rightarrow> rk_severity r = s | None \<Rightarrow> True))"
proof -
  have "laid_out findings (fr_findings (chain_run rep reply findings dropped raw_count)) pos \<Longrightarrow> ?thesis" for pos
    unfolding laid_out_def by (fastforce simp: final_severity_def split: option.splits)
  then show ?thesis using chain_run_ok unfolding report_ok_def by blast
qed

lemma report_complete_and_ordered_witness:
  "\<exists>r. fr_findings (chain_run (\<lambda>_. []) (Reply_value (PList [PInt 3]))
       [(plain_finding ''a.py'' 1 2 RACE)\<lparr>f_cvss_rating := Some ''High''\<rparr>] [] 1) = [r] \<and>
     sev_from_band (f_cvss_rating (rk_finding r)) = Some HIGH \<and> rk_severity r = HIGH"
proof -
  let ?f = "(plain_finding ''a.py'' 1 2 RACE)\<lparr>f_cvss_rating := Some ''High''\<rparr>"
  let ?r = "chain_run (\<lambda>_. []) (Reply_value (PList [PInt 3])) [?f] [] 1"
  have high: "sev_from_band (Some ''High'') = Some HIGH" and none: "sev_from_band None = None" by code_simp+
  note t = report_complete_and_ordered [of "\<lambda>_. []" "Reply_value (PList [PInt 3])" "[?f]" "[]" 1]
  from t have "mset (map rk_finding (fr_findings ?r)) = {#?f#}" by simp
  then obtain r where r: "fr_findings ?r = [r]" "rk_finding r = ?f" by (cases "fr_findings ?r") auto
  moreover have "f_vsvs_rating ?f = None" "f_cvss_rating ?f = Some ''High''" by (simp_all add: plain_finding_def)
  ultimately have "rk_severity r = HIGH" using t high none by simp
  with r high show ?thesis by (simp add: plain_finding_def)
qed



end
