(* ===== verification/DedupReply.thy ===== *)
theory DedupReply
  imports Dedup RegexRun PyText
begin

text \<open>
  The reply of the deduplication model, printed in the format its prompt asks for and read back.
\<close>

section \<open>One line\<close>

type_synonym dedup_answer = "nat \<times> nat option \<times> pystr"

fun answer_flag :: "dedup_answer \<Rightarrow> pystr" where
  "answer_flag (i, c, why) = (case c of None \<Rightarrow> ''false'' | Some _ \<Rightarrow> ''true'')"

fun answer_canonical :: "dedup_answer \<Rightarrow> pystr" where
  "answer_canonical (i, c, why) = (case c of None \<Rightarrow> ''-1'' | Some k \<Rightarrow> show_nat k)"

definition answer_line :: "dedup_answer \<Rightarrow> pystr" where
  "answer_line x =
     ''index'' @ ''='' @ show_nat (fst x) @ '' '' @ ''is_duplicate'' @ ''='' @ answer_flag x @ '' '' @
     ''canonical'' @ ''='' @ answer_canonical x @ '' '' @ ''reasoning'' @ ''='' @ [CHR 0x22] @ snd (snd x) @ [CHR 0x22]"

definition quotable :: "pystr \<Rightarrow> bool" where
  "quotable why \<longleftrightarrow> list_all (\<lambda>c. c \<noteq> CHR 0x22) why \<and> py_strip why = why"

lemma nocase_line_re:
  "line_re = Seq (nocase (lit ''index'')) (Seq (star (Cls py_space)) (Seq (nocase (lit ''='')) (Seq (star (Cls py_space))
     (Seq (Grp 1 (plus (Cls py_digit))) (Seq (plus (Cls py_space))
     (Seq (nocase (lit ''is_duplicate'')) (Seq (star (Cls py_space)) (Seq (nocase (lit ''='')) (Seq (star (Cls py_space))
     (Seq (Grp 2 (Alt (nocase (lit ''true'')) (nocase (lit ''false'')))) (Seq (plus (Cls py_space))
     (Seq (nocase (lit ''canonical'')) (Seq (star (Cls py_space)) (Seq (nocase (lit ''='')) (Seq (star (Cls py_space))
     (Seq (Grp 3 (Seq (opt (nocase (lit ''-''))) (plus (Cls py_digit)))) (Seq (plus (Cls py_space))
     (Seq (nocase (lit ''reasoning'')) (Seq (star (Cls py_space)) (Seq (nocase (lit ''='')) (Seq (star (Cls py_space))
     (Seq (nocase (lit [CHR 0x22])) (Seq (Grp 4 (star (nocase (Cls (\<lambda>c. c \<noteq> CHR 0x22))))) (nocase (lit [CHR 0x22])))))))))))))))))))))))))"
  by (simp add: line_re_def lit_simps one_of_def)


lemma flag_eats:
  "eats (Alt (nocase (lit ''true'')) (nocase (lit ''false''))) a (answer_flag x) b c c"
proof (cases x)
  case (fields i k why)
  show ?thesis
  proof (cases k)
    case (Some k)
    then show ?thesis using fields by (simp add: eats_Alt1 eats_nocase_lit)
  next
    case None
    have f: "\<not> (lower_char CHR ''f'' = CHR ''t'' \<or> upper_char CHR ''f'' = CHR ''t'')" by code_simp
    have "re_at (nocase (lit ''true'')) (a @ ''false'' @ b) (length a, c) = []"
      unfolding lit_simps nocase.simps by (rule re_at_Seq_no) (use f in simp)
    then show ?thesis using None fields by (simp add: eats_Alt2 eats_nocase_lit)
  qed
qed

lemma nat_digits: "list_all py_digit (show_nat n)" "1 \<le> length (show_nat n)"
  using show_nat_digits [of n] by (auto simp: py_isdigit_def Suc_le_eq)

lemma nat_hd: "show_nat n @ y \<noteq> [] \<and> py_digit (hd (show_nat n @ y))"
  using nat_digits [of n] by (cases "show_nat n") auto

lemma digit_not: "py_digit c \<Longrightarrow> \<not> py_space c \<and> c \<noteq> CHR ''-''"
  by (auto simp: py_digit_def py_space_def Let_def)

lemma canonical_eats:
  assumes "b = [] \<or> \<not> py_digit (hd b)"
  shows "eats (Seq (opt (nocase (lit ''-''))) (plus (Cls py_digit))) a (answer_canonical x) b c c"
proof (cases x)
  case (fields i k why)
  have dash: "lower_char CHR ''-'' = CHR ''-''" "lower_char d = CHR ''-'' \<Longrightarrow> d = CHR ''-''"
    "upper_char d = CHR ''-'' \<Longrightarrow> d = CHR ''-''" for d
    by (auto simp: lower_char_def upper_char_def Let_def split: if_splits
        dest!: arg_cong [where f = "of_char :: char \<Rightarrow> nat"])
  show ?thesis
  proof (cases k)
    case None
    have "eats (Seq (opt (nocase (lit ''-''))) (plus (Cls py_digit))) a (''-'' @ ''1'') b c c"
      unfolding lit_simps nocase.simps
      by (rule eats_Seq, rule eats_times, simp add: dash(1), simp, simp, simp, rule eats_plus)
        (simp add: py_digit_def, simp, rule assms)
    then show ?thesis using None fields by simp
  next
    case (Some k)
    have "eats (Seq (opt (nocase (lit ''-''))) (plus (Cls py_digit))) a ([] @ show_nat k) b c c"
      unfolding lit_simps nocase.simps
      by (rule eats_Seq, rule eats_times, simp, simp, simp)
       (use nat_hd [of k b] dash(2,3) digit_not in blast, rule eats_plus, rule nat_digits, rule nat_digits, rule assms)
    then show ?thesis using Some fields by simp
  qed
qed

lemma sp [simp]: "\<not> py_space CHR ''=''" "\<not> py_space CHR ''i''" "\<not> py_space CHR ''c''" "\<not> py_space CHR ''r''"
  "\<not> py_space CHR ''t''" "\<not> py_space CHR ''f''" "\<not> py_space CHR ''-''" "\<not> py_space CHR 0x22" "py_space CHR '' ''"
  "\<not> py_digit CHR '' ''"
  by (simp_all add: py_space_def py_digit_def)

lemma canonical_hd: "answer_canonical x @ y \<noteq> [] \<and> \<not> py_space (hd (answer_canonical x @ y))"
proof (cases x)
  case (fields i k why)
  then show ?thesis using nat_hd [of _ y] digit_not by (cases k) auto
qed

lemma flag_hd: "answer_flag x @ y \<noteq> [] \<and> \<not> py_space (hd (answer_flag x @ y))"
  by (cases x rule: answer_flag.cases) (simp split: option.split)

lemma answer_eats:
  fixes x :: dedup_answer and a :: pystr
  assumes "quotable (snd (snd x))"
  defines "a1 \<equiv> (((a @ ''index'') @ []) @ ''='') @ []"
  defines "a2 \<equiv> (((((a1 @ show_nat (fst x)) @ '' '') @ ''is_duplicate'') @ []) @ ''='') @ []"
  defines "a3 \<equiv> (((((a2 @ answer_flag x) @ '' '') @ ''canonical'') @ []) @ ''='') @ []"
  defines "a4 \<equiv> ((((((a3 @ answer_canonical x) @ '' '') @ ''reasoning'') @ []) @ ''='') @ []) @ [CHR 0x22]"
  shows "eats line_re a (answer_line x) b []
    [(4, length a4, length a4 + length (snd (snd x))), (3, length a3, length a3 + length (answer_canonical x)),
     (2, length a2, length a2 + length (answer_flag x)), (1, length a1, length a1 + length (show_nat (fst x)))]"
proof -
  have w: "list_all (\<lambda>c. lower_char c \<noteq> CHR 0x22 \<or> upper_char c \<noteq> CHR 0x22) (snd (snd x))"
    using assms(1) by (auto simp: quotable_def list_all_iff lower_char_def upper_char_def Let_def)
  have q: "\<not> (lower_char CHR 0x22 \<noteq> CHR 0x22 \<or> upper_char CHR 0x22 \<noteq> CHR 0x22)" by code_simp
  have line: "answer_line x =
     ''index'' @ [] @ ''='' @ [] @ show_nat (fst x) @ '' '' @ ''is_duplicate'' @ [] @ ''='' @ [] @ answer_flag x @ '' '' @
     ''canonical'' @ [] @ ''='' @ [] @ answer_canonical x @ '' '' @ ''reasoning'' @ [] @ ''='' @ [] @
     [CHR 0x22] @ snd (snd x) @ [CHR 0x22]" by (simp add: answer_line_def)
  show ?thesis
    unfolding nocase_line_re line a1_def a2_def a3_def a4_def
    apply (rule eats_Seq, rule eats_nocase_lit, rule eats_Seq, rule eats_star, simp, simp)
    apply (rule eats_Seq, rule eats_nocase_lit, rule eats_Seq, rule eats_star, simp, use nat_hd digit_not in simp)
    apply (rule eats_Seq, rule eats_Grp, rule eats_plus, rule nat_digits, rule nat_digits, simp)
    apply (rule eats_Seq, rule eats_plus, simp, simp, simp)
    apply (rule eats_Seq, rule eats_nocase_lit, rule eats_Seq, rule eats_star, simp, simp)
    apply (rule eats_Seq, rule eats_nocase_lit, rule eats_Seq, rule eats_star, simp, use flag_hd in simp)
    apply (rule eats_Seq, rule eats_Grp, rule flag_eats)
    apply (rule eats_Seq, rule eats_plus, simp, simp, simp)
    apply (rule eats_Seq, rule eats_nocase_lit, rule eats_Seq, rule eats_star, simp, simp)
    apply (rule eats_Seq, rule eats_nocase_lit, rule eats_Seq, rule eats_star, simp, use canonical_hd in simp)
    apply (rule eats_Seq, rule eats_Grp, rule canonical_eats, simp)
    apply (rule eats_Seq, rule eats_plus, simp, simp, simp)
    apply (rule eats_Seq, rule eats_nocase_lit, rule eats_Seq, rule eats_star, simp, simp)
    apply (rule eats_Seq, rule eats_nocase_lit, rule eats_Seq, rule eats_star, simp, simp)
    apply (rule eats_Seq, rule eats_nocase_lit)
    apply (rule eats_Seq, rule eats_Grp, simp only: nocase.simps, rule eats_star, rule w, use q in simp)
    apply (rule eats_nocase_lit)
    done
qed

lemma answer_search:
  assumes "quotable (snd (snd x))"
  shows "\<exists>m. search_from line_re (a @ answer_line x @ b) (length a) = Some m \<and>
    m_start m = length a \<and> m_end m = length a + length (answer_line x) \<and>
    (let s = a @ answer_line x @ b in
     group_or s m 1 = show_nat (fst x) \<and> group_or s m 2 = answer_flag x \<and>
     group_or s m 3 = answer_canonical x \<and> group_or s m 4 = snd (snd x))"
proof -
  let ?s = "a @ answer_line x @ b"
  define a1 where "a1 = (((a @ ''index'') @ []) @ ''='') @ []"
  define a2 where "a2 = (((((a1 @ show_nat (fst x)) @ '' '') @ ''is_duplicate'') @ []) @ ''='') @ []"
  define a3 where "a3 = (((((a2 @ answer_flag x) @ '' '') @ ''canonical'') @ []) @ ''='') @ []"
  define a4 where "a4 = ((((((a3 @ answer_canonical x) @ '' '') @ ''reasoning'') @ []) @ ''='') @ []) @ [CHR 0x22]"
  note e = answer_eats [OF assms, of a b, folded a1_def, folded a2_def, folded a3_def, folded a4_def]
  have s4: "?s = a4 @ snd (snd x) @ [CHR 0x22] @ b" by (simp add: answer_line_def a1_def a2_def a3_def a4_def)
  have s3: "?s = a3 @ answer_canonical x @ '' '' @ ''reasoning'' @ ''='' @ [CHR 0x22] @ snd (snd x) @ [CHR 0x22] @ b"
    by (simp add: answer_line_def a1_def a2_def a3_def)
  have "\<exists>y. ?s = a2 @ answer_flag x @ y" unfolding s3 a3_def by (simp only: append_assoc) blast
  then obtain y2 where s2: "?s = a2 @ answer_flag x @ y2" by blast
  have "\<exists>y. ?s = a1 @ show_nat (fst x) @ y" unfolding s2 a2_def by (simp only: append_assoc) blast
  then obtain y1 where s1: "?s = a1 @ show_nat (fst x) @ y1" by blast
  have g: "group_or ?s \<lparr>m_start = i, m_end = j, m_caps = c\<rparr> k = w"
    if "map_of c k = Some (length p, length p + length w)" "?s = p @ w @ y" "k \<noteq> 0" for i j c k w p y
    unfolding that(2) using that(1,3) by (simp add: group_or_def group_def span_text_at)
  from eats_search [OF e] show ?thesis
    using g [OF _ s1] g [OF _ s2] g [OF _ s3] g [OF _ s4] by (simp add: Let_def)
qed

section \<open>The whole reply\<close>

definition answer_reply :: "dedup_answer list \<Rightarrow> pystr" where
  "answer_reply xs = concat (map (\<lambda>x. answer_line x @ [CHR 0x0A]) xs)"

text \<open>The answers that are acted on: a duplicate of an earlier finding of the \<open>n\<close> listed.\<close>

definition usable :: "nat \<Rightarrow> dedup_answer \<Rightarrow> (nat \<times> nat \<times> pystr) option" where
  "usable n x =
     (case fst (snd x) of
        None \<Rightarrow> None
      | Some k \<Rightarrow> if k < fst x \<and> fst x < n then Some (fst x, k, snd (snd x)) else None)"

definition read_answer :: "pystr \<Rightarrow> nat \<Rightarrow> re_match \<Rightarrow> (nat \<times> nat \<times> pystr) option" where
  "read_answer raw n m =
     (let idx = int (digits_val (group_or raw m 1)); is_dup = (py_lower (group_or raw m 2) = ''true'');
           canon = signed_val (group_or raw m 3); why = py_strip (group_or raw m 4)
       in if \<not> is_dup then None
          else if 0 \<le> canon \<and> canon < idx \<and> idx < int n then Some (nat idx, nat canon, why)
          else None)"

lemma parse_dedup_output_read: "parse_dedup_output raw n = List.map_filter (read_answer raw n) (finditer line_re raw)"
  by (simp add: parse_dedup_output_def read_answer_def [abs_def])

lemma read_answer_usable:
  assumes "quotable (snd (snd x))" "group_or s m 1 = show_nat (fst x)" "group_or s m 2 = answer_flag x"
    "group_or s m 3 = answer_canonical x" "group_or s m 4 = snd (snd x)"
  shows "read_answer s n m = usable n x"
proof -
  obtain i c why where x: "x = (i, c, why)" by (cases x)
  have v: "py_lower ''true'' = ''true''" "py_lower ''false'' \<noteq> ''true''" by code_simp+
  have d: "signed_val (show_nat k) = int k" for k
    using show_nat_digits [of k] nat_hd [of k "[]"] digit_not
    by (cases "show_nat k") (auto simp: signed_val_def)
  show ?thesis using assms show_nat_digits [of i] v d
    by (cases c) (auto simp: x read_answer_def usable_def quotable_def Let_def)
qed

lemma no_answer_at:
  assumes "b = [] \<or> hd b = CHR 0x0A"
  shows "re_at line_re (a @ b) (length a, []) = []"
proof -
  have n: "\<not> (lower_char CHR 0x0A = CHR ''i'' \<or> upper_char CHR 0x0A = CHR ''i'')" by code_simp
  have "re_at (nocase (lit ''index'')) (a @ b) (length a, []) = []"
    unfolding lit_simps nocase.simps by (rule re_at_Seq_no) (use assms n in auto)
  then show ?thesis unfolding nocase_line_re by (simp only: re_at.simps list.map concat.simps)
qed

lemma finditer_from_cong: "search_from r s i = search_from r s j \<Longrightarrow> finditer_from k r s i = finditer_from k r s j"
  by (cases k) simp_all

lemma finditer_answers:
  assumes "\<forall>x \<in> set xs. quotable (snd (snd x))" "length xs < k"
  shows "List.map_filter (read_answer (a @ answer_reply xs) n)
      (finditer_from k line_re (a @ answer_reply xs) (length a)) = List.map_filter (usable n) xs"
  using assms
proof (induction xs arbitrary: a k)
  case Nil
  then show ?case using search_end [OF no_answer_at [of "[]" a, simplified]]
    by (cases k) (simp_all add: answer_reply_def List.map_filter_def)
next
  case (Cons x xs)
  obtain k' where k: "k = Suc k'" using Cons.prems(2) by (cases k) auto
  let ?a' = "a @ answer_line x @ [CHR 0x0A]" and ?s = "a @ answer_line x @ [CHR 0x0A] @ answer_reply xs"
  have s: "a @ answer_reply (x # xs) = ?s" "?a' @ answer_reply xs = ?s" by (simp_all add: answer_reply_def)
  obtain m where m: "search_from line_re ?s (length a) = Some m" "m_start m = length a"
    "m_end m = length a + length (answer_line x)" "read_answer ?s n m = usable n x"
    using answer_search [of x a "[CHR 0x0A] @ answer_reply xs"] Cons.prems(1) read_answer_usable [of x ?s _ n]
    by (auto simp: Let_def)
  have "search_from line_re ?s (length (a @ answer_line x)) = search_from line_re ?s (length ?a')"
    using search_skip [of line_re "a @ answer_line x" "CHR 0x0A" "answer_reply xs"]
      no_answer_at [of "CHR 0x0A # answer_reply xs" "a @ answer_line x"] by simp
  then have "finditer_from k' line_re ?s (m_end m) = finditer_from k' line_re ?s (length ?a')"
    unfolding m(3) by (intro finditer_from_cong) simp
  moreover have "m_end m \<noteq> m_start m" using m(2,3) by (simp add: answer_line_def)
  ultimately have f: "finditer_from k line_re ?s (length a) = m # finditer_from k' line_re ?s (length ?a')"
    using m(1) k by simp
  have "List.map_filter (read_answer ?s n) (finditer_from k' line_re ?s (length ?a')) = List.map_filter (usable n) xs"
    using Cons.IH [of k' ?a'] Cons.prems k unfolding s(2) by simp
  then show ?case unfolding s(1) f using m(4) by (simp add: List.map_filter_def)
qed

lemma answer_reply_length: "length xs \<le> length (answer_reply xs)"
  by (induction xs) (auto simp: answer_reply_def)

lemma dedup_reply_read:
  assumes "\<forall>x \<in> set xs. quotable (snd (snd x))"
  shows "parse_dedup_output (answer_reply xs) n = List.map_filter (usable n) xs"
  using finditer_answers [OF assms, of "Suc (Suc (length (answer_reply xs)))" "[]" n] answer_reply_length [of xs]
  by (simp add: parse_dedup_output_read finditer_def del: finditer_from.simps)

text \<open>
  The reply the deduplication prompt asks for, one line per finding, is read back as exactly
  the duplicate pairs it states, in its order; a duplicate of itself or of a later finding, or
  of an index that was not listed, is left out.
\<close>

lemma dedup_reply_roundtrip:
  assumes "\<forall>x \<in> set xs. quotable (snd (snd x))"
  shows "parse_dedup_output (answer_reply xs) n = List.map_filter (usable n) xs"
  by (rule dedup_reply_read [OF assms])

lemma sample_quotable: "quotable ''same sink''"
  by (simp add: quotable_def py_strip_def py_lstrip_def py_rstrip_def py_space_def)

lemma dedup_reply_roundtrip_witness:
  "parse_dedup_output (answer_reply [(0, None, ''same sink''), (1, Some 0, ''same sink''), (2, Some 5, ''same sink'')]) 3 =
     [(1, 0, ''same sink'')]"
proof -
  let ?xs = "[(0, None, ''same sink''), (1, Some 0, ''same sink''), (2, Some 5, ''same sink'')] :: dedup_answer list"
  have "\<forall>x \<in> set ?xs. quotable (snd (snd x))" using sample_quotable by simp
  from dedup_reply_roundtrip [OF this, of 3] show ?thesis by (simp add: List.map_filter_def usable_def)
qed

end
