(* ===== verification/PipelineProps.thy ===== *)
theory PipelineProps
  imports Pipeline PrefilterProps VerifyProps ChainProps DedupReply
begin

text \<open>
  The stages together: no finding of the deep dive vanishes between it and the report, and the
  report's links to duplicates hold across the stages.
\<close>

section \<open>What each stage hands on\<close>

text \<open>An audit record of deduplication points to a canonical finding that stands for its own.\<close>

definition dup_links :: "finding list \<Rightarrow> finding list \<Rightarrow> dropped_finding \<Rightarrow> bool" where
  "dup_links verified canonical d \<longleftrightarrow>
     (\<exists>f \<in> set verified. \<exists>k < length canonical. \<exists>why.
        d = drop_record f DropDuplicate why (Some k) \<and> covers (canonical ! k) f)"

lemma drop_record_simps [simp]:
  "x_canonical_idx (drop_record f reason why k) = k" "x_reason (drop_record f reason why k) = reason"
  "x_file (drop_record f reason why k) = f_file f" "x_line (drop_record f reason why k) = f_line_start f"
  by (simp_all add: drop_record_def)

lemma dedup_run_links:
  assumes "dedup_run tol semantic ask verified = Some (canonical, dropped)" "d \<in> set dropped"
  shows "dup_links verified canonical d"
proof (cases "1 < length verified")
  case False
  then show ?thesis using assms by (simp add: dedup_run_def)
next
  case True
  let ?m = "dup_maps tol semantic ask verified" and ?n = "length verified"
  let ?fs = "attach_duplicates verified (fst ?m) (snd ?m)" and ?u = "unresolved_of (fst ?m) ?n"
  have c: "canonical = map (\<lambda>i. ?fs ! i) ?u"
    and d: "dropped = map (\<lambda>i. drop_record (?fs ! i) DropDuplicate (dict_get_or (snd ?m) i ''duplicate'')
      (dict_get (new_index_of (fst ?m) ?n) (root_seen (fst ?m) [] i))) (resolved_of (fst ?m) ?n)"
    using dedup_run_value [OF True, of tol semantic ask] assms(1) by simp_all
  then obtain i where i: "i < ?n" and di: "d = drop_record (?fs ! i) DropDuplicate
      (dict_get_or (snd ?m) i ''duplicate'') (dict_get (new_index_of (fst ?m) ?n) (root_seen (fst ?m) [] i))"
    using assms(2) by (auto simp: resolved_of_def)
  obtain k where k: "k < length ?u" "?u ! k = root_seen (fst ?m) [] i"
    "dict_get (new_index_of (fst ?m) ?n) (root_seen (fst ?m) [] i) = Some k"
    using merged.unresolved_index [OF i, of tol semantic ask] by blast
  have b: "bare (?fs ! i) = bare (verified ! i)"
  proof -
    have "same_bare ?fs verified" by (rule merged.attach_effect(1)) simp
    then show ?thesis using i by (simp add: same_bare_def)
  qed
  have "covers (canonical ! k) (verified ! i)"
    using merged.attach_covers [OF refl i, of tol semantic ask "snd ?m"] k(1,2) c by simp
  moreover have "d = drop_record (verified ! i) DropDuplicate (dict_get_or (snd ?m) i ''duplicate'') (Some k)"
    unfolding di k(3) by (rule bare_fields(7) [OF b])
  moreover have "k < length canonical" using k(1) c by simp
  ultimately show ?thesis unfolding dup_links_def using nth_mem [OF i] by blast
qed

lemma prefilter_run_no_links:
  assumes "prefilter_run fmt2 ask ctx cfg raw = Some (keep, dropped)" "d \<in> set dropped"
  shows "x_canonical_idx d = None"
proof -
  have gates: "x_canonical_idx x = None" if "x \<in> set (snd (run_gates g b fs))" for x g b fs
    using that by (auto simp: run_gates_filter drop_record_def)
  have dups: "x_canonical_idx x = None" if "x \<in> set (snd (dedup_prefilter tol fs))" for x tol fs
    using that by (auto simp: dedup_prefilter_def Let_def drop_record_def split: if_splits)
  show ?thesis using assms
    by (auto simp: prefilter_run_def Let_def case_prod_beta stale_record_def split: if_splits
        dest: gates dups)
qed

lemma verify_run_no_links:
  assumes "verify_run par min_conf agent order fs = Inr (v, dropped)" "d \<in> set dropped"
  shows "x_canonical_idx d = None"
proof -
  obtain i where "dropped_as min_conf agent fs i = Some d"
    using assms verify_run_buckets [OF assms(1)] in_map_filter by metis
  then show ?thesis by (cases "agent i (fs ! i)") (auto simp: dropped_as_def)
qed

lemma report_ok_counts:
  assumes "report_ok fs dropped r"
  shows "length (fr_findings r) = length fs \<and> length (fr_dropped r) = length dropped"
  using assms by (auto simp: report_ok_def laid_out_def)

section \<open>The scan\<close>

lemma scan_tail_stages:
  assumes "scan_tail fmt2 rep w ctx cfg raw = Inr r"
  obtains findings pre verified dropped canonical dups where
    "prefilter_run fmt2 (w_ask5 w) ctx (sc_prefilter cfg) raw = Some (findings, pre)"
    "verify_run (sc_parallel cfg) (sc_min_confidence cfg) (w_agent w) (w_order w (length findings)) findings =
       Inr (verified, dropped)"
    "dedup_run (pc_line_tolerance (sc_prefilter cfg)) (sc_semantic cfg) (w_ask7 w) verified =
       Some (canonical, dups)"
    "r = chain_run rep (w_chain w (enrich_findings (w_env w) canonical)) (enrich_findings (w_env w) canonical)
       (pre @ dropped @ dups) (int (length raw))"
proof -
  have v: "(case x of Inl e \<Rightarrow> Inl (ScanAborted e) | Inr r \<Rightarrow> Inr r) = Inr y \<longleftrightarrow> x = Inr y" for x y
    by (cases x) auto
  show thesis
    using assms unfolding scan_tail_def and_then_Inr or_raise_Inr v
    by (elim exE conjE, clarify) (simp only: prod.case and_then_Inr or_raise_Inr v, elim exE conjE, clarify,
        simp only: prod.case and_then_Inr or_raise_Inr v, elim exE conjE, clarify, rule that, auto)
qed

text \<open>
  C13.  From the gates to the report nothing is lost: the findings of the report and the audit
  records add up to the findings of the deep dive, whatever the models answered and in whatever
  order the verifiers finished.
\<close>

theorem scan_accounts:
  assumes "scan_tail fmt2 rep w ctx cfg raw = Inr r"
    and "\<And>n. mset (w_order w n) = mset [0..<n]"
  shows "length (fr_findings r) + length (fr_dropped r) = length raw \<and>
     fr_raw_findings_count r = int (length raw)"
proof -
  obtain findings pre verified dropped canonical dups where s:
    "prefilter_run fmt2 (w_ask5 w) ctx (sc_prefilter cfg) raw = Some (findings, pre)"
    "verify_run (sc_parallel cfg) (sc_min_confidence cfg) (w_agent w) (w_order w (length findings)) findings =
       Inr (verified, dropped)"
    "dedup_run (pc_line_tolerance (sc_prefilter cfg)) (sc_semantic cfg) (w_ask7 w) verified =
       Some (canonical, dups)"
    "r = chain_run rep (w_chain w (enrich_findings (w_env w) canonical)) (enrich_findings (w_env w) canonical)
       (pre @ dropped @ dups) (int (length raw))"
    by (rule scan_tail_stages [OF assms(1)])
  have 1: "length findings + length pre = length raw"
    using prefilter_run_thinned [of fmt2 "w_ask5 w" ctx "sc_prefilter cfg" raw] s(1)
      sum_length_filter_compl [of "admissible ctx (sc_prefilter cfg)" raw]
    by (auto simp: thinned_def)
  have "length (w_order w (length findings)) = length findings"
    using assms(2) [of "length findings"] by (metis diff_zero length_upt size_mset)
  then have 2: "length verified + length dropped = length findings"
    using verify_run_buckets [OF s(2)] buckets_length by metis
  have 3: "length canonical + length dups = length verified"
    using dedup_run_thinned [of "pc_line_tolerance (sc_prefilter cfg)" "sc_semantic cfg" "w_ask7 w" verified] s(3)
    by (auto simp: thinned_def)
  have "fr_raw_findings_count r = int (length raw)"
    unfolding s(4) by (auto simp: chain_run_def unranked_report_def hydrate_report_def Let_def split: sum.splits)
  moreover have "length (fr_findings r) = length canonical \<and>
      length (fr_dropped r) = length pre + length dropped + length dups"
    using report_ok_counts [OF chain_run_ok, of rep "w_chain w (enrich_findings (w_env w) canonical)"
        "enrich_findings (w_env w) canonical" "pre @ dropped @ dups" "int (length raw)"]
    unfolding s(4) by (simp add: enrich_findings_def)
  ultimately show ?thesis using 1 2 3 by linarith
qed

definition quiet_scan_world :: scan_world where
  "quiet_scan_world =
     \<lparr>w_ask5 = (\<lambda>_ _. None), w_agent = (\<lambda>_ _. AgentError ''offline''), w_order = (\<lambda>n. rev [0..<n]),
      w_ask7 = (\<lambda>_ _. None), w_chain = (\<lambda>_. CallFailed ''offline''),
      w_env = \<lparr>en_path_prefix = None, en_vsvs = (\<lambda>_. None), en_offensive = (\<lambda>_. (None, []))\<rparr>\<rparr>"

definition sample_scan :: scan_cfg where
  "sample_scan = \<lparr>sc_prefilter = sample_cfg, sc_parallel = 4, sc_min_confidence = 7, sc_semantic = True\<rparr>"

text \<open>Of the errors only the abort of the verification is possible.\<close>

lemma scan_tail_error:
  assumes "scan_tail fmt2 rep w ctx cfg raw = Inl e"
  shows "\<exists>a findings. e = ScanAborted a \<and>
    verify_run (sc_parallel cfg) (sc_min_confidence cfg) (w_agent w) (w_order w (length findings)) findings = Inl a"
proof -
  obtain findings pre rest where p: "prefilter_run fmt2 (w_ask5 w) ctx (sc_prefilter cfg) raw = Some (findings, pre)"
    using prefilter_run_thinned by blast
  show ?thesis
  proof (cases "verify_run (sc_parallel cfg) (sc_min_confidence cfg) (w_agent w) (w_order w (length findings)) findings")
    case (Inl a)
    then show ?thesis using assms p by (auto simp: scan_tail_def or_raise_def)
  next
    case (Inr vd)
    obtain verified dropped where vd: "vd = (verified, dropped)" by (cases vd)
    obtain canonical dups where "dedup_run (pc_line_tolerance (sc_prefilter cfg)) (sc_semantic cfg) (w_ask7 w) verified =
        Some (canonical, dups)" using dedup_run_thinned by blast
    then show ?thesis using assms p Inr vd by (simp add: scan_tail_def or_raise_def)
  qed
qed

lemma quiet_verify:
  "\<exists>v d. verify_run 4 7 (\<lambda>_ _. AgentError ''offline'') order fs = Inr (v, d)"
proof -
  have "\<exists>st'. verify_loop 4 7 (\<lambda>_ _. AgentError ''offline'') fs order st = Inr st'" for st
    by (induction order arbitrary: st) (auto simp: verify_step_def)
  then show ?thesis by (simp add: verify_run_def)
qed

lemma quiet_scan: "\<exists>r. scan_tail (\<lambda>_. []) (\<lambda>_. []) quiet_scan_world empty_ctx sample_scan raw = Inr r"
proof (cases "scan_tail (\<lambda>_. []) (\<lambda>_. []) quiet_scan_world empty_ctx sample_scan raw")
  case (Inl e)
  from scan_tail_error [OF Inl] obtain a findings where
    "verify_run 4 7 (\<lambda>_ _. AgentError ''offline'') (rev [0..<length findings]) findings = Inl a"
    by (auto simp: quiet_scan_world_def sample_scan_def)
  with quiet_verify [of "rev [0..<length findings]" findings] show ?thesis by simp
qed simp

lemma scan_accounts_witness:
  "\<exists>r. scan_tail (\<lambda>_. []) (\<lambda>_. []) quiet_scan_world empty_ctx sample_scan
       [plain_finding ''a.py'' 1 2 RACE, plain_finding ''tests/b.py'' 5 6 RACE] = Inr r \<and>
     length (fr_findings r) + length (fr_dropped r) = 2"
proof -
  obtain r where r: "scan_tail (\<lambda>_. []) (\<lambda>_. []) quiet_scan_world empty_ctx sample_scan
      [plain_finding ''a.py'' 1 2 RACE, plain_finding ''tests/b.py'' 5 6 RACE] = Inr r"
    using quiet_scan by blast
  have "mset (w_order quiet_scan_world n) = mset [0..<n]" for n by (simp add: quiet_scan_world_def)
  from scan_accounts [OF r this] r show ?thesis by auto
qed

text \<open>
  C14.  In the report of a scan, every audit record that names a canonical finding names a
  place of the report, and the finding there is the enriched form of one that stands for the
  duplicate: at its place, overlapping it, or listing its place.
\<close>

theorem scan_duplicates_resolve:
  assumes "scan_tail fmt2 rep w ctx cfg raw = Inr r"
    and "d \<in> set (fr_dropped r)" "x_canonical_idx d = Some k"
  shows "k < length (fr_findings r) \<and>
     (\<exists>c f. covers c f \<and> rk_finding (fr_findings r ! k) = enrich_finding (w_env w) c \<and>
        x_file d = f_file f \<and> x_line d = f_line_start f)"
proof -
  obtain findings pre verified dropped canonical dups where s:
    "prefilter_run fmt2 (w_ask5 w) ctx (sc_prefilter cfg) raw = Some (findings, pre)"
    "verify_run (sc_parallel cfg) (sc_min_confidence cfg) (w_agent w) (w_order w (length findings)) findings =
       Inr (verified, dropped)"
    "dedup_run (pc_line_tolerance (sc_prefilter cfg)) (sc_semantic cfg) (w_ask7 w) verified =
       Some (canonical, dups)"
    "r = chain_run rep (w_chain w (enrich_findings (w_env w) canonical)) (enrich_findings (w_env w) canonical)
       (pre @ dropped @ dups) (int (length raw))"
    by (rule scan_tail_stages [OF assms(1)])
  let ?fs = "enrich_findings (w_env w) canonical"
  obtain pos where pos: "laid_out ?fs (fr_findings r) pos" "fr_dropped r = map (remap_dropped pos) (pre @ dropped @ dups)"
    using chain_run_ok [of ?fs "pre @ dropped @ dups"] unfolding s(4) report_ok_def by blast
  then obtain d0 where d0: "d0 \<in> set (pre @ dropped @ dups)" "d = remap_dropped pos d0" using assms(2) by auto
  have "x_canonical_idx d0 \<noteq> None" using assms(3) d0(2) by (auto simp: remap_dropped_def split: option.splits if_splits)
  then have "d0 \<in> set dups"
    using d0(1) prefilter_run_no_links [OF s(1)] verify_run_no_links [OF s(2)] by auto
  then obtain f j why where f: "j < length canonical" "d0 = drop_record f DropDuplicate why (Some j)" "covers (canonical ! j) f"
    using dedup_run_links [OF s(3)] unfolding dup_links_def by blast
  have len: "length ?fs = length canonical" by (simp add: enrich_findings_def)
  have "dict_get pos j = Some (the (dict_get pos j))"
    using pos(1) f(1) len unfolding laid_out_def by (auto simp: set_eq_iff dom_def)
  then have d: "d = d0\<lparr>x_canonical_idx := dict_get pos j\<rparr>" "k = the (dict_get pos j)"
    using d0(2) f(2) assms(3) by (simp_all add: remap_dropped_def split: if_splits)
  have "k < length (fr_findings r)" "rk_finding (fr_findings r ! k) = ?fs ! j"
    using pos(1) f(1) len unfolding laid_out_def d(2) by auto
  moreover have "?fs ! j = enrich_finding (w_env w) (canonical ! j)" using f(1) by (simp add: enrich_findings_def)
  moreover have "x_file d = f_file f \<and> x_line d = f_line_start f" using f(2) d(1) by simp
  ultimately show ?thesis using f(3) by metis
qed

section \<open>A scan with a duplicate\<close>

definition dup_world :: scan_world where
  "dup_world = quiet_scan_world\<lparr>w_agent := (\<lambda>_ _. Reply good_reply), w_order := (\<lambda>n. [0..<n]),
     w_ask7 := (\<lambda>_ _. Some (answer_reply [(1, Some 0, ''same sink'')]))\<rparr>"

definition dup_scan :: scan_cfg where
  "dup_scan = \<lparr>sc_prefilter =
       \<lparr>pc_step5_prefilter = Some \<lparr>gs_min_pre_confidence = None, gs_require_evidence = None,
          gs_ast_backfill_evidence = Some False\<rparr>,
        pc_step6_verify = None, pc_line_tolerance = 10, pc_pre_verify_threshold = 0, pc_semantic = True\<rparr>,
     sc_parallel = 4, sc_min_confidence = 7, sc_semantic = True\<rparr>"

abbreviation dup_raw :: "finding list" where
  "dup_raw \<equiv> [plain_finding ''a.c'' 10 12 RACE, plain_finding ''a.c'' 100 102 RACE]"

abbreviation dup_verified :: "finding list" where
  "dup_verified \<equiv> map (\<lambda>f. verified_finding f good_reply) dup_raw"

lemma dup_prefilter:
  "prefilter_run (\<lambda>_. []) ask empty_ctx (sc_prefilter dup_scan) dup_raw = Some (dup_raw, [])"
proof -
  have p: "\<not> re_search exclude_path_re ''a.c''" by code_simp
  have "run_gates (prefilter_gates (\<lambda>_. []) empty_ctx (sc_prefilter dup_scan)) (backfill_of empty_ctx (sc_prefilter dup_scan))
      dup_raw = (dup_raw, [])"
    using p by (simp add: prefilter_gates_def gate_drop_def backfill_of_def gate_value_def dup_scan_def empty_ctx_def
        plain_finding_def Let_def)
  moreover have "collapse_trivial 10 dup_raw = []"
    by (simp add: collapse_trivial_def collapse_one_def same_bug_def ranges_overlap_def plain_finding_def)
  then have "dedup_prefilter 10 dup_raw = (dup_raw, [])"
    by (simp add: dedup_prefilter_def attach_duplicates_def unresolved_of_def resolved_of_def fromkeys_def Let_def)
  ultimately show ?thesis by (simp add: prefilter_run_def dup_scan_def)
qed

lemma dup_verify:
  "verify_run 4 7 (\<lambda>_ _. Reply good_reply) [0..<2] dup_raw = Inr (dup_verified, [])"
  by (simp add: verify_run_def verify_step_def good_reply_confirms Let_def numeral_2_eq_2)

lemma dup_semantic:
  "fst (dup_maps 10 True (w_ask7 dup_world) dup_verified) = [(1, 0)]"
proof -
  have c: "collapse_trivial 10 dup_verified = []"
    by (simp add: collapse_trivial_def collapse_one_def same_bug_def ranges_overlap_def plain_finding_def
        verified_finding_def Let_def numeral_2_eq_2)
  have "parse_dedup_output (answer_reply [(1, Some 0, ''same sink'')]) 2 = [(1, 0, ''same sink'')]"
    using dedup_reply_read [of "[(1, Some 0, ''same sink'')]" 2] sample_quotable
    by (simp add: List.map_filter_def usable_def)
  then show ?thesis unfolding dup_maps_def c Let_def
    by (simp add: unresolved_of_def semantic_dedup_def dup_world_def numeral_2_eq_2)
qed

lemma dup_dedup:
  "\<exists>canonical d k. dedup_run 10 True (w_ask7 dup_world) dup_verified = Some (canonical, [d]) \<and>
     k < length canonical \<and> x_canonical_idx d = Some k \<and> x_reason d = DropDuplicate"
proof -
  let ?v = "dup_verified" and ?m = "dup_maps 10 True (w_ask7 dup_world) dup_verified"
  have n: "1 < length ?v" "length ?v = 2" by simp_all
  have r: "resolved_of (fst ?m) (length ?v) = [1]" unfolding dup_semantic n(2) by (simp add: resolved_of_def numeral_2_eq_2)
  obtain k where k: "k < length (unresolved_of (fst ?m) (length ?v))"
    "dict_get (new_index_of (fst ?m) (length ?v)) (root_seen (fst ?m) [] 1) = Some k"
    using merged.unresolved_index [of 1 ?v 10 True "w_ask7 dup_world"] n by auto
  show ?thesis
    using dedup_run_value [OF n(1), of 10 True "w_ask7 dup_world", unfolded r] k by simp
qed

lemma scan_duplicates_resolve_witness:
  "\<exists>r d k. scan_tail (\<lambda>_. []) (\<lambda>_. []) dup_world empty_ctx dup_scan dup_raw = Inr r \<and> d \<in> set (fr_dropped r) \<and>
     x_canonical_idx d = Some k \<and> k < length (fr_findings r)"
proof -
  obtain canonical d k where d: "dedup_run 10 True (w_ask7 dup_world) dup_verified = Some (canonical, [d])"
    "k < length canonical" "x_canonical_idx d = Some k" "x_reason d = DropDuplicate"
    using dup_dedup by blast
  let ?fs = "enrich_findings (w_env dup_world) canonical"
  let ?r = "chain_run (\<lambda>_. []) (w_chain dup_world ?fs) ?fs ([] @ [] @ [d]) (int (length dup_raw))"
  have len: "length ?fs = length canonical" by (simp add: enrich_findings_def)
  have v: "verify_run 4 7 (w_agent dup_world) (w_order dup_world (length dup_raw)) dup_raw = Inr (dup_verified, [])"
    using dup_verify by (simp add: dup_world_def numeral_2_eq_2)
  have s: "pc_line_tolerance (sc_prefilter dup_scan) = 10" "sc_semantic dup_scan" "sc_parallel dup_scan = 4"
    "sc_min_confidence dup_scan = 7" by (simp_all add: dup_scan_def)
  have scan: "scan_tail (\<lambda>_. []) (\<lambda>_. []) dup_world empty_ctx dup_scan dup_raw = Inr ?r"
    unfolding scan_tail_def dup_prefilter s by (simp only: or_raise_def option.case and_then_def prod.case v d(1) s sum.case simp_thms)
  obtain pos where pos: "laid_out ?fs (fr_findings ?r) pos" "fr_dropped ?r = [remap_dropped pos d]"
    using chain_run_ok [of ?fs "[] @ [] @ [d]" "\<lambda>_. []" "w_chain dup_world ?fs" "int (length dup_raw)"]
    unfolding report_ok_def by auto
  have "k \<in> dom (dict_get pos)" using pos(1) d(2) len by (simp add: laid_out_def)
  then obtain k' where "dict_get pos k = Some k'" by blast
  then have "x_canonical_idx (remap_dropped pos d) = Some k'" using d(3,4) by (simp add: remap_dropped_def)
  moreover have "remap_dropped pos d \<in> set (fr_dropped ?r)" using pos(2) by simp
  ultimately show ?thesis using scan scan_duplicates_resolve [OF scan] by blast
qed

end
