(* ===== verification/DeepDive.thy ===== *)
theory DeepDive
  imports Findings PyVal PyText Regex
begin

text \<open>
  Step 4, the deep dive (\<open>pipeline/stages/s4_deepdive.py\<close>): how many runs a chunk gets, reading
  the findings of one run, the vote across runs, the chunks of a scan serially and in
  parallel, and the collapse across chunks.  The prompt, the model call and pydantic's
  validation of an item are parameters; so are the order in which a Python set of keys is
  walked and the order in which parallel chunks finish.
\<close>

section \<open>Chunks and configuration\<close>

datatype chunk_size = SMALL | MEDIUM | LARGE

record chunk =
  c_id :: pystr
  c_size :: chunk_size
  c_risk_rank :: int
  c_files :: "pystr list"
  c_focus_entry_points :: "pystr list"
  c_hypothesis :: pystr
  c_specialist :: "pystr option"
  c_path_funcs :: "pystr list"
  c_source_ref :: pystr
  c_sink_ref :: pystr

text \<open>\<open>None\<close> is an option that the configuration does not set.\<close>

record step4_cfg =
  s4_runs :: int
  s4_vote_threshold :: int
  s4_parallel :: int
  s4_line_bucket :: int
  s4_specialist_runs :: "int option"
  s4_taint_runs :: "int option"
  s4_max_findings_per_run :: "int option"

text \<open>A model is named by a string, or by a node with an id, a backend and a temperature.\<close>

datatype model_cfg = ModelName pystr | ModelNode "pystr option" "pystr option" "rat option"

datatype model_error = NoModelId

definition resolve_model :: "model_cfg \<Rightarrow> model_error + pystr \<times> pystr \<times> rat option" where
  "resolve_model m =
     (case m of
        ModelName s \<Rightarrow> Inr (s, ''cli'', None)
      | ModelNode mid via temp \<Rightarrow>
          (case mid of
             None \<Rightarrow> Inl NoModelId
           | Some i \<Rightarrow> Inr (i, (case via of None \<Rightarrow> ''cli'' | Some v \<Rightarrow> if v = [] then ''cli'' else v), temp)))"

text \<open>\<open>opus-4[-.]?([7-9]|\d{2,})|opus-[5-9]|sonnet-[5-9]|haiku-[5-9]\<close>, ignoring case.\<close>

definition no_temp_re :: re where
  "no_temp_re = nocase (alts [
     seqs [lit ''opus-4'', opt (Cls (one_of ''-.'')), Grp 1 (Alt (Cls (one_of ''789'')) (at_least 2 (Cls py_digit)))],
     Seq (lit ''opus-'') (Cls (one_of ''56789'')),
     Seq (lit ''sonnet-'') (Cls (one_of ''56789'')),
     Seq (lit ''haiku-'') (Cls (one_of ''56789''))])"

text \<open>\<open>learned\<close> is the set of models that have refused a temperature so far.\<close>

definition supports_temperature :: "pystr list \<Rightarrow> pystr \<Rightarrow> bool" where
  "supports_temperature learned model \<longleftrightarrow> model \<notin> set learned \<and> \<not> re_search no_temp_re model"

definition effective_runs :: "pystr list \<Rightarrow> step4_cfg \<Rightarrow> model_cfg \<Rightarrow> model_error + int \<times> int" where
  "effective_runs learned cfg model =
     (let runs = s4_runs cfg; threshold = s4_vote_threshold cfg
      in if runs < 1 then Inr (1, 1)
         else and_then (resolve_model model) (\<lambda>(model_id, via, extras).
           if via = ''cli'' \<and> 1 < runs then Inr (1, 1)
           else if via = ''sdk'' \<and> 1 < runs \<and> \<not> supports_temperature learned model_id then Inr (1, 1)
           else
             let threshold = (if runs < threshold then runs else threshold)
             in Inr (runs, if threshold < 1 then 1 else threshold)))"

text \<open>What a chunk makes of it: a specialist and a taint chunk may have their own number.\<close>

definition chunk_runs :: "step4_cfg \<Rightarrow> chunk \<Rightarrow> int \<Rightarrow> int \<Rightarrow> int \<times> int" where
  "chunk_runs cfg c runs_n threshold =
     (if c_specialist c \<noteq> None \<and> c_specialist c \<noteq> Some []
      then (max 1 (case s4_specialist_runs cfg of None \<Rightarrow> 1 | Some n \<Rightarrow> if n = 0 then 1 else n), 1)
      else if c_path_funcs c \<noteq> []
      then (case s4_taint_runs cfg of
              None \<Rightarrow> (runs_n, threshold)
            | Some n \<Rightarrow>
                if n = 0 then (runs_n, threshold)
                else let r = max 1 n in (r, if min threshold r = 0 then 1 else min threshold r))
      else (runs_n, threshold))"

section \<open>One run\<close>

text \<open>The exceptions that matter: the guardrail's, and every other one.\<close>

datatype run_raise = GuardrailBlockedExc | OtherExc

definition vuln_class_names :: "pystr list" where
  "vuln_class_names = [''use-after-free'', ''heap-overflow'', ''stack-overflow'', ''format-string'', ''integer-overflow'',
     ''type-confusion'', ''race-condition'', ''injection'', ''unsafe-deserialization'', ''logic-flaw'', ''info-leak'',
     ''other'']"

text \<open>\<open>\bCWE[-\s]?(\d{1,5})\b\<close>, ignoring case.\<close>

definition cwe_re :: re where
  "cwe_re = nocase (seqs [Wordb, lit ''CWE'', opt (Cls (\<lambda>c. c = CHR ''-'' \<or> py_space c)),
     Grp 1 (times_re 1 5 (Cls py_digit)), Wordb])"

definition cwe_of :: "pystr \<Rightarrow> pyval" where
  "cwe_of raw =
     (case search_from cwe_re raw 0 of
        Some m \<Rightarrow> PStr (''CWE-'' @ group_or raw m 1)
      | None \<Rightarrow> PNone)"

text \<open>
  What is set right in an item before it is validated.  Testing membership in the set of
  class names raises on a value that cannot be hashed, which ends the run.
\<close>

definition fix_item :: "(pyval \<Rightarrow> pystr) \<Rightarrow> pystr \<Rightarrow> pymap \<Rightarrow> run_raise + pymap" where
  "fix_item rep chunk_id item =
     (let item = dict_setdefault ''chunk_id'' (PStr chunk_id) item;
          vc = dict_get_or item ''vuln_class'' (PStr ''other'')
      in case hash_key vc of
           None \<Rightarrow> Inl OtherExc
         | Some v \<Rightarrow>
             let item = (if v \<in> PStr ` set vuln_class_names then item
                         else dict_set ''vuln_class'' (PStr ''other'') item);
                 cwe_raw = py_strip (py_str rep (py_or (py_get item ''cwe'') (PStr [])))
             in Inr (dict_set ''cwe'' (cwe_of cwe_raw) item))"

text \<open>Items that are no objects, and those that do not validate, are left out.\<close>

fun read_items ::
    "(pyval \<Rightarrow> pystr) \<Rightarrow> (pymap \<Rightarrow> finding option) \<Rightarrow> pystr \<Rightarrow> pyval list \<Rightarrow> run_raise + finding list" where
  "read_items rep validate chunk_id [] = Inr []"
| "read_items rep validate chunk_id (v # vs) =
     (case v of
        PDict item \<Rightarrow>
          and_then (fix_item rep chunk_id item) (\<lambda>item.
          and_then (read_items rep validate chunk_id vs) (\<lambda>fs.
            Inr (case validate item of Some f \<Rightarrow> f # fs | None \<Rightarrow> fs)))
      | _ \<Rightarrow> read_items rep validate chunk_id vs)"

definition raw_items :: "pyval \<Rightarrow> pyval list" where
  "raw_items data =
     (case (case data of PDict m \<Rightarrow> dict_get_or m ''findings'' (PList []) | _ \<Rightarrow> data) of
        PList vs \<Rightarrow> vs | _ \<Rightarrow> [])"

text \<open>\<open>xs[:n]\<close>.\<close>

definition py_take :: "int \<Rightarrow> 'a list \<Rightarrow> 'a list" where
  "py_take n xs = (if 0 \<le> n then take (nat n) xs else take (length xs - nat (- n)) xs)"

definition cap_findings :: "step4_cfg \<Rightarrow> finding list \<Rightarrow> finding list" where
  "cap_findings cfg fs =
     (case s4_max_findings_per_run cfg of
        None \<Rightarrow> fs
      | Some cap \<Rightarrow>
          if cap \<noteq> 0 \<and> cap < int (length fs) then py_take cap (sort_desc f_confidence fs) else fs)"

text \<open>\<open>reply\<close> is what the prompt and the extraction of JSON from its answer give.\<close>

definition single_run ::
    "(pyval \<Rightarrow> pystr) \<Rightarrow> (pymap \<Rightarrow> finding option) \<Rightarrow> step4_cfg \<Rightarrow> chunk \<Rightarrow> run_raise + pyval \<Rightarrow>
     run_raise + finding list" where
  "single_run rep validate cfg c reply =
     and_then reply (\<lambda>data.
     and_then (read_items rep validate (c_id c) (raw_items data)) (\<lambda>fs. Inr (cap_findings cfg fs)))"

section \<open>The vote\<close>

type_synonym key = "pystr \<times> int \<times> vuln_class"

text \<open>
  One run's findings enter the best finding per key; \<open>bucket\<close> is not 0, else the key raises.
\<close>

definition note_finding :: "int \<Rightarrow> finding \<Rightarrow> (key, finding) pydict \<Rightarrow> (key, finding) pydict" where
  "note_finding bucket f best =
     (case dict_get best (canonical_key bucket f) of
        None \<Rightarrow> dict_set (canonical_key bucket f) f best
      | Some prev \<Rightarrow>
          if f_confidence prev < f_confidence f then dict_set (canonical_key bucket f) f best else best)"

record vote_state =
  vt_runs :: "key list list"          \<comment> \<open>the keys of each run, without repetition\<close>
  vt_by_key :: "(key, finding) pydict"
  vt_runs_ok :: nat

definition vote_run ::
    "int \<Rightarrow> run_raise + finding list \<Rightarrow> vote_state \<Rightarrow> run_raise + vote_state" where
  "vote_run bucket outcome st =
     (case outcome of
        Inl _ \<Rightarrow> Inr (st\<lparr>vt_runs := vt_runs st @ [[]]\<rparr>)
      | Inr fs \<Rightarrow>
          if bucket = 0 \<and> fs \<noteq> [] then Inl OtherExc
          else Inr \<lparr>vt_runs = vt_runs st @ [fromkeys (map (canonical_key bucket) fs)],
                   vt_by_key = fold (note_finding bucket) fs (vt_by_key st),
                   vt_runs_ok = Suc (vt_runs_ok st)\<rparr>)"

fun vote_runs :: "int \<Rightarrow> (run_raise + finding list) list \<Rightarrow> vote_state \<Rightarrow> run_raise + vote_state" where
  "vote_runs bucket [] st = Inr st"
| "vote_runs bucket (r # rs) st = and_then (vote_run bucket r st) (vote_runs bucket rs)"

text \<open>\<open>Counter\<close>: how many runs have the key; \<open>walk\<close> is the order a set of keys is walked in.\<close>

definition count_key :: "key \<Rightarrow> (key, int) pydict \<Rightarrow> (key, int) pydict" where
  "count_key k d = dict_set k (dict_get_or d k 0 + 1) d"

definition count_votes :: "(key list \<Rightarrow> key list) \<Rightarrow> key list list \<Rightarrow> (key, int) pydict" where
  "count_votes walk runs = fold count_key (concat (map walk runs)) []"

definition survivors :: "int \<Rightarrow> (key, finding) pydict \<Rightarrow> (key, int) pydict \<Rightarrow> finding list" where
  "survivors threshold by_key votes =
     List.map_filter (\<lambda>(k, n).
         if threshold \<le> n then map_option (\<lambda>f. f\<lparr>f_votes := n\<rparr>) (dict_get by_key k) else None) votes"

text \<open>
  What the outside does for a chunk: the code shown to the model (or what loading it raised),
  the replies of the runs, and the walks of the sets.
\<close>

record dive_world =
  dv_code :: "chunk \<Rightarrow> run_raise + pystr"
  dv_reply :: "chunk \<Rightarrow> pystr \<Rightarrow> nat \<Rightarrow> run_raise + pyval"
  dv_validate :: "pymap \<Rightarrow> finding option"
  dv_walk :: "key list \<Rightarrow> key list"

text \<open>
  Each run catches every exception, the guardrail's too; only a chunk with no successful run
  raises, and that is a plain \<open>RuntimeError\<close>.
\<close>

definition deepdive_chunk ::
    "(pyval \<Rightarrow> pystr) \<Rightarrow> dive_world \<Rightarrow> step4_cfg \<Rightarrow> int \<Rightarrow> int \<Rightarrow> chunk \<Rightarrow> run_raise + finding list" where
  "deepdive_chunk rep w cfg runs_n threshold c =
     and_then (dv_code w c) (\<lambda>code.
     let (n, t) = chunk_runs cfg c runs_n threshold;
         outcomes = map (\<lambda>i. single_run rep (dv_validate w) cfg c (dv_reply w c code i)) [0..<nat n]
     in and_then (vote_runs (s4_line_bucket cfg) outcomes \<lparr>vt_runs = [], vt_by_key = [], vt_runs_ok = 0\<rparr>)
          (\<lambda>st. if 0 < n \<and> vt_runs_ok st = 0 then Inl OtherExc
                else Inr (survivors t (vt_by_key st) (count_votes (dv_walk w) (vt_runs st)))))"

section \<open>All chunks\<close>

text \<open>The collapse across chunks.\<close>

definition collapse_across_chunks :: "int \<Rightarrow> finding list \<Rightarrow> finding list" where
  "collapse_across_chunks bucket fs = map snd (fold (note_finding bucket) fs [])"

datatype chunk_outcome = Completed | Errored | Blocked

datatype dive_abort = GuardrailLimit int | DiveModelError model_error | DiveZeroBucket

text \<open>What the collapse does when the bucket is 0: taking a key raises.\<close>

definition collapse_run :: "int \<Rightarrow> finding list \<Rightarrow> dive_abort + finding list" where
  "collapse_run bucket fs =
     (if bucket = 0 \<and> fs \<noteq> [] then Inl DiveZeroBucket else Inr (collapse_across_chunks bucket fs))"

record dive_state =
  ds_results :: "(pystr, finding list) pydict"
  ds_all :: "finding list"
  ds_outcomes :: "(pystr, chunk_outcome) pydict"
  ds_hits :: int
  ds_successes :: nat

text \<open>
  The body of either loop once the chunk has finished with \<open>r\<close>.  The serial loop extends one
  list; the parallel one files the findings under the chunk's id.
\<close>

definition dive_step :: "int \<Rightarrow> chunk \<Rightarrow> run_raise + finding list \<Rightarrow> dive_state \<Rightarrow> dive_abort + dive_state" where
  "dive_step par c r st =
     (case r of
        Inl GuardrailBlockedExc \<Rightarrow>
          let hits = ds_hits st + 1;
              st1 = st\<lparr>ds_results := dict_set (c_id c) [] (ds_results st),
                      ds_outcomes := dict_set (c_id c) Blocked (ds_outcomes st), ds_hits := hits\<rparr>
          in if max 3 par \<le> hits \<and> ds_successes st = 0 then Inl (GuardrailLimit hits) else Inr st1
      | Inl OtherExc \<Rightarrow>
          Inr (st\<lparr>ds_results := dict_set (c_id c) [] (ds_results st),
                  ds_outcomes := dict_set (c_id c) Errored (ds_outcomes st)\<rparr>)
      | Inr fs \<Rightarrow>
          Inr (st\<lparr>ds_results := dict_set (c_id c) fs (ds_results st), ds_all := ds_all st @ fs,
                  ds_outcomes := dict_set (c_id c) Completed (ds_outcomes st),
                  ds_successes := Suc (ds_successes st)\<rparr>))"

fun dive_loop :: "int \<Rightarrow> (chunk \<Rightarrow> run_raise + finding list) \<Rightarrow> chunk list \<Rightarrow> dive_state \<Rightarrow> dive_abort + dive_state" where
  "dive_loop par work [] st = Inr st"
| "dive_loop par work (c # cs) st = and_then (dive_step par c (work c) st) (dive_loop par work cs)"

definition dive_start :: dive_state where
  "dive_start = \<lparr>ds_results = [], ds_all = [], ds_outcomes = [], ds_hits = 0, ds_successes = 0\<rparr>"

text \<open>\<open>finish\<close> is the order in which parallel chunks finish.\<close>

definition deepdive_run ::
    "(pyval \<Rightarrow> pystr) \<Rightarrow> dive_world \<Rightarrow> pystr list \<Rightarrow> model_cfg \<Rightarrow> step4_cfg \<Rightarrow> (chunk list \<Rightarrow> chunk list) \<Rightarrow>
     chunk list \<Rightarrow> dive_abort + finding list \<times> (pystr, chunk_outcome) pydict" where
  "deepdive_run rep w learned model cfg finish manifest_chunks =
     (let chunks = sort_key c_risk_rank manifest_chunks; par = s4_parallel cfg
      in case effective_runs learned cfg model of
           Inl e \<Rightarrow> Inl (DiveModelError e)
         | Inr (runs_n, threshold) \<Rightarrow>
             let work = deepdive_chunk rep w cfg runs_n threshold
             in if par \<le> 1
                then and_then (dive_loop par work chunks dive_start) (\<lambda>st.
                     and_then (collapse_run (s4_line_bucket cfg) (ds_all st)) (\<lambda>fs. Inr (fs, ds_outcomes st)))
                else and_then (dive_loop par work (finish chunks) dive_start) (\<lambda>st.
                     and_then (collapse_run (s4_line_bucket cfg)
                         (concat (map (\<lambda>c. dict_get_or (ds_results st) (c_id c) []) chunks)))
                       (\<lambda>fs. Inr (fs, ds_outcomes st))))"

end
