(* ===== verification/DeepDiveProps.thy ===== *)
theory DeepDiveProps
  imports DeepDive "HOL-Library.Multiset"
begin

text \<open>
  The vote counts what it says it counts, its threshold can always be reached, the order in
  which parallel chunks finish does not matter while their ids differ, and a guardrail block
  never reaches the loop that watches for it.
\<close>

section \<open>The best finding per key\<close>

definition best_ok :: "int \<Rightarrow> finding set \<Rightarrow> (key, finding) pydict \<Rightarrow> bool" where
  "best_ok b S d \<longleftrightarrow> wf_dict d \<and>
     (\<forall>k f. dict_get d k = Some f \<longrightarrow> f \<in> S \<and> canonical_key b f = k) \<and>
     (\<forall>g \<in> S. \<exists>f. dict_get d (canonical_key b g) = Some f \<and> f_confidence g \<le> f_confidence f)"

lemma best_ok_at: "best_ok b S d \<Longrightarrow> dict_get d k = Some f \<Longrightarrow> f \<in> S \<and> canonical_key b f = k"
  unfolding best_ok_def by blast

lemma best_ok_Nil: "best_ok b {} []"
  by (simp add: best_ok_def)

lemma best_ok_note:
  assumes "best_ok b S d"
  shows "best_ok b (insert g S) (note_finding b g d)"
proof (cases "dict_get d (canonical_key b g)")
  case None
  then show ?thesis using assms by (auto simp: best_ok_def note_finding_def dict_get_set wf_dict_set)
next
  case (Some f)
  have k: "canonical_key b f = canonical_key b g" "f \<in> S" using best_ok_at [OF assms Some] by simp_all
  show ?thesis
  proof (cases "f_confidence f < f_confidence g")
    case True
    have "\<exists>f'. dict_get (dict_set (canonical_key b g) g d) (canonical_key b h) = Some f' \<and>
        f_confidence h \<le> f_confidence f'" if "h \<in> S" for h
    proof (cases "canonical_key b h = canonical_key b g")
      case same: True
      have "f_confidence h \<le> f_confidence f" using assms Some that same by (auto simp: best_ok_def)
      then show ?thesis using True same by (simp add: dict_get_set)
    next
      case False
      then show ?thesis using assms that by (auto simp: best_ok_def dict_get_set)
    qed
    then show ?thesis using assms Some True
      by (auto simp: best_ok_def note_finding_def dict_get_set wf_dict_set)
  next
    case False
    then show ?thesis using assms Some by (auto simp: best_ok_def note_finding_def)
  qed
qed

lemma best_ok_fold: "best_ok b S d \<Longrightarrow> best_ok b (S \<union> set fs) (fold (note_finding b) fs d)"
proof (induction fs arbitrary: S d)
  case (Cons g fs)
  from Cons.IH [OF best_ok_note [OF Cons.prems, of g]] show ?case by simp
qed simp

lemma best_dom: "best_ok b S d \<Longrightarrow> fst ` set d = canonical_key b ` S"
  unfolding best_ok_def by (force simp: dom_map_of_conv_image_fst [symmetric] dom_def)

lemma collapse_across_chunks_value:
  fixes fs b
  defines "r \<equiv> collapse_across_chunks b fs"
  shows "distinct (map (canonical_key b) r)" "set r \<subseteq> set fs"
    "g \<in> set fs \<Longrightarrow> \<exists>f \<in> set r. canonical_key b f = canonical_key b g \<and> f_confidence g \<le> f_confidence f"
proof -
  let ?d = "fold (note_finding b) fs []"
  have ok: "best_ok b (set fs) ?d" using best_ok_fold [OF best_ok_Nil, of b fs] by simp
  then have wf: "wf_dict ?d" by (simp add: best_ok_def)
  have at: "canonical_key b f = k \<and> f \<in> set fs" if "(k, f) \<in> set ?d" for k f
    using best_ok_at [OF ok] that wf_dict_get [OF wf] by blast
  have "map (canonical_key b) r = map fst ?d"
    unfolding r_def collapse_across_chunks_def map_map by (rule map_cong) (use at in auto)
  then show "distinct (map (canonical_key b) r)" using wf by (simp add: wf_dict_def)
  show "set r \<subseteq> set fs" using at by (auto simp: r_def collapse_across_chunks_def)
  assume "g \<in> set fs"
  then obtain f where f: "dict_get ?d (canonical_key b g) = Some f" "f_confidence g \<le> f_confidence f"
    using ok by (auto simp: best_ok_def)
  then have "(canonical_key b g, f) \<in> set ?d" using wf_dict_get [OF wf] by blast
  then have "f \<in> set r" "canonical_key b f = canonical_key b g"
    using at [of "canonical_key b g" f] by (force simp: r_def collapse_across_chunks_def, simp)
  then show "\<exists>f \<in> set r. canonical_key b f = canonical_key b g \<and> f_confidence g \<le> f_confidence f"
    using f(2) by blast
qed

section \<open>Counting votes\<close>

lemma count_key_fold:
  "dict_get (fold count_key ks d) k =
     (if k \<in> set ks then Some (dict_get_or d k 0 + int (count_list ks k)) else dict_get d k)"
proof (induction ks arbitrary: d)
  case (Cons x ks)
  show ?case unfolding fold_Cons comp_def Cons.IH
    by (auto simp: count_key_def dict_get_set dict_get_or_def split: option.splits)
qed simp

lemma wf_count: "wf_dict d \<Longrightarrow> wf_dict (fold count_key ks d)"
  by (induction ks arbitrary: d) (simp_all add: count_key_def wf_dict_set)

lemma count_distinct: "distinct xs \<Longrightarrow> count_list xs k = (if k \<in> set xs then 1 else 0)"
  by (induction xs) auto

lemma count_walk:
  assumes "\<And>ks. mset (walk ks) = mset ks" "\<forall>r \<in> set runs. distinct r"
  shows "count_list (concat (map walk runs)) k = length (filter (\<lambda>r. k \<in> set r) runs)"
proof -
  have "count_list (walk r) k = count_list r k" for r using assms(1) by (metis count_mset)
  with assms(2) show ?thesis by (induction runs) (auto simp: count_distinct)
qed

lemma count_votes_value:
  assumes "\<And>ks. mset (walk ks) = mset ks" "\<forall>r \<in> set runs. distinct r"
  shows "dict_get (count_votes walk runs) k =
     (let n = length (filter (\<lambda>r. k \<in> set r) runs) in if n = 0 then None else Some (int n))"
proof -
  have "k \<in> set (concat (map walk runs)) \<longleftrightarrow> count_list (concat (map walk runs)) k \<noteq> 0"
    by (metis count_list_0_iff)
  then show ?thesis unfolding count_votes_def count_key_fold count_walk [OF assms, of k]
    by (simp add: dict_get_or_def Let_def)
qed

section \<open>The runs of a chunk\<close>

text \<open>The findings of a run, none for one that failed.\<close>

definition found :: "run_raise + finding list \<Rightarrow> finding list" where
  "found r = (case r of Inl _ \<Rightarrow> [] | Inr fs \<Rightarrow> fs)"

definition ran_ok :: "run_raise + finding list \<Rightarrow> bool" where
  "ran_ok r \<longleftrightarrow> (case r of Inl _ \<Rightarrow> False | Inr _ \<Rightarrow> True)"

definition run_keys :: "int \<Rightarrow> run_raise + finding list \<Rightarrow> key list" where
  "run_keys b r = fromkeys (map (canonical_key b) (found r))"

lemma vote_runs_value:
  "vote_runs b rs st = Inr st' \<longleftrightarrow>
     (b = 0 \<longrightarrow> (\<forall>r \<in> set rs. found r = [])) \<and>
     st' = \<lparr>vt_runs = vt_runs st @ map (run_keys b) rs,
            vt_by_key = fold (note_finding b) (concat (map found rs)) (vt_by_key st),
            vt_runs_ok = vt_runs_ok st + length (filter ran_ok rs)\<rparr>"
proof (induction rs arbitrary: st)
  case (Cons r rs)
  show ?case by (cases r) (auto simp: Cons.IH vote_run_def found_def run_keys_def ran_ok_def fromkeys_def)
qed auto

lemma vote_runs_raise: "vote_runs b rs st = Inl e \<Longrightarrow> e = OtherExc"
proof (induction rs arbitrary: st)
  case (Cons r rs)
  then show ?case by (auto simp: and_then_def vote_run_def split: sum.splits if_splits)
qed simp

definition outcomes_of :: "(pyval \<Rightarrow> pystr) \<Rightarrow> dive_world \<Rightarrow> step4_cfg \<Rightarrow> chunk \<Rightarrow> pystr \<Rightarrow> int \<Rightarrow>
     (run_raise + finding list) list" where
  "outcomes_of rep w cfg c code n =
     map (\<lambda>i. single_run rep (dv_validate w) cfg c (dv_reply w c code i)) [0..<nat n]"

lemma deepdive_chunk_Inr:
  assumes "deepdive_chunk rep w cfg runs_n threshold c = Inr fs" "chunk_runs cfg c runs_n threshold = (n, t)"
  obtains code where "dv_code w c = Inr code"
    "s4_line_bucket cfg = 0 \<longrightarrow> (\<forall>r \<in> set (outcomes_of rep w cfg c code n). found r = [])"
    "n \<le> 0 \<or> filter ran_ok (outcomes_of rep w cfg c code n) \<noteq> []"
    "fs = survivors t (fold (note_finding (s4_line_bucket cfg)) (concat (map found (outcomes_of rep w cfg c code n))) [])
       (count_votes (dv_walk w) (map (run_keys (s4_line_bucket cfg)) (outcomes_of rep w cfg c code n)))"
proof -
  obtain code where code: "dv_code w c = Inr code" using assms(1) by (auto simp: deepdive_chunk_def)
  with assms show thesis
    by (auto simp: deepdive_chunk_def vote_runs_value simp flip: outcomes_of_def split: if_splits intro!: that [OF code])
qed

lemma survivors_iff:
  assumes "wf_dict votes"
  shows "f \<in> set (survivors t by_key votes) \<longleftrightarrow>
     (\<exists>k n g. dict_get votes k = Some n \<and> t \<le> n \<and> dict_get by_key k = Some g \<and> f = g\<lparr>f_votes := n\<rparr>)"
proof -
  have "(case p of (k, n) \<Rightarrow> if t \<le> n then map_option (\<lambda>f. f\<lparr>f_votes := n\<rparr>) (dict_get by_key k) else None) = Some f \<longleftrightarrow>
      t \<le> snd p \<and> (\<exists>g. dict_get by_key (fst p) = Some g \<and> f = g\<lparr>f_votes := snd p\<rparr>)" for p
    by (cases p) auto
  then have "f \<in> set (survivors t by_key votes) \<longleftrightarrow>
      (\<exists>p \<in> set votes. t \<le> snd p \<and> (\<exists>g. dict_get by_key (fst p) = Some g \<and> f = g\<lparr>f_votes := snd p\<rparr>))"
    unfolding survivors_def in_map_filter by simp
  then show ?thesis using wf_dict_get [OF assms] by (metis fst_conv snd_conv prod.collapse)
qed

lemma canonical_key_votes [simp]: "canonical_key b (f\<lparr>f_votes := n\<rparr>) = canonical_key b f"
  by (simp add: canonical_key_def)

lemma survivors_distinct:
  assumes "wf_dict votes" "\<And>k f. dict_get by_key k = Some f \<Longrightarrow> canonical_key b f = k"
  shows "distinct (map (canonical_key b) (survivors t by_key votes))"
proof -
  have "map (canonical_key b) (survivors t by_key votes) =
      map fst (filter (\<lambda>(k, n). t \<le> n \<and> dict_get by_key k \<noteq> None) votes)"
    unfolding survivors_def using assms(2)
    by (induction votes) (auto simp: List.map_filter_simps split: option.splits if_splits)
  moreover have "distinct (map fst votes)" using assms(1) by (simp add: wf_dict_def)
  ultimately show ?thesis by (simp add: distinct_map_filter)
qed

section \<open>The threshold can be reached\<close>

lemma effective_runs_bounds:
  "effective_runs learned cfg model = Inr (n, t) \<Longrightarrow> 1 \<le> t \<and> t \<le> n"
  by (auto simp: effective_runs_def Let_def split: if_splits)

lemma chunk_runs_bounds:
  "1 \<le> t \<Longrightarrow> t \<le> n \<Longrightarrow> chunk_runs cfg c n t = (n', t') \<Longrightarrow> 1 \<le> t' \<and> t' \<le> n'"
  by (auto simp: chunk_runs_def Let_def split: if_splits option.splits)

text \<open>
  Every chunk is run at least once, and the number of votes asked for is at least one and
  at most the number of runs, whatever the configuration says.
\<close>

lemma vote_threshold_reachable:
  assumes "effective_runs learned cfg model = Inr (runs_n, threshold)"
    and "chunk_runs cfg c runs_n threshold = (n, t)"
  shows "1 \<le> t \<and> t \<le> n"
  using effective_runs_bounds [OF assms(1)] chunk_runs_bounds [OF _ _ assms(2)] by blast

definition sample_step4 :: step4_cfg where
  "sample_step4 = \<lparr>s4_runs = 3, s4_vote_threshold = 5, s4_parallel = 4, s4_line_bucket = 10,
     s4_specialist_runs = None, s4_taint_runs = Some 2, s4_max_findings_per_run = None\<rparr>"

definition sample_chunk :: "pystr \<Rightarrow> int \<Rightarrow> chunk" where
  "sample_chunk i rank = \<lparr>c_id = i, c_size = SMALL, c_risk_rank = rank, c_files = [''a.py''], c_focus_entry_points = [],
     c_hypothesis = [], c_specialist = None, c_path_funcs = [''a.py::f''], c_source_ref = [], c_sink_ref = []\<rparr>"

lemma sample_chunk_simps [simp]: "c_id (sample_chunk i rank) = i" "c_risk_rank (sample_chunk i rank) = rank"
  by (simp_all add: sample_chunk_def)

definition sample_model :: model_cfg where
  "sample_model = ModelNode (Some ''gpt'') (Some ''openai'') None"

lemma sample_effective: "effective_runs [] sample_step4 sample_model = Inr (3, 3)"
  by (simp add: effective_runs_def resolve_model_def sample_step4_def sample_model_def)

lemma vote_threshold_reachable_witness:
  "chunk_runs sample_step4 (sample_chunk ''c'' 1) 3 3 = (2, 2) \<and> (1::int) \<le> 2 \<and> (2::int) \<le> 2"
proof -
  have "chunk_runs sample_step4 (sample_chunk ''c'' 1) 3 3 = (2, 2)"
    by (simp add: chunk_runs_def sample_step4_def sample_chunk_def)
  from vote_threshold_reachable [OF sample_effective this] this show ?thesis by simp
qed

section \<open>The vote of a chunk\<close>

definition supporters :: "int \<Rightarrow> (run_raise + finding list) list \<Rightarrow> key \<Rightarrow> nat" where
  "supporters b outcomes k = length (filter (\<lambda>r. k \<in> canonical_key b ` set (found r)) outcomes)"

lemma supporters_run_keys:
  "length (filter (\<lambda>r. k \<in> set r) (map (run_keys b) outcomes)) = supporters b outcomes k"
  by (simp add: supporters_def filter_map comp_def run_keys_def)

lemma supporters_pos: "0 < supporters b outcomes k \<longleftrightarrow> k \<in> canonical_key b ` set (concat (map found outcomes))"
  by (fastforce simp: supporters_def filter_empty_conv)

lemma votes_of_outcomes:
  assumes "\<And>ks. mset (walk ks) = mset ks"
  shows "wf_dict (count_votes walk (map (run_keys b) outcomes))"
    "dict_get (count_votes walk (map (run_keys b) outcomes)) k =
       (if supporters b outcomes k = 0 then None else Some (int (supporters b outcomes k)))"
proof -
  have d: "\<forall>r \<in> set (map (run_keys b) outcomes). distinct r" by (auto simp: run_keys_def)
  show "wf_dict (count_votes walk (map (run_keys b) outcomes))" by (simp add: count_votes_def wf_count)
  show "dict_get (count_votes walk (map (run_keys b) outcomes)) k =
       (if supporters b outcomes k = 0 then None else Some (int (supporters b outcomes k)))"
    unfolding count_votes_value [OF assms d] supporters_run_keys Let_def by (rule refl)
qed

lemma survivors_value:
  fixes outcomes b walk t
  defines "all \<equiv> set (concat (map found outcomes))"
  defines "fs \<equiv> survivors t (fold (note_finding b) (concat (map found outcomes)) [])
      (count_votes walk (map (run_keys b) outcomes))"
  assumes walk: "\<And>ks. mset (walk ks) = mset ks" and t: "1 \<le> t"
  shows "distinct (map (canonical_key b) fs)"
    "k \<in> canonical_key b ` set fs \<longleftrightarrow> t \<le> int (supporters b outcomes k)"
    "f \<in> set fs \<Longrightarrow> f_votes f = int (supporters b outcomes (canonical_key b f)) \<and>
       (\<exists>g \<in> all. f = g\<lparr>f_votes := f_votes f\<rparr>) \<and>
       (\<forall>g \<in> all. canonical_key b g = canonical_key b f \<longrightarrow> f_confidence g \<le> f_confidence f)"
proof -
  let ?by = "fold (note_finding b) (concat (map found outcomes)) []"
  have ok: "best_ok b all ?by" using best_ok_fold [OF best_ok_Nil, of b "concat (map found outcomes)"] by (simp add: all_def)
  note v = votes_of_outcomes [of walk b outcomes, OF walk]
  show "distinct (map (canonical_key b) fs)"
    unfolding fs_def by (rule survivors_distinct [OF v(1)]) (use best_ok_at [OF ok] in blast)
  have some: "dict_get (count_votes walk (map (run_keys b) outcomes)) k = Some n \<longleftrightarrow>
      n = int (supporters b outcomes k) \<and> 0 < supporters b outcomes k" for k n
    unfolding v(2) by auto
  have pos: "0 < supporters b outcomes k" if "t \<le> int (supporters b outcomes k)" for k using that t by simp
  have mem: "f \<in> set fs \<longleftrightarrow> (\<exists>k g. t \<le> int (supporters b outcomes k) \<and> dict_get ?by k = Some g \<and>
      f = g\<lparr>f_votes := int (supporters b outcomes k)\<rparr>)" for f
    unfolding fs_def survivors_iff [OF v(1)] some using pos by blast
  show "k \<in> canonical_key b ` set fs \<longleftrightarrow> t \<le> int (supporters b outcomes k)" for k
  proof
    assume "t \<le> int (supporters b outcomes k)"
    moreover from this t have "k \<in> canonical_key b ` all" using supporters_pos [of b outcomes k] by (simp add: all_def)
    then obtain g where "dict_get ?by k = Some g" using ok by (auto simp: best_ok_def)
    moreover from this have "canonical_key b g = k" using best_ok_at [OF ok] by blast
    ultimately show "k \<in> canonical_key b ` set fs" using mem by (metis canonical_key_votes imageI)
  next
    assume "k \<in> canonical_key b ` set fs"
    then obtain f where f: "f \<in> set fs" "canonical_key b f = k" by blast
    from mem f(1) obtain k' g where g: "t \<le> int (supporters b outcomes k')" "dict_get ?by k' = Some g"
      "f = g\<lparr>f_votes := int (supporters b outcomes k')\<rparr>" by blast
    have "k' = k" using best_ok_at [OF ok g(2)] f(2) by (simp add: g(3))
    then show "t \<le> int (supporters b outcomes k)" using g(1) by simp
  qed
  assume "f \<in> set fs"
  then obtain k g where g: "dict_get ?by k = Some g" "f = g\<lparr>f_votes := int (supporters b outcomes k)\<rparr>" using mem by blast
  have k: "canonical_key b g = k" "g \<in> all" using best_ok_at [OF ok g(1)] by simp_all
  have "f_confidence h \<le> f_confidence g" if "h \<in> all" "canonical_key b h = k" for h
    using ok that g(1) unfolding best_ok_def by fastforce
  with g k show "f_votes f = int (supporters b outcomes (canonical_key b f)) \<and>
       (\<exists>g \<in> all. f = g\<lparr>f_votes := f_votes f\<rparr>) \<and>
       (\<forall>g \<in> all. canonical_key b g = canonical_key b f \<longrightarrow> f_confidence g \<le> f_confidence f)"
    by auto
qed

text \<open>
  C23.  What a chunk reports is one finding per key, exactly the keys that enough runs reported;
  its votes are the number of those runs, and it is one of the findings reported under the key,
  with the highest confidence.  The order in which Python walks a set does not matter.
\<close>

theorem chunk_vote_exact:
  assumes "effective_runs learned cfg model = Inr (runs_n, threshold)"
    and "chunk_runs cfg c runs_n threshold = (n, t)"
    and "deepdive_chunk rep w cfg runs_n threshold c = Inr fs"
    and "\<And>ks. mset (dv_walk w ks) = mset ks"
  shows "\<exists>code outcomes. dv_code w c = Inr code \<and> outcomes = outcomes_of rep w cfg c code n \<and>
     (let key = canonical_key (s4_line_bucket cfg); all = set (concat (map found outcomes)) in
      distinct (map key fs) \<and>
      (\<forall>k. k \<in> key ` set fs \<longleftrightarrow> t \<le> int (supporters (s4_line_bucket cfg) outcomes k)) \<and>
      (\<forall>f \<in> set fs. f_votes f = int (supporters (s4_line_bucket cfg) outcomes (key f)) \<and>
         (\<exists>g \<in> all. f = g\<lparr>f_votes := f_votes f\<rparr>) \<and>
         (\<forall>g \<in> all. key g = key f \<longrightarrow> f_confidence g \<le> f_confidence f)))"
proof -
  have "1 \<le> threshold \<and> threshold \<le> runs_n" by (rule effective_runs_bounds [OF assms(1)])
  then have t: "1 \<le> t" using chunk_runs_bounds [OF _ _ assms(2)] by blast
  obtain code where code: "dv_code w c = Inr code"
    "fs = survivors t (fold (note_finding (s4_line_bucket cfg)) (concat (map found (outcomes_of rep w cfg c code n))) [])
       (count_votes (dv_walk w) (map (run_keys (s4_line_bucket cfg)) (outcomes_of rep w cfg c code n)))"
    using deepdive_chunk_Inr [OF assms(3,2)] by blast
  note v = survivors_value [where walk = "dv_walk w" and t = t and b = "s4_line_bucket cfg" and
      outcomes = "outcomes_of rep w cfg c code n", OF assms(4) t, folded code(2)]
  show ?thesis
    unfolding Let_def using code(1) v by blast
qed

definition one_world :: dive_world where
  "one_world = \<lparr>dv_code = (\<lambda>c. Inr []), dv_reply = (\<lambda>c code i. Inr (PDict [(''findings'', PList [PDict []])])),
     dv_validate = (\<lambda>item. Some (plain_finding ''a.py'' 12 14 RACE)), dv_walk = (\<lambda>ks. ks)\<rparr>"

lemma one_cwe: "cwe_of [] = PNone"
  by code_simp

lemma one_run: "single_run rep (dv_validate one_world) cfg c (dv_reply one_world c code i) =
    Inr (cap_findings cfg [plain_finding ''a.py'' 12 14 RACE])"
proof -
  have "fix_item rep (c_id c) [] = Inr [(''chunk_id'', PStr (c_id c)), (''cwe'', PNone)]"
    by (simp add: fix_item_def one_cwe dict_setdefault_def dict_get_or_def vuln_class_names_def py_or_def Let_def)
  then show ?thesis by (simp add: single_run_def one_world_def raw_items_def dict_get_or_def)
qed

lemma one_chunk: "deepdive_chunk rep one_world sample_step4 3 3 (sample_chunk i rank) =
    Inr [plain_finding ''a.py'' 12 14 RACE\<lparr>f_votes := 2\<rparr>]"
proof -
  have r: "chunk_runs sample_step4 (sample_chunk i rank) 3 3 = (2, 2)"
    by (simp add: chunk_runs_def sample_step4_def sample_chunk_def)
  have k: "canonical_key 10 (plain_finding ''a.py'' 12 14 RACE) = (''a.py'', 1, RACE)"
    by (simp add: canonical_key_def plain_finding_def)
  have c: "dv_code one_world (sample_chunk i rank) = Inr []" "dv_walk one_world = (\<lambda>ks. ks)" "s4_line_bucket sample_step4 = 10"
    "cap_findings sample_step4 fs = fs" for fs
    by (simp_all add: one_world_def sample_step4_def cap_findings_def)
  show ?thesis
    by (simp add: deepdive_chunk_def r c one_run numeral_2_eq_2 vote_run_def note_finding_def k fromkeys_def count_votes_def
        count_key_def dict_get_or_def survivors_def List.map_filter_simps)
qed

lemma chunk_vote_exact_witness:
  "\<exists>code. (2::int) \<le> int (supporters 10
     (outcomes_of (\<lambda>_. []) one_world sample_step4 (sample_chunk ''c'' 1) code 2) (''a.py'', 1, RACE))"
proof -
  have r: "chunk_runs sample_step4 (sample_chunk ''c'' 1) 3 3 = (2, 2)"
    by (simp add: chunk_runs_def sample_step4_def sample_chunk_def)
  have k: "canonical_key 10 (plain_finding ''a.py'' 12 14 RACE) = (''a.py'', 1, RACE)" "s4_line_bucket sample_step4 = 10"
    by (simp_all add: canonical_key_def plain_finding_def sample_step4_def)
  have w: "mset (dv_walk one_world ks) = mset ks" for ks by (simp add: one_world_def)
  from chunk_vote_exact [OF sample_effective r one_chunk w, where rep = "\<lambda>_. []"] k show ?thesis
    by (auto simp: Let_def)
qed

section \<open>All chunks\<close>

definition chunk_ran :: "run_raise + finding list \<Rightarrow> chunk_outcome" where
  "chunk_ran r = (case r of Inl GuardrailBlockedExc \<Rightarrow> Blocked | Inl OtherExc \<Rightarrow> Errored | Inr _ \<Rightarrow> Completed)"

lemma deepdive_chunk_raise:
  assumes "deepdive_chunk rep w cfg n t c = Inl e" "dv_code w c \<noteq> Inl GuardrailBlockedExc"
  shows "e = OtherExc"
  using assms
  by (cases e; cases "dv_code w c")
    (auto simp: deepdive_chunk_def and_then_def Let_def split: sum.splits prod.splits if_splits dest: vote_runs_raise)

text \<open>Without a block, either loop files every chunk's result under its id.\<close>

lemma dive_loop_value:
  assumes "\<forall>c \<in> set cs. work c \<noteq> Inl GuardrailBlockedExc"
  shows "\<exists>n. dive_loop par work cs st = Inr (st\<lparr>
     ds_results := fold (\<lambda>c. dict_set (c_id c) (found (work c))) cs (ds_results st),
     ds_all := ds_all st @ concat (map (\<lambda>c. found (work c)) cs),
     ds_outcomes := fold (\<lambda>c. dict_set (c_id c) (chunk_ran (work c))) cs (ds_outcomes st),
     ds_successes := n\<rparr>)"
  using assms
proof (induction cs arbitrary: st)
  case (Cons c cs)
  show ?case
  proof (cases "work c")
    case (Inl e)
    with Cons.prems have e: "e = OtherExc" by (cases e) auto
    let ?st = "st\<lparr>ds_results := dict_set (c_id c) [] (ds_results st),
      ds_outcomes := dict_set (c_id c) Errored (ds_outcomes st)\<rparr>"
    from Cons.IH [of ?st] Cons.prems Inl e show ?thesis by (auto simp: dive_step_def found_def chunk_ran_def)
  next
    case (Inr fs)
    let ?st = "st\<lparr>ds_results := dict_set (c_id c) fs (ds_results st), ds_all := ds_all st @ fs,
      ds_outcomes := dict_set (c_id c) Completed (ds_outcomes st), ds_successes := Suc (ds_successes st)\<rparr>"
    from Cons.IH [of ?st] Cons.prems Inr show ?thesis by (auto simp: dive_step_def found_def chunk_ran_def)
  qed
next
  case Nil
  show ?case by (rule exI [of _ "ds_successes st"]) simp
qed

lemma dict_get_fold_set:
  assumes "distinct (map k cs)"
  shows "dict_get (fold (\<lambda>c. dict_set (k c) (v c)) cs d) i =
    (case find (\<lambda>c. k c = i) cs of Some c \<Rightarrow> Some (v c) | None \<Rightarrow> dict_get d i)"
  using assms
proof (induction cs arbitrary: d)
  case (Cons c cs)
  have "k c \<notin> k ` set cs" using Cons.prems by simp
  then have "find (\<lambda>c'. k c' = k c) cs = None" unfolding find_None_iff by (metis image_eqI)
  then show ?case using Cons by (auto simp: dict_get_set split: option.splits)
qed simp

lemma find_unique:
  assumes "distinct (map k cs)" "c \<in> set cs"
  shows "find (\<lambda>c'. k c' = k c) cs = Some c"
  using assms by (induction cs) (auto simp: rev_image_eqI)

lemma find_perm:
  assumes "distinct (map k cs)" "mset ds = mset cs"
  shows "find (\<lambda>c. k c = i) ds = find (\<lambda>c. k c = i) cs"
proof -
  have d: "distinct (map k ds)" using assms by (metis mset_eq_imp_distinct_iff mset_map)
  have s: "set ds = set cs" using assms(2) by (rule mset_eq_setD)
  show ?thesis
  proof (cases "\<exists>c \<in> set cs. k c = i")
    case True
    then obtain c where "c \<in> set cs" "k c = i" by blast
    then show ?thesis using find_unique [OF assms(1), of c] find_unique [OF d, of c] s by simp
  next
    case False
    then have "find (\<lambda>c. k c = i) cs = None" "find (\<lambda>c. k c = i) ds = None" using s by (simp_all add: find_None_iff)
    then show ?thesis by simp
  qed
qed

lemma parallel_irrelevant [simp]:
  "deepdive_chunk rep w (cfg\<lparr>s4_parallel := p\<rparr>) = deepdive_chunk rep w cfg"
  "effective_runs learned (cfg\<lparr>s4_parallel := p\<rparr>) model = effective_runs learned cfg model"
  by (simp_all add: deepdive_chunk_def effective_runs_def chunk_runs_def single_run_def cap_findings_def fun_eq_iff)

definition work_of :: "(pyval \<Rightarrow> pystr) \<Rightarrow> dive_world \<Rightarrow> step4_cfg \<Rightarrow> int \<times> int \<Rightarrow> chunk \<Rightarrow> run_raise + finding list" where
  "work_of rep w cfg nt = deepdive_chunk rep w cfg (fst nt) (snd nt)"

text \<open>The result of either loop when no block comes up, for any order of completion.\<close>

lemma deepdive_run_value:
  fixes cs finish p
  defines "chunks \<equiv> sort_key c_risk_rank cs"
  defines "order \<equiv> (if p \<le> 1 then chunks else finish chunks)"
  assumes code: "\<forall>c. dv_code w c \<noteq> Inl GuardrailBlockedExc"
    and nt: "effective_runs learned cfg model = Inr nt"
  shows "deepdive_run rep w learned model (cfg\<lparr>s4_parallel := p\<rparr>) finish cs =
     and_then (collapse_run (s4_line_bucket cfg)
         (if p \<le> 1 then concat (map (\<lambda>c. found (work_of rep w cfg nt c)) chunks)
          else concat (map (\<lambda>c. dict_get_or
             (fold (\<lambda>c. dict_set (c_id c) (found (work_of rep w cfg nt c))) order []) (c_id c) []) chunks)))
       (\<lambda>fs. Inr (fs, fold (\<lambda>c. dict_set (c_id c) (chunk_ran (work_of rep w cfg nt c))) order []))"
proof -
  obtain n t where n: "nt = (n, t)" by (cases nt)
  have "\<forall>c \<in> set order. deepdive_chunk rep w cfg n t c \<noteq> Inl GuardrailBlockedExc"
    using deepdive_chunk_raise code by blast
  from dive_loop_value [OF this, of p dive_start] obtain k where
    "dive_loop p (deepdive_chunk rep w cfg n t) order dive_start = Inr (dive_start\<lparr>
       ds_results := fold (\<lambda>c. dict_set (c_id c) (found (deepdive_chunk rep w cfg n t c))) order [],
       ds_all := concat (map (\<lambda>c. found (deepdive_chunk rep w cfg n t c)) order),
       ds_outcomes := fold (\<lambda>c. dict_set (c_id c) (chunk_ran (deepdive_chunk rep w cfg n t c))) order [],
       ds_successes := k\<rparr>)" by (auto simp: dive_start_def)
  then show ?thesis using nt
    by (simp add: deepdive_run_def n work_of_def Let_def chunks_def [symmetric] order_def split: if_splits)
qed

text \<open>
  C25.  A guardrail block never reaches the loop over the chunks: the run counters never stop the
  scan and no chunk is recorded as blocked, whatever the model's backend raises, because each
  run of a chunk swallows the exception.
\<close>

theorem guardrail_never_seen:
  assumes "\<forall>c. dv_code w c \<noteq> Inl GuardrailBlockedExc"
  shows "case deepdive_run rep w learned model cfg finish cs of
           Inl e \<Rightarrow> (\<forall>hits. e \<noteq> GuardrailLimit hits)
         | Inr (fs, outcomes) \<Rightarrow> Blocked \<notin> snd ` set outcomes"
proof (cases "effective_runs learned cfg model")
  case (Inl e)
  then show ?thesis by (simp add: deepdive_run_def Let_def)
next
  case (Inr nt)
  have w: "chunk_ran (work_of rep w cfg nt c) \<noteq> Blocked" for c
    using deepdive_chunk_raise [of rep w cfg "fst nt" "snd nt" c] assms
    by (cases "work_of rep w cfg nt c") (auto simp: work_of_def chunk_ran_def)
  have "Blocked \<notin> snd ` set d \<Longrightarrow>
      Blocked \<notin> snd ` set (fold (\<lambda>c. dict_set (c_id c) (chunk_ran (work_of rep w cfg nt c))) cs d)" for cs d
  proof (induction cs arbitrary: d)
    case (Cons c cs)
    have "snd ` set (dict_set k v d) \<subseteq> insert v (snd ` set d)" for k :: pystr and v :: chunk_outcome and d
      by (induction d) auto
    then have "Blocked \<notin> snd ` set (dict_set (c_id c) (chunk_ran (work_of rep w cfg nt c)) d)"
      using Cons.prems w [of c] by (metis insertE subsetD)
    then show ?case using Cons.IH by simp
  qed simp
  from this [of "[]"] show ?thesis
    using deepdive_run_value [OF assms Inr, of rep "s4_parallel cfg" finish cs]
    by (simp add: collapse_run_def split: sum.splits prod.splits if_splits)
qed

definition blocked_world :: dive_world where
  "blocked_world = one_world\<lparr>dv_reply := (\<lambda>c code i. Inl GuardrailBlockedExc)\<rparr>"

lemma blocked_chunk: "deepdive_chunk rep blocked_world sample_step4 3 3 (sample_chunk i rank) = Inl OtherExc"
  by (simp add: deepdive_chunk_def chunk_runs_def sample_step4_def sample_chunk_def blocked_world_def one_world_def
      single_run_def numeral_2_eq_2 vote_run_def)

lemma guardrail_never_seen_witness:
  "\<exists>outcomes. deepdive_run (\<lambda>_. []) blocked_world [] sample_model (sample_step4\<lparr>s4_parallel := 1\<rparr>) id
       (map (\<lambda>i. sample_chunk (show_int i) i) [1, 2, 3, 4, 5]) = Inr ([], outcomes) \<and>
     length outcomes = 5 \<and> Blocked \<notin> snd ` set outcomes"
proof -
  let ?run = "deepdive_run (\<lambda>_. []) blocked_world [] sample_model (sample_step4\<lparr>s4_parallel := 1\<rparr>) id
       (map (\<lambda>i. sample_chunk (show_int i) i) [1, 2, 3, 4, 5])"
  have code: "\<forall>c. dv_code blocked_world c \<noteq> Inl GuardrailBlockedExc" by (simp add: blocked_world_def one_world_def)
  have "\<exists>outcomes. ?run = Inr ([], outcomes) \<and> length outcomes = 5"
    unfolding deepdive_run_value [OF code sample_effective]
    by (simp add: work_of_def blocked_chunk found_def collapse_run_def collapse_across_chunks_def
        show_int_def show_nat.simps)
  then obtain outcomes where o: "?run = Inr ([], outcomes)" "length outcomes = 5" by blast
  from guardrail_never_seen [OF code, of "\<lambda>_. []" "[]" sample_model "sample_step4\<lparr>s4_parallel := 1\<rparr>" id
      "map (\<lambda>i. sample_chunk (show_int i) i) [1, 2, 3, 4, 5]"]
  have "Blocked \<notin> snd ` set outcomes" unfolding o(1) by simp
  with o show ?thesis by blast
qed

lemma parallel_results:
  assumes "distinct (map c_id chunks)" "mset order = mset chunks"
  shows "map (\<lambda>c. dict_get_or (fold (\<lambda>c. dict_set (c_id c) (v c)) order []) (c_id c) []) chunks = map v chunks"
proof (rule map_cong [OF refl])
  fix c assume c: "c \<in> set chunks"
  have "distinct (map c_id order)" using assms by (metis mset_eq_imp_distinct_iff mset_map)
  moreover have "c \<in> set order" using c assms(2) by (metis mset_eq_setD)
  ultimately show "dict_get_or (fold (\<lambda>c. dict_set (c_id c) (v c)) order []) (c_id c) [] = v c"
    unfolding dict_get_or_def using dict_get_fold_set [of c_id order v "[]" "c_id c"] find_unique [of c_id order c] by simp
qed

text \<open>
  C24.  When the chunks have different ids, scanning them in parallel gives the findings of the
  serial scan in the same order and the same outcome for every chunk, in whatever order the
  chunks finish.
\<close>

theorem parallel_is_serial:
  assumes "\<forall>c. dv_code w c \<noteq> Inl GuardrailBlockedExc" "distinct (map c_id cs)" "\<And>cs. mset (finish cs) = mset cs"
  shows "case deepdive_run rep w learned model (cfg\<lparr>s4_parallel := 1\<rparr>) id cs of
           Inl e \<Rightarrow> deepdive_run rep w learned model (cfg\<lparr>s4_parallel := p\<rparr>) finish cs = Inl e
         | Inr (fs, outcomes) \<Rightarrow>
             \<exists>outcomes'. deepdive_run rep w learned model (cfg\<lparr>s4_parallel := p\<rparr>) finish cs = Inr (fs, outcomes') \<and>
               dict_get outcomes' = dict_get outcomes"
proof (cases "effective_runs learned cfg model")
  case (Inl e)
  then show ?thesis by (simp add: deepdive_run_def Let_def)
next
  case (Inr nt)
  let ?chunks = "sort_key c_risk_rank cs" and ?w = "work_of rep w cfg nt"
  have d: "distinct (map c_id ?chunks)" using assms(2) by (metis mset_eq_imp_distinct_iff mset_map mset_sort)
  have o: "dict_get (fold (\<lambda>c. dict_set (c_id c) (chunk_ran (?w c))) (finish ?chunks) []) =
      dict_get (fold (\<lambda>c. dict_set (c_id c) (chunk_ran (?w c))) ?chunks [])"
  proof
    fix i
    have "distinct (map c_id (finish ?chunks))" using d assms(3) by (metis mset_eq_imp_distinct_iff mset_map)
    from dict_get_fold_set [OF this, of "\<lambda>c. chunk_ran (?w c)" "[]" i]
      dict_get_fold_set [OF d, of "\<lambda>c. chunk_ran (?w c)" "[]" i] find_perm [OF d assms(3), of i]
    show "dict_get (fold (\<lambda>c. dict_set (c_id c) (chunk_ran (?w c))) (finish ?chunks) []) i =
        dict_get (fold (\<lambda>c. dict_set (c_id c) (chunk_ran (?w c))) ?chunks []) i" by (simp only:)
  qed
  let ?R = "concat (map (\<lambda>c. found (?w c)) ?chunks)"
  let ?O = "\<lambda>order. fold (\<lambda>c. dict_set (c_id c) (chunk_ran (?w c))) order []"
  have serial: "deepdive_run rep w learned model (cfg\<lparr>s4_parallel := 1\<rparr>) id cs =
      and_then (collapse_run (s4_line_bucket cfg) ?R) (\<lambda>fs. Inr (fs, ?O ?chunks))"
    unfolding deepdive_run_value [OF assms(1) Inr] by simp
  have "\<exists>out. dict_get out = dict_get (?O ?chunks) \<and>
      deepdive_run rep w learned model (cfg\<lparr>s4_parallel := p\<rparr>) finish cs =
      and_then (collapse_run (s4_line_bucket cfg) ?R) (\<lambda>fs. Inr (fs, out))"
  proof (cases "p \<le> 1")
    case True
    then show ?thesis unfolding deepdive_run_value [OF assms(1) Inr] by auto
  next
    case False
    show ?thesis
      by (rule exI [of _ "?O (finish ?chunks)"], rule conjI [OF o])
        (simp only: deepdive_run_value [OF assms(1) Inr] False if_False parallel_results [OF d assms(3)])
  qed
  then show ?thesis unfolding serial by (cases "collapse_run (s4_line_bucket cfg) ?R") auto
qed

lemma parallel_is_serial_witness:
  "\<exists>fs outcomes outcomes'. deepdive_run (\<lambda>_. []) one_world [] sample_model (sample_step4\<lparr>s4_parallel := 1\<rparr>) id
       [sample_chunk ''x'' 1, sample_chunk ''y'' 2] = Inr (fs, outcomes) \<and> fs \<noteq> [] \<and>
     deepdive_run (\<lambda>_. []) one_world [] sample_model (sample_step4\<lparr>s4_parallel := 4\<rparr>) rev
       [sample_chunk ''x'' 1, sample_chunk ''y'' 2] = Inr (fs, outcomes')"
proof -
  let ?cs = "[sample_chunk ''x'' 1, sample_chunk ''y'' 2]"
  have code: "\<forall>c. dv_code one_world c \<noteq> Inl GuardrailBlockedExc" by (simp add: one_world_def)
  have "s4_line_bucket sample_step4 = 10" by (simp add: sample_step4_def)
  then obtain fs outcomes where s: "deepdive_run (\<lambda>_. []) one_world [] sample_model (sample_step4\<lparr>s4_parallel := 1\<rparr>) id ?cs =
      Inr (fs, outcomes)" "fs \<noteq> []"
    unfolding deepdive_run_value [OF code sample_effective]
    by (simp add: work_of_def one_chunk found_def collapse_run_def collapse_across_chunks_def note_finding_def)
  have "distinct (map c_id ?cs)" by simp
  from parallel_is_serial [OF code this, where finish = rev and cfg = sample_step4 and p = 4 and rep = "\<lambda>_. []" and
      learned = "[]" and model = sample_model] s show ?thesis by auto
qed

text \<open>
  With one id for two chunks the parallel scan forgets the findings of one: the ids come from
  the model and nothing makes them unique.
\<close>

definition twin_world :: dive_world where
  "twin_world = one_world\<lparr>dv_validate := (\<lambda>item. Some (plain_finding ''a.py'' 12 14 RACE)),
     dv_reply := (\<lambda>c code i. if c_risk_rank c = 1 then Inr (PDict [(''findings'', PList [PDict []])]) else Inr (PList []))\<rparr>"

lemma twin_world_simps:
  "dv_code twin_world = dv_code one_world" "dv_walk twin_world = dv_walk one_world"
  "dv_validate twin_world = dv_validate one_world"
  "dv_reply twin_world (sample_chunk i 1) = dv_reply one_world (sample_chunk i 1)"
  by (simp_all add: twin_world_def one_world_def fun_eq_iff)

lemma parallel_twin_ids:
  "\<exists>out out'. deepdive_run rep twin_world [] sample_model (sample_step4\<lparr>s4_parallel := 1\<rparr>) id
       [sample_chunk ''x'' 1, sample_chunk ''x'' 2] = Inr ([plain_finding ''a.py'' 12 14 RACE\<lparr>f_votes := 2\<rparr>], out) \<and>
     deepdive_run rep twin_world [] sample_model (sample_step4\<lparr>s4_parallel := 2\<rparr>) id
       [sample_chunk ''x'' 1, sample_chunk ''x'' 2] = Inr ([], out')"
proof -
  have code: "\<forall>c. dv_code twin_world c \<noteq> Inl GuardrailBlockedExc" by (simp add: twin_world_def one_world_def)
  have a: "deepdive_chunk rep twin_world sample_step4 3 3 (sample_chunk ''x'' 1) =
      Inr [plain_finding ''a.py'' 12 14 RACE\<lparr>f_votes := 2\<rparr>]"
    using one_chunk [of rep "''x''" 1] unfolding deepdive_chunk_def twin_world_simps .
  have b: "deepdive_chunk rep twin_world sample_step4 3 3 (sample_chunk ''x'' 2) = Inr []"
    by (simp add: deepdive_chunk_def chunk_runs_def sample_step4_def sample_chunk_def twin_world_def one_world_def
        single_run_def raw_items_def numeral_2_eq_2 vote_run_def cap_findings_def fromkeys_def count_votes_def
        survivors_def List.map_filter_simps)
  have c: "s4_line_bucket sample_step4 = 10" by (simp add: sample_step4_def)
  show ?thesis
    unfolding deepdive_run_value [OF code sample_effective]
    by (simp add: work_of_def a b c found_def collapse_run_def collapse_across_chunks_def note_finding_def dict_get_or_def)
qed

text \<open>
  The order in which the findings of a chunk leave it is the order its sets of keys are walked
  in, which in Python differs from process to process.
\<close>

lemma count_votes_order:
  assumes "k \<noteq> k'"
  shows "count_votes (\<lambda>ks. ks) [[k, k']] = [(k, 1), (k', 1)]" "count_votes rev [[k, k']] = [(k', 1), (k, 1)]"
  using assms by (simp_all add: count_votes_def count_key_def dict_get_or_def)

text \<open>An item without a class is not given one, although the test of the class assumes \<open>other\<close>.\<close>

lemma fix_item_keeps_class_missing:
  assumes "fix_item rep cid item = Inr item'" "dict_get item ''vuln_class'' = None"
  shows "dict_get item' ''vuln_class'' = None"
proof -
  have "dict_get (dict_setdefault ''chunk_id'' (PStr cid) item) ''vuln_class'' = None"
    using assms(2) by (simp add: dict_get_setdefault)
  then show ?thesis using assms(1)
    by (auto simp: fix_item_def dict_get_or_def vuln_class_names_def dict_get_set Let_def split: option.splits)
qed

end
