(* ===== verification/Redact.thy ===== *)
theory Redact
  imports Regex PyVal
begin

text \<open>
  The redactor (\<open>report/redact.py\<close>) and the partial card mask of the deep dive
  (\<open>pipeline/stages/s4_deepdive.py\<close>): the validators, the table of patterns, the masking pass
  with its in-band placeholders, and the entry points.  Unicode spaces of the patterns are
  outside the ASCII text of the development.
\<close>

section \<open>Validators\<close>

fun luhn_sum :: "bool \<Rightarrow> pystr \<Rightarrow> nat" where
  "luhn_sum single [] = 0"
| "luhn_sum single (c # cs) =
     (let n = digit_val c; m = (if single then n else if 9 < 2 * n then 2 * n - 9 else 2 * n)
      in m + luhn_sum (\<not> single) cs)"

definition luhn :: "pystr \<Rightarrow> bool" where
  "luhn digits \<longleftrightarrow> luhn_sum True (rev digits) mod 10 = 0"

definition cc_network :: "pystr \<Rightarrow> bool" where
  "cc_network digits =
     (let n = length digits in
      if n < 12 \<or> 19 < n then False
      else
        let p1 = take 1 digits; p2 = digits_val (take 2 digits);
            p3 = digits_val (take 3 digits); p4 = digits_val (take 4 digits)
        in n = 15 \<and> p2 \<in> {34, 37} \<or>
           p1 = ''4'' \<and> 13 \<le> n \<and> n \<le> 19 \<or>
           n = 16 \<and> (51 \<le> p2 \<and> p2 \<le> 55 \<or> 2221 \<le> p4 \<and> p4 \<le> 2720) \<or>
           16 \<le> n \<and> n \<le> 19 \<and> (p4 = 6011 \<or> p2 = 65 \<or> 644 \<le> p3 \<and> p3 \<le> 649) \<or>
           16 \<le> n \<and> n \<le> 19 \<and> 3528 \<le> p4 \<and> p4 \<le> 3589 \<or>
           16 \<le> n \<and> n \<le> 19 \<and> p2 = 62 \<or>
           14 \<le> n \<and> n \<le> 19 \<and> p2 = 36 \<or>
           12 \<le> n \<and> n \<le> 19 \<and> p4 \<in> {5018, 5020, 5038, 5893, 6304, 6759, 6761, 6762, 6763} \<or>
           n = 16 \<and> (p3 = 508 \<or> p2 \<in> {81, 82}))"

definition ssn_valid :: "pystr \<Rightarrow> bool" where
  "ssn_valid d =
     (let a = digits_val (take 3 d); g = digits_val (take 2 (drop 3 d)); s = digits_val (take 4 (drop 5 d))
      in \<not> (a = 0 \<or> a = 666 \<or> g = 0 \<or> s = 0))"

definition only_digits :: "pystr \<Rightarrow> pystr" where
  "only_digits s = filter py_digit s"

definition bearer_credential :: "pystr \<Rightarrow> re_match \<Rightarrow> bool" where
  "bearer_credential s m = list_ex (\<lambda>c. \<not> is_alpha_char c) (group_or s m 1)"

section \<open>Patterns\<close>

definition token_char :: "char \<Rightarrow> bool" where
  "token_char c \<longleftrightarrow> is_alnum_char c \<or> c \<in> {CHR ''.'', CHR ''/'', CHR ''_'', CHR ''-''}"

definition b64u :: "char \<Rightarrow> bool" where
  "b64u c \<longleftrightarrow> is_alnum_char c \<or> c \<in> {CHR ''_'', CHR ''-''}"

definition space_dash :: "char \<Rightarrow> bool" where
  "space_dash c \<longleftrightarrow> py_space c \<or> c = CHR ''-''"

definition space_low_dash :: "char \<Rightarrow> bool" where
  "space_low_dash c \<longleftrightarrow> py_space c \<or> c = CHR ''_'' \<or> c = CHR ''-''"

definition pan_re :: re where
  "pan_re = seqs [Behind False token_char,
     times_re 12 18 (Seq (Cls py_digit) (opt (Cls space_dash))), Cls py_digit, Ahead False token_char]"

definition cvv_re :: re where
  "cvv_re = nocase (seqs [Wordb,
     Grp 1 (alts [Seq (lit ''cvv'') (opt (lit ''2'')), Seq (lit ''cvc'') (opt (lit ''2'')), lit ''cid'', lit ''csc'']),
     Wordb, star (Cls py_space), opt (Cls (one_of '':='')), star (Cls py_space), opt (Cls (\<lambda>c. c = CHR 0x22)),
     Grp 2 (times_re 3 4 (Cls py_digit)), opt (Cls (\<lambda>c. c = CHR 0x22))])"

definition track_re :: re where
  "track_re = seqs [lit ''%B'', times_re 12 19 (Cls py_digit), lit ''^'',
     times_re 2 90 (Cls (\<lambda>c. c \<noteq> CHR ''?'')), lit ''?'']"

definition ssn_sep :: "char \<Rightarrow> bool" where
  "ssn_sep c \<longleftrightarrow> c \<in> {CHR ''-'', CHR ''.'', CHR 0x09, CHR '' ''}"

definition ssn_re :: re where
  "ssn_re = seqs [Behind False py_digit, Grp 1 (times_re 3 3 (Cls py_digit)), Cls ssn_sep,
     Grp 2 (times_re 2 2 (Cls py_digit)), Cls ssn_sep, Grp 3 (times_re 4 4 (Cls py_digit)), Ahead False py_digit]"

definition number_word :: re where
  "number_word = opt (Seq (star (Cls space_low_dash)) (alts [lit ''no'', lit ''num'', lit ''number'']))"

definition quote_char :: "char \<Rightarrow> bool" where
  "quote_char c \<longleftrightarrow> c = CHR 0x27 \<or> c = CHR 0x22"

definition ssn_ctx_re :: re where
  "ssn_ctx_re = nocase (seqs [Wordb,
     Grp 1 (alts [lit ''ssn'',
       seqs [lit ''social'', star (Cls space_low_dash), lit ''sec'', opt (lit ''urity''), number_word],
       lit ''itin'', lit ''tin'', seqs [lit ''taxpayer'', star (Cls space_low_dash), lit ''id'']]),
     Wordb, opt (Cls quote_char), star (Cls py_space), opt (Cls (one_of '':=#-'')), star (Cls py_space),
     opt (Cls quote_char), Behind False py_digit, Grp 2 (times_re 9 9 (Cls py_digit)), Ahead False py_digit])"

definition upper_digit :: "char \<Rightarrow> bool" where
  "upper_digit c \<longleftrightarrow> py_digit c \<or> is_upper_char c"

definition aws_re :: re where
  "aws_re = seqs [Wordb, alts (map lit [''AKIA'', ''ASIA'', ''AGPA'', ''AIDA'', ''AROA'', ''AIPA'', ''ANPA'', ''ANVA'']),
     times_re 16 16 (Cls upper_digit), Wordb]"

definition github_re :: re where
  "github_re = seqs [Wordb,
     Alt (seqs [lit ''gh'', Cls (one_of ''pousr''), lit ''_'', times_re 36 255 (Cls is_alnum_char)])
         (seqs [lit ''github_pat_'', times_re 22 22 (Cls word_char), lit ''_'', times_re 59 59 (Cls is_alnum_char)]),
     Wordb]"

definition alnum_dash :: "char \<Rightarrow> bool" where
  "alnum_dash c \<longleftrightarrow> is_alnum_char c \<or> c = CHR ''-''"

definition slack_re :: re where
  "slack_re = seqs [Wordb, lit ''xox'', Cls (one_of ''baprs''), lit ''-'', times_re 10 72 (Cls alnum_dash), Wordb]"

definition stripe_re :: re where
  "stripe_re = seqs [Wordb, Alt (lit ''sk'') (lit ''rk''), lit ''_'', Alt (lit ''live'') (lit ''test''), lit ''_'',
     times_re 24 99 (Cls is_alnum_char), Wordb]"

definition google_re :: re where
  "google_re = seqs [Wordb, lit ''AIza'', times_re 35 35 (Cls b64u), Wordb]"

definition sas_char :: "char \<Rightarrow> bool" where
  "sas_char c \<longleftrightarrow> is_alnum_char c \<or> c \<in> {CHR ''%'', CHR ''+'', CHR ''/'', CHR ''=''}"

definition azure_re :: re where
  "azure_re = nocase (seqs [Wordb, lit ''sig='', at_least 20 (Cls sas_char), Wordb])"

definition hex_char :: "char \<Rightarrow> bool" where
  "hex_char c \<longleftrightarrow> py_digit c \<or> one_of ''abcdefABCDEF'' c"

definition twilio_re :: re where
  "twilio_re = seqs [Wordb, lit ''SK'', times_re 32 32 (Cls hex_char), Wordb]"

definition jwt_re :: re where
  "jwt_re = seqs [Wordb, lit ''eyJ'', at_least 10 (Cls b64u), lit ''.'', at_least 10 (Cls b64u), lit ''.'',
     at_least 10 (Cls b64u), Wordb]"

definition bearer_char :: "char \<Rightarrow> bool" where
  "bearer_char c \<longleftrightarrow> is_alnum_char c \<or> c \<in> {CHR ''+'', CHR ''/'', CHR ''='', CHR ''.'', CHR ''_'', CHR ''-''}"

definition bearer_re :: re where
  "bearer_re = nocase (seqs [Wordb, Alt (lit ''Bearer'') (lit ''Basic''), plus (Cls py_space),
     Grp 1 (at_least 8 (Cls bearer_char)), Wordb])"

definition scheme_char :: "char \<Rightarrow> bool" where
  "scheme_char c \<longleftrightarrow> is_lower_char c \<or> py_digit c \<or> c \<in> {CHR ''+'', CHR ''.'', CHR ''-''}"

definition url_cred_re :: re where
  "url_cred_re = nocase (seqs [Wordb,
     Grp 1 (seqs [Cls is_lower_char, star (Cls scheme_char), lit ''://'',
       plus (Cls (\<lambda>c. \<not> py_space c \<and> c \<notin> {CHR '':'', CHR ''/'', CHR ''@''})), lit '':'']),
     Grp 2 (times_re 1 256 (Cls (\<lambda>c. \<not> py_space c \<and> c \<notin> {CHR ''/'', CHR ''@''}))), lit ''@''])"

definition key_word_char :: "char \<Rightarrow> bool" where
  "key_word_char c \<longleftrightarrow> is_upper_char c \<or> c = CHR '' ''"

definition private_key_re :: re where
  "private_key_re = seqs [lit ''-----BEGIN '', star (Cls key_word_char), lit ''PRIVATE KEY-----'',
     Rep False 0 None (Cls (\<lambda>_. True)),
     lit ''-----END '', star (Cls key_word_char), lit ''PRIVATE KEY-----'']"

definition any_quote :: "char \<Rightarrow> bool" where
  "any_quote c \<longleftrightarrow> c \<in> {CHR 0x27, CHR 0x22, CHR 0x60}"

definition low_dash :: re where
  "low_dash = opt (Cls (one_of ''_-''))"

definition secret_re :: re where
  "secret_re = nocase (seqs [Alt Wordb (Behind True is_lower_char),
     Grp 1 (alts [Seq (lit ''pass'') (opt (Alt (lit ''word'') (lit ''wd''))), lit ''pwd'', lit ''secret'',
       seqs [lit ''api'', low_dash, lit ''key''], seqs [lit ''access'', low_dash, lit ''key''],
       seqs [lit ''client'', low_dash, lit ''secret''], seqs [lit ''auth'', low_dash, lit ''token''],
       lit ''token'', lit ''credential'']),
     opt (lit ''s''), Wordb, opt (Cls any_quote), star (Cls py_space), Cls (one_of '':=''), star (Cls py_space),
     Grp 2 (opt (Cls any_quote)),
     Grp 3 (times_re 6 256 (Cls (\<lambda>c. \<not> py_space c \<and> \<not> any_quote c \<and> c \<notin> {CHR '','', CHR '';'', CHR 0x00}))),
     Backref 2])"

definition secret_value_re :: re where
  "secret_value_re = nocase (alts [
     seqs [lit ''$'', opt (lit ''{''), plus (Cls (\<lambda>c. is_upper_char c \<or> py_digit c \<or> c \<in> {CHR ''_'', CHR ''.''})), opt (lit ''}'')],
     seqs [lit ''%'', plus (Cls (\<lambda>c. is_upper_char c \<or> py_digit c \<or> c = CHR ''_'')), lit ''%''],
     seqs [lit ''<'', plus (Cls (\<lambda>c. c \<noteq> CHR ''>'')), lit ''>''],
     at_least 3 (lit ''*''), at_least 3 (lit ''x''),
     seqs [opt (lit ''[''), lit ''redacted'', opt (lit '']'')],
     seqs [lit ''[redacted-'', plus (Cls (\<lambda>c. is_lower_char c \<or> py_digit c \<or> c = CHR ''-'')), lit '']''],
     lit ''null'', lit ''none'', lit ''true'', lit ''false'', lit ''changeme'',
     seqs [lit ''your'', low_dash, plus (Cls word_char)], lit ''placeholder'', lit ''example''])"

definition code_shape_re :: re where
  "code_shape_re = alts [Seq Bol (lit ''(''),
     seqs [Bol, Cls (\<lambda>c. is_alpha_char c \<or> c = CHR ''_''), star (Cls word_char), lit ''(''],
     seqs [Bol, Cls (\<lambda>c. is_alpha_char c \<or> c = CHR ''_''), star (Cls word_char), lit ''.'', Cls word_char]]"

datatype label =
    PAN | CVV | TRACK | SSN | SSN_CTX | AWS_KEY | GITHUB_TOKEN | SLACK_TOKEN | STRIPE_KEY | GOOGLE_API_KEY
  | AZURE_SAS | TWILIO_KEY | JWT | BEARER | URL_CRED | PRIVATE_KEY | SECRET

fun label_text :: "label \<Rightarrow> pystr" where
  "label_text PAN = ''PAN''"
| "label_text CVV = ''CVV''"
| "label_text TRACK = ''TRACK''"
| "label_text SSN = ''SSN''"
| "label_text SSN_CTX = ''SSN-CTX''"
| "label_text AWS_KEY = ''AWS-KEY''"
| "label_text GITHUB_TOKEN = ''GITHUB-TOKEN''"
| "label_text SLACK_TOKEN = ''SLACK-TOKEN''"
| "label_text STRIPE_KEY = ''STRIPE-KEY''"
| "label_text GOOGLE_API_KEY = ''GOOGLE-API-KEY''"
| "label_text AZURE_SAS = ''AZURE-SAS''"
| "label_text TWILIO_KEY = ''TWILIO-KEY''"
| "label_text JWT = ''JWT''"
| "label_text BEARER = ''BEARER''"
| "label_text URL_CRED = ''URL-CRED''"
| "label_text PRIVATE_KEY = ''PRIVATE-KEY''"
| "label_text SECRET = ''SECRET''"

text \<open>The table, in the order of the passes; the validator is given the text and the match.\<close>

definition patterns :: "(label \<times> re \<times> (pystr \<Rightarrow> re_match \<Rightarrow> bool)) list" where
  "patterns =
     [(PAN, pan_re, \<lambda>s m. let d = only_digits (group_or s m 0) in cc_network d \<and> luhn d),
      (CVV, cvv_re, \<lambda>s m. True),
      (TRACK, track_re, \<lambda>s m. True),
      (SSN, ssn_re, \<lambda>s m. ssn_valid (group_or s m 1 @ group_or s m 2 @ group_or s m 3)),
      (SSN_CTX, ssn_ctx_re, \<lambda>s m. ssn_valid (group_or s m 2)),
      (AWS_KEY, aws_re, \<lambda>s m. True),
      (GITHUB_TOKEN, github_re, \<lambda>s m. True),
      (SLACK_TOKEN, slack_re, \<lambda>s m. True),
      (STRIPE_KEY, stripe_re, \<lambda>s m. True),
      (GOOGLE_API_KEY, google_re, \<lambda>s m. True),
      (AZURE_SAS, azure_re, \<lambda>s m. True),
      (TWILIO_KEY, twilio_re, \<lambda>s m. True),
      (JWT, jwt_re, \<lambda>s m. True),
      (BEARER, bearer_re, bearer_credential),
      (URL_CRED, url_cred_re, \<lambda>s m. True),
      (PRIVATE_KEY, private_key_re, \<lambda>s m. True),
      (SECRET, secret_re, \<lambda>s m. \<not> re_fullmatch secret_value_re (group_or s m 3))]"

section \<open>Masking\<close>

record mask_state =
  ms_counts :: "(label, int) pydict"
  ms_placeholders :: "pystr list"

definition nul :: char where "nul = CHR 0x00"

definition sentinel :: "nat \<Rightarrow> pystr" where
  "sentinel i = [nul] @ show_nat i @ [nul]"

definition placeholder :: "label \<Rightarrow> pystr" where
  "placeholder l = ''[REDACTED-'' @ label_text l @ '']''"

definition mask :: "label \<Rightarrow> mask_state \<Rightarrow> pystr \<times> mask_state" where
  "mask l st =
     (sentinel (length (ms_placeholders st)),
      \<lparr>ms_counts = dict_set l (dict_get_or (ms_counts st) l 0 + 1) (ms_counts st),
       ms_placeholders = ms_placeholders st @ [placeholder l]\<rparr>)"

text \<open>The text of the match before a group, and after it.\<close>

definition group_start :: "re_match \<Rightarrow> nat \<Rightarrow> nat" where
  "group_start m k = (case map_of (m_caps m) k of Some (a, b) \<Rightarrow> a | None \<Rightarrow> m_start m)"

definition group_end :: "re_match \<Rightarrow> nat \<Rightarrow> nat" where
  "group_end m k = (case map_of (m_caps m) k of Some (a, b) \<Rightarrow> b | None \<Rightarrow> m_end m)"

definition before_group :: "pystr \<Rightarrow> re_match \<Rightarrow> nat \<Rightarrow> pystr" where
  "before_group s m k = span_text s (m_start m) (group_start m k)"

definition strong_words :: "pystr list" where
  "strong_words = [''password'', ''passwd'', ''pwd'', ''apikey'', ''accesskey'', ''clientsecret'', ''authtoken'']"

text \<open>\<open>v.rstrip(").}]!?>")\<close>\<close>

definition rstrip_closers :: "pystr \<Rightarrow> pystr" where
  "rstrip_closers v = rev (dropWhile (one_of '').}]!?>'') (rev v))"

definition sub_secret :: "pystr \<Rightarrow> re_match \<Rightarrow> mask_state \<Rightarrow> pystr \<times> mask_state" where
  "sub_secret s m st =
     (let v = group_or s m 3; quoted = (group_or s m 2 \<noteq> []);
          core = (if quoted then v else if rstrip_closers v = [] then v else rstrip_closers v);
          core = (if length core < 6 then v else core);
          keyword = filter is_lower_char (py_lower (group_or s m 1));
          generic_unquoted = (keyword \<notin> set strong_words \<and> \<not> quoted);
          plain_word = (generic_unquoted \<and> list_all is_lower_char core \<and> length core < 20);
          code_shape = (generic_unquoted \<and> match_at code_shape_re core 0 \<noteq> None)
      in if plain_word \<or> code_shape then (group_or s m 0, st)
         else
           let (w, st) = mask SECRET st
           in (before_group s m 3 @ w @ drop (length core) v @ span_text s (group_end m 3) (m_end m), st))"

definition sub_match ::
    "label \<Rightarrow> (pystr \<Rightarrow> re_match \<Rightarrow> bool) \<Rightarrow> pystr \<Rightarrow> mask_state \<Rightarrow> re_match \<Rightarrow> pystr \<times> mask_state" where
  "sub_match l ok s st m =
     (if \<not> ok s m then (group_or s m 0, st)
      else case l of
        SECRET \<Rightarrow> sub_secret s m st
      | CVV \<Rightarrow> (let (w, st) = mask CVV st in (before_group s m 2 @ w, st))
      | SSN_CTX \<Rightarrow> (let (w, st) = mask SSN st in (before_group s m 2 @ w, st))
      | URL_CRED \<Rightarrow> (let (w, st) = mask URL_CRED st in (group_or s m 1 @ w @ ''@'', st))
      | _ \<Rightarrow> mask l st)"

fun mask_pass :: "(label \<times> re \<times> (pystr \<Rightarrow> re_match \<Rightarrow> bool)) list \<Rightarrow> pystr \<Rightarrow> mask_state \<Rightarrow> pystr \<times> mask_state" where
  "mask_pass [] s st = (s, st)"
| "mask_pass ((l, r, ok) # ps) s st =
     (let (s', st') = re_sub r (\<lambda>st m. sub_match l ok s st m) s st in mask_pass ps s' st')"

definition sentinel_re :: re where
  "sentinel_re = seqs [Cls (\<lambda>c. c = nul), Grp 1 (plus (Cls py_digit)), Cls (\<lambda>c. c = nul)]"

definition reinsert :: "pystr list \<Rightarrow> pystr \<Rightarrow> pystr" where
  "reinsert placeholders s =
     fst (re_sub sentinel_re (\<lambda>_ m.
       let idx = digits_val (group_or s m 1)
       in (if idx < length placeholders then placeholders ! idx else group_or s m 0, ())) s ())"

definition redact_impl :: "pystr \<Rightarrow> pystr \<times> (label, int) pydict" where
  "redact_impl text =
     (let text = filter (\<lambda>c. c \<noteq> nul) text;
          (out, st) = mask_pass patterns text \<lparr>ms_counts = [], ms_placeholders = []\<rparr>
      in (if ms_placeholders st = [] then out else reinsert (ms_placeholders st) out, ms_counts st))"

definition redact_counts :: "pystr \<Rightarrow> pystr \<times> (label, int) pydict" where
  "redact_counts text = (if text = [] then (text, []) else redact_impl text)"

definition redact :: "pystr \<Rightarrow> pystr" where
  "redact text = fst (redact_counts text)"

fun redact_tree :: "pyval \<Rightarrow> pyval" where
  "redact_tree (PDict m) = PDict (map (\<lambda>kv. (fst kv, redact_tree (snd kv))) m)"
| "redact_tree (PList vs) = PList (map redact_tree vs)"
| "redact_tree (PStr s) = PStr (redact s)"
| "redact_tree v = v"

section \<open>The partial card mask of the deep dive\<close>

definition s4_pan_re :: re where
  "s4_pan_re = seqs [Wordb, times_re 13 19 (Seq (Cls py_digit) (opt (Cls space_dash))), Wordb]"

definition card_ctx_re :: re where
  "card_ctx_re = nocase (seqs [Wordb,
     Grp 1 (alts [lit ''pan'', Seq (lit ''card'') number_word, Seq (lit ''cc'') number_word,
       seqs [lit ''credit'', star (Cls space_low_dash), lit ''card''], lit ''acct'', Seq (lit ''account'') number_word]),
     Wordb])"

fun mask_digits :: "nat \<Rightarrow> pystr \<Rightarrow> pystr" where
  "mask_digits kept [] = []"
| "mask_digits kept (c # cs) =
     (if py_digit c then (if kept < 4 then c else CHR ''X'') # mask_digits (Suc kept) cs
      else c # mask_digits kept cs)"

definition mask_pan :: "pystr \<Rightarrow> re_match \<Rightarrow> pystr" where
  "mask_pan text m =
     (let s = group_or text m 0; digits = only_digits s
      in if length digits < 13 then s
         else if \<not> (luhn digits \<or> re_search card_ctx_re (span_text text (m_start m - 48) (m_start m))) then s
         else mask_digits 0 s)"

definition redact_source :: "pystr \<Rightarrow> pystr" where
  "redact_source text =
     fst (redact_counts (fst (re_sub s4_pan_re (\<lambda>n m. (mask_pan text m, n)) text ())))"

end
