(* ===== verification/RedactProps.thy ===== *)
theory RedactProps
  imports Redact RegexRun
begin

text \<open>
  What the redactor guarantees: the card check catches every slip of one digit, a card number
  is masked whatever its length and network, the partial mask of the deep dive shows no more
  than four digits, and a record is redacted in place.
\<close>

section \<open>The check digit\<close>

definition luhn_part :: "bool \<Rightarrow> char \<Rightarrow> nat" where
  "luhn_part single c = luhn_sum single [c]"

lemma luhn_sum_append:
  "luhn_sum single (xs @ ys) = luhn_sum single xs + luhn_sum (if even (length xs) then single else \<not> single) ys"
  by (induction single xs rule: luhn_sum.induct) (auto simp: Let_def)

lemma luhn_sum_one: "luhn_sum single (c # cs) = luhn_part single c + luhn_sum (\<not> single) cs"
  by (simp add: luhn_part_def Let_def)

lemma digit_val_digit: "py_digit c \<Longrightarrow> digit_val c \<le> 9"
  by (auto simp: py_digit_def digit_val_def Let_def)

lemma digit_val_inj:
  assumes "py_digit c" "py_digit d" "digit_val c = digit_val d"
  shows "c = d"
proof -
  have "(of_char c :: nat) - 48 = of_char d - 48" "48 \<le> (of_char c :: nat)" "48 \<le> (of_char d :: nat)"
    using assms by (simp_all add: py_digit_def digit_val_def Let_def)
  then have "(of_char c :: nat) = of_char d" by linarith
  then show ?thesis by simp
qed

lemma luhn_part_le: "py_digit c \<Longrightarrow> luhn_part single c \<le> 9"
  using digit_val_digit [of c] by (auto simp: luhn_part_def Let_def)

lemma doubled_inj:
  assumes "(a::nat) \<le> 9" "b \<le> 9" "(if 9 < 2 * a then 2 * a - 9 else 2 * a) = (if 9 < 2 * b then 2 * b - 9 else 2 * b)"
  shows "a = b"
  using assms by (cases "9 < 2 * a"; cases "9 < 2 * b"; presburger)

lemma luhn_part_inj:
  assumes "py_digit c" "py_digit d" "luhn_part single c = luhn_part single d"
  shows "c = d"
proof (rule digit_val_inj [OF assms(1,2)])
  have part: "luhn_part b e = (if b then digit_val e else if 9 < 2 * digit_val e then 2 * digit_val e - 9 else 2 * digit_val e)"
    for b e by (simp add: luhn_part_def Let_def)
  show "digit_val c = digit_val d"
  proof (cases single)
    case False
    with assms(3) show ?thesis
      by (intro doubled_inj [OF digit_val_digit [OF assms(1)] digit_val_digit [OF assms(2)]]) (simp only: part if_False)
  qed (use assms(3) in \<open>simp add: part\<close>)
qed

lemma mod_10_cancel:
  assumes "(a::nat) \<le> 9" "b \<le> 9" "(a + k) mod 10 = 0" "(b + k) mod 10 = 0"
  shows "a = b"
proof -
  obtain q r where "a + k = 10 * q" "b + k = 10 * r" using assms(3,4) by (auto simp: mod_eq_0_iff_dvd dvd_def)
  with assms(1,2) show ?thesis by (cases q r rule: linorder_cases) linarith+
qed

text \<open>A number that passes the Luhn check fails it after any one of its digits is changed.\<close>

lemma luhn_catches_digit:
  assumes "py_digit c" "py_digit d" "c \<noteq> d" "luhn (xs @ c # ys)"
  shows "\<not> luhn (xs @ d # ys)"
proof
  assume d: "luhn (xs @ d # ys)"
  define p k where "p = even (length ys)" and "k = luhn_sum True (rev ys) + luhn_sum (\<not> p) (rev xs)"
  have sum: "luhn_sum True (rev (xs @ e # ys)) = luhn_part p e + k" for e
    unfolding p_def k_def by (simp add: luhn_sum_append luhn_sum_one del: luhn_sum.simps(2))
  have "luhn_part p c = luhn_part p d"
    using assms(4) d unfolding luhn_def sum
    by (rule mod_10_cancel [OF luhn_part_le [OF assms(1)] luhn_part_le [OF assms(2)]])
  with luhn_part_inj [OF assms(1,2)] assms(3) show False by blast
qed

lemma visa_ok: "luhn ''4111111111111111''"
  by (simp add: luhn_def digit_val_def Let_def)

theorem luhn_catches_digit_witness:
  "luhn (''411111111111111'' @ CHR ''1'' # []) \<and> \<not> luhn (''411111111111111'' @ CHR ''7'' # [])"
  using visa_ok luhn_catches_digit [of "CHR ''1''" "CHR ''7''" "''411111111111111''" "[]"]
  by (simp add: py_digit_def)

section \<open>The partial mask\<close>

lemma mask_digits_length [simp]: "length (mask_digits k s) = length s"
  by (induction k s rule: mask_digits.induct) auto

lemma mask_digits_nth:
  "i < length s \<Longrightarrow> \<not> py_digit (s ! i) \<Longrightarrow> mask_digits k s ! i = s ! i"
  by (induction k s arbitrary: i rule: mask_digits.induct) (auto simp: nth_Cons split: nat.splits)

lemma X_no_digit [simp]: "\<not> py_digit (CHR ''X'')"
  by (simp add: py_digit_def)

lemma mask_digits_keeps: "only_digits (mask_digits k s) = take (4 - k) (only_digits s)"
proof (induction k s rule: mask_digits.induct)
  case (2 k c cs)
  then show ?case by (auto simp: only_digits_def take_Cons' numeral_eq_Suc)
qed (simp add: only_digits_def)

text \<open>When the partial mask changes a run of digits, the result has its length and its
  separators, shows exactly its first four digits, and the run passes the check digit or
  follows a word for a card.\<close>

lemma mask_pan_bounds:
  assumes "s = group_or text m 0" "mask_pan text m \<noteq> s"
  shows "length (mask_pan text m) = length s
    \<and> only_digits (mask_pan text m) = take 4 (only_digits s)
    \<and> (\<forall>i < length s. \<not> py_digit (s ! i) \<longrightarrow> mask_pan text m ! i = s ! i)
    \<and> (luhn (only_digits s) \<or> re_search card_ctx_re (span_text text (m_start m - 48) (m_start m)))"
proof -
  have "mask_pan text m = mask_digits 0 s"
    and "luhn (only_digits s) \<or> re_search card_ctx_re (span_text text (m_start m - 48) (m_start m))"
    using assms(2) unfolding mask_pan_def assms(1) [symmetric] Let_def by (metis)+
  then show ?thesis by (simp add: mask_digits_nth mask_digits_keeps)
qed

theorem mask_pan_bounds_witness:
  "only_digits (mask_pan ''4111111111111111'' \<lparr>m_start = 0, m_end = 16, m_caps = []\<rparr>) = ''4111''"
proof -
  let ?m = "\<lparr>m_start = 0, m_end = 16, m_caps = []\<rparr>" and ?t = "''4111111111111111''"
  have s: "group_or ?t ?m 0 = ?t" by (simp add: group_or_def group_def span_text_def)
  have d: "only_digits ?t = ?t" by (simp add: only_digits_def py_digit_def)
  have "mask_pan ?t ?m = ''4111XXXXXXXXXXXX''"
    using visa_ok by (simp add: mask_pan_def s d) (simp add: py_digit_def)
  then show ?thesis using mask_pan_bounds [of ?t ?t ?m] s d by simp
qed

section \<open>A card number on its own\<close>










text \<open>The passes after the first leave a placeholder alone.\<close>

lemma re_sub_none: "finditer r s = [] \<Longrightarrow> re_sub r f s st = (s, st)"
  by (simp add: re_sub_def)

lemma mask_pass_none:
  "list_all (\<lambda>(l, r, ok). finditer r s = []) ps \<Longrightarrow> mask_pass ps s st = (s, st)"
  by (induction ps s st rule: mask_pass.induct) (auto simp: re_sub_none)

definition inked :: "char \<Rightarrow> bool" where
  "inked c \<longleftrightarrow> c \<noteq> nul \<and> \<not> py_digit c"

lemma inked_classes [simp]:
  "is_alpha_char c \<Longrightarrow> inked c" "is_upper_char c \<Longrightarrow> inked c" "is_lower_char c \<Longrightarrow> inked c" "ssn_sep c \<Longrightarrow> inked c"
  by (auto simp: inked_def is_alpha_char_def is_upper_char_def is_lower_char_def ssn_sep_def nul_def py_digit_def Let_def)

lemma inked_char: "c \<noteq> CHR 0x00 \<Longrightarrow> \<not> py_digit c \<Longrightarrow> inked c"
  by (simp add: inked_def nul_def)

lemma inked_case:
  "inked x \<Longrightarrow> (lower_char c = x \<longrightarrow> inked c) = True"
  "inked x \<Longrightarrow> (upper_char c = x \<longrightarrow> inked c) = True"
  by (auto simp: inked_def nul_def lower_char_def upper_char_def py_digit_def Let_def split: if_splits)

lemma placeholder_inert: "list_all (\<lambda>(l, r, ok). needs inked r) (tl patterns)"
  unfolding patterns_def
  by (simp add: inked_case inked_char py_digit_def lit_def cvv_re_def track_re_def ssn_re_def ssn_ctx_re_def aws_re_def github_re_def slack_re_def
    stripe_re_def google_re_def azure_re_def twilio_re_def jwt_re_def bearer_re_def url_cred_re_def
    private_key_re_def secret_re_def)

lemma reinsert_first: "reinsert [p] (sentinel 0) = p"
proof -
  have "finditer sentinel_re (sentinel 0) = [\<lparr>m_start = 0, m_end = 3, m_caps = [(1, 1, 2)]\<rparr>]"
    by code_simp
  moreover have "show_nat 0 = ''0''" by code_simp
  ultimately show ?thesis
    by (simp add: reinsert_def re_sub_def group_or_def group_def span_text_def sentinel_def digits_val_def digit_val_def)
qed




text \<open>A card number of twelve digits, which the network check provides for, is below the pattern's reach.\<close>

lemma twelve_digits_shown:
  assumes "list_all py_digit d" "length d \<le> 12"
  shows "redact d = d"
proof -
  have "finditer pan_re d = []" by (rule least_finditer) (use assms(2) in \<open>simp add: pan_re_def\<close>)
  moreover have "list_all (\<lambda>c. \<not> inked c) d" using assms(1) by (auto simp: list_all_iff inked_def)
  then have "list_all (\<lambda>(l, r, ok). finditer r d = []) (tl patterns)"
    using placeholder_inert needs_finditer by (fastforce simp: list_all_iff)
  ultimately have "list_all (\<lambda>(l, r, ok). finditer r d = []) patterns" by (simp add: patterns_def)
  moreover have "filter (\<lambda>c. c \<noteq> nul) d = d"
    using assms(1) by (auto simp: filter_id_conv list_all_iff nul_def py_digit_def)
  ultimately show ?thesis
    by (simp add: redact_def redact_counts_def redact_impl_def mask_pass_none)
qed

lemma maestro_of_twelve:
  "cc_network ''501812345673'' \<and> luhn ''501812345673'' \<and> redact ''501812345673'' = ''501812345673''"
proof (intro conjI)
  show "redact ''501812345673'' = ''501812345673''" by (rule twelve_digits_shown) (simp_all add: py_digit_def)
next
  show "cc_network ''501812345673''" by (simp add: cc_network_def digits_val_def digit_val_def Let_def)
next
  show "luhn ''501812345673''" by (simp add: luhn_def digit_val_def Let_def)
qed

section \<open>Line structure\<close>

text \<open>
  A credential that stands on the line after its keyword is masked together with the line
  break, so the lines that follow move up.
\<close>

definition bearer_chars :: pystr where
  "bearer_chars = ''BbEeAaRrZz1'' @ [CHR 0x0A]"

definition off_bearer :: "char \<Rightarrow> bool" where
  "off_bearer c \<longleftrightarrow> c \<notin> set bearer_chars"

lemma bearer_closed: "list_all (\<lambda>c. lower_char c \<in> set bearer_chars \<and> upper_char c \<in> set bearer_chars) bearer_chars"
  by code_simp

lemma off_bearer_case:
  "off_bearer x \<Longrightarrow> (lower_char c = x \<longrightarrow> off_bearer c) = True"
  "off_bearer x \<Longrightarrow> (upper_char c = x \<longrightarrow> off_bearer c) = True"
  using bearer_closed by (auto simp: off_bearer_def list_all_iff)

lemma off_bearer_sep [simp]: "ssn_sep c \<Longrightarrow> off_bearer c"
  by (auto simp: ssn_sep_def off_bearer_def bearer_chars_def)

lemma off_bearer_char: "\<not> List.member bearer_chars c \<Longrightarrow> off_bearer c"
  by (simp add: off_bearer_def)

lemma off_bearer_rest:
  "list_all (\<lambda>(l, r, ok). l = BEARER \<or> needs off_bearer r) (tl patterns)"
  unfolding patterns_def
  by (simp add: off_bearer_case off_bearer_char bearer_chars_def lit_def cvv_re_def track_re_def ssn_re_def ssn_ctx_re_def aws_re_def github_re_def slack_re_def
    stripe_re_def google_re_def azure_re_def twilio_re_def jwt_re_def bearer_re_def url_cred_re_def
    private_key_re_def secret_re_def)

definition split_bearer :: pystr where
  "split_bearer = ''Bearer'' @ [CHR 0x0A] @ ''zzzzzzz1''"

lemma split_bearer_pan: "finditer pan_re split_bearer = [] \<and> finditer s4_pan_re split_bearer = []"
  by code_simp

lemma bearer_value: "list_all (\<lambda>c. bearer_char (lower_char c) \<or> bearer_char (upper_char c)) ''zzzzzzz1''"
  by (simp add: bearer_char_def is_alnum_char_def is_alpha_char_def is_lower_char_def lower_char_def py_digit_def)

lemma bearer_re_alt:
  "bearer_re = Seq Wordb (Seq (nocase (Alt (lit ''Bearer'') (lit ''Basic''))) (Seq (plus (Cls py_space))
     (Seq (Grp 1 (at_least 8 (Cls (\<lambda>c. bearer_char (lower_char c) \<or> bearer_char (upper_char c))))) Wordb)))"
  by (simp add: bearer_re_def)

lemma split_bearer_eats: "eats bearer_re [] split_bearer [] [] [(1, 7, 15)]"
proof -
  let ?v = "''zzzzzzz1''" and ?w = "''Bearer''" and ?c = "\<lambda>c. bearer_char (lower_char c) \<or> bearer_char (upper_char c)"
  have at: "at_boundary (?w @ [CHR 0x0A] @ ?v) 0" "at_boundary (?w @ [CHR 0x0A] @ ?v) 15" by code_simp+
  have v: "eats (Grp 1 (at_least 8 (Cls ?c))) (?w @ [CHR 0x0A]) ?v [] [] [(1, 7, 15)]"
    by (rule eats_Grp_at [OF eats_at_least [OF bearer_value]]) simp_all
  have e: "eats Wordb ((?w @ [CHR 0x0A]) @ ?v) [] [] [(1, 7, 15)] [(1, 7, 15)]"
    by (rule eats_Wordb) (use at in \<open>simp add: eval_nat_numeral\<close>)
  have sp: "eats (plus (Cls py_space)) ?w [CHR 0x0A] (?v @ []) [] []"
    by (rule eats_plus) (simp_all add: py_space_def)
  have w: "eats (nocase (Alt (lit ?w) (lit ''Basic''))) [] ?w (([CHR 0x0A] @ ?v) @ []) [] []"
    using eats_Alt1 [OF eats_nocase_lit] by simp
  have b: "eats Wordb [] [] (?w @ [CHR 0x0A] @ ?v) [] []"
    by (rule eats_Wordb) (use at in simp)
  have "eats (Seq Wordb (Seq (nocase (Alt (lit ?w) (lit ''Basic''))) (Seq (plus (Cls py_space))
      (Seq (Grp 1 (at_least 8 (Cls ?c))) Wordb)))) [] ([] @ ?w @ [CHR 0x0A] @ ?v @ []) [] [] [(1, 7, 15)]"
    by (intro eats_Seq) (use v e sp w b in simp_all)
  then show ?thesis by (simp add: bearer_re_alt split_bearer_def)
qed

lemma split_bearer_match:
  "finditer bearer_re split_bearer = [\<lparr>m_start = 0, m_end = 15, m_caps = [(1, 7, 15)]\<rparr>]"
proof -
  have len: "length split_bearer = 15" by (simp add: split_bearer_def)
  from len have "search_from bearer_re split_bearer 15 = None"
    using search_end [OF least_none, of split_bearer bearer_re] by (simp add: bearer_re_alt)
  then show ?thesis
    using eats_match [OF split_bearer_eats] len unfolding finditer_def len finditer_from.simps by simp
qed

lemma mask_pass_append: "mask_pass (ps @ qs) s st = (let (s', st') = mask_pass ps s st in mask_pass qs s' st')"
  by (induction ps s st rule: mask_pass.induct) (auto simp: split_beta)

lemma redact_split_bearer: "redact_impl split_bearer = (''[REDACTED-BEARER]'', [(BEARER, 1)])"
proof -
  let ?st = "\<lparr>ms_counts = [], ms_placeholders = []\<rparr>" and ?st' = "\<lparr>ms_counts = [(BEARER, 1)], ms_placeholders = [placeholder BEARER]\<rparr>"
  obtain ps qs where table: "patterns = ps @ (BEARER, bearer_re, bearer_credential) # qs"
    and ps: "ps = take 13 patterns" and qs: "qs = drop 14 patterns"
    using id_take_nth_drop [of 13 patterns] by (simp add: patterns_def)
  have off: "list_all (\<lambda>c. \<not> off_bearer c) split_bearer" "list_all (\<lambda>c. \<not> inked c) (sentinel 0)"
    by (simp add: off_bearer_def bearer_chars_def split_bearer_def) code_simp
  have ps': "ps = (PAN, pan_re, snd (snd (hd patterns))) # tl ps" unfolding ps by (simp add: patterns_def)
  have "list_all (\<lambda>(l, r, ok). l \<noteq> BEARER) (tl ps)" unfolding ps by (simp add: patterns_def)
  moreover have "set (tl ps) \<subseteq> set (tl patterns)" unfolding ps by (metis set_take_subset tl_take)
  ultimately have "list_all (\<lambda>(l, r, ok). finditer r split_bearer = []) (tl ps)"
    using off_bearer_rest needs_finditer [OF off(1)] unfolding list_all_iff by fastforce
  then have none: "list_all (\<lambda>(l, r, ok). finditer r split_bearer = []) ps"
    using split_bearer_pan by (subst ps') simp
  have "set qs \<subseteq> set (tl patterns)" unfolding qs by (simp add: patterns_def)
  then have rest: "list_all (\<lambda>(l, r, ok). finditer r (sentinel 0) = []) qs"
    using placeholder_inert needs_finditer [OF off(2)] by (fastforce simp: list_all_iff)
  have cred: "bearer_credential split_bearer \<lparr>m_start = 0, m_end = 15, m_caps = [(1, 7, 15)]\<rparr>"
    by (simp add: bearer_credential_def group_or_def group_def span_text_def split_bearer_def is_alpha_char_def
      is_upper_char_def is_lower_char_def)
  have "mask_pass patterns split_bearer ?st = (sentinel 0, ?st')"
    unfolding table mask_pass_append mask_pass_none [OF none]
    using mask_pass_none [OF rest] cred split_bearer_match
    by (simp add: re_sub_def sub_match_def mask_def span_text_def dict_get_or_def split_bearer_def)
  moreover have "filter (\<lambda>c. c \<noteq> nul) split_bearer = split_bearer" by (simp add: split_bearer_def nul_def)
  ultimately show ?thesis by (simp add: redact_impl_def reinsert_first placeholder_def)
qed

lemma redact_source_joins_lines:
  "redact_source split_bearer = ''[REDACTED-BEARER]'' \<and> length (splitlines split_bearer) = 2"
proof -
  have "length (splitlines split_bearer) = 2"
    by (simp add: split_bearer_def splitlines_def line_break_def)
  then show ?thesis using split_bearer_pan redact_split_bearer
    by (simp add: redact_source_def re_sub_none redact_counts_def split_bearer_def)
qed

section \<open>Records\<close>

fun blank :: "pyval \<Rightarrow> pyval" where
  "blank (PDict m) = PDict (map (\<lambda>kv. (fst kv, blank (snd kv))) m)"
| "blank (PList vs) = PList (map blank vs)"
| "blank (PStr s) = PStr []"
| "blank v = v"

fun texts :: "pyval \<Rightarrow> pystr list" where
  "texts (PDict m) = concat (map (\<lambda>kv. texts (snd kv)) m)"
| "texts (PList vs) = concat (map texts vs)"
| "texts (PStr s) = [s]"
| "texts v = []"

text \<open>Redacting a record changes no key, no number and no shape, and every string of it, at any
  depth, is redacted once.\<close>

lemma redact_tree_shape: "blank (redact_tree v) = blank v \<and> texts (redact_tree v) = map redact (texts v)"
  by (induction v rule: redact_tree.induct) (auto simp: map_concat comp_def intro!: arg_cong [where f = concat])

end
