(* ===== verification/Coerce.thy ===== *)
theory Coerce
  imports Select Binary64 PyVal
begin

text \<open>
  How the data model reads the values of a model's reply (\<open>models.py\<close>): the coercion helpers,
  the tables of members and synonyms, and the validator of each field that must be a member
  of a fixed set.  \<open>rep\<close> is the interpreter's text of a float, a list or a dict.
\<close>

section \<open>Helpers\<close>

definition norm_text :: "(pyval \<Rightarrow> pystr) \<Rightarrow> pyval \<Rightarrow> pystr" where
  "norm_text rep v =
     replace_char (CHR '' '') (CHR ''_'') (replace_char (CHR ''-'') (CHR ''_'')
       (py_lower (py_strip (py_str rep (py_or v (PStr []))))))"

definition coerce_enum ::
    "(pyval \<Rightarrow> pystr) \<Rightarrow> pyval \<Rightarrow> pystr list \<Rightarrow> (pystr, pystr) pydict \<Rightarrow> pystr \<Rightarrow> pystr" where
  "coerce_enum rep v valid alias dflt =
     (let raw = py_strip (py_str rep (py_or v (PStr []))) in
      if raw \<in> set valid then raw
      else let k = norm_text rep v in if k \<in> set valid then k else dict_get_or alias k dflt)"

text \<open>\<open>int(s)\<close> on a stripped text; the interpreter refuses more than 4300 digits.\<close>

definition int_of_text :: "pystr \<Rightarrow> int option" where
  "int_of_text s = (if 4300 < length (filter py_digit s) then None else parse_int s)"

definition coerce_int :: "(pyval \<Rightarrow> pystr) \<Rightarrow> pyval \<Rightarrow> int \<Rightarrow> int" where
  "coerce_int rep v dflt =
     (case v of
        PBool _ \<Rightarrow> dflt
      | PInt i \<Rightarrow> i
      | PFloat x \<Rightarrow> (if x < 0 then \<lceil>x\<rceil> else \<lfloor>x\<rfloor>)
      | PNan \<Rightarrow> dflt
      | PInf _ \<Rightarrow> dflt
      | _ \<Rightarrow> (case int_of_text (py_strip (py_str rep v)) of Some i \<Rightarrow> i | None \<Rightarrow> dflt))"

text \<open>
  \<open>float(s)\<close>: an optional sign, then \<open>inf\<close>, \<open>infinity\<close> or \<open>nan\<close>, or digits with at most one
  point and an optional exponent, rounded to the nearest double; the value overflows to an
  infinity.
\<close>

definition float_limit :: rat where "float_limit = 2 ^ 1024"

definition double_of :: "rat \<Rightarrow> pyval" where
  "double_of x = (if float_limit \<le> \<bar>fl x\<bar> then PInf (0 < x) else PFloat (fl x))"

definition digits_of_groups :: "pystr \<Rightarrow> pystr option" where
  "digits_of_groups s =
     (if s = [] then Some [] else if digit_groups s then Some (filter (\<lambda>c. c \<noteq> CHR ''_'') s) else None)"

definition mantissa :: "pystr \<Rightarrow> (pystr \<times> pystr) option" where
  "mantissa s =
     (let ps = split_on (CHR ''.'') s; a = hd ps; b = (if length ps = 2 then ps ! 1 else []) in
      if 2 < length ps then None
      else case (digits_of_groups a, digits_of_groups b) of
             (Some x, Some y) \<Rightarrow> (if x @ y = [] then None else Some (x, y))
           | _ \<Rightarrow> None)"

definition float_of_text :: "pystr \<Rightarrow> pyval option" where
  "float_of_text s =
     (let neg = prefix ''-'' s; body = py_lower (if neg \<or> prefix ''+'' s then drop 1 s else s) in
      if body \<in> {''inf'', ''infinity''} then Some (PInf (\<not> neg))
      else if body = ''nan'' then Some PNan
      else
        let ps = split_on (CHR ''e'') body in
        if 2 < length ps then None
        else case (mantissa (hd ps), if length ps = 2 then parse_int (ps ! 1) else Some 0) of
               (Some (x, y), Some e) \<Rightarrow>
                 Some (double_of ((if neg then -1 else 1) * of_nat (digits_val (x @ y)) * 10 powi (e - int (length y))))
             | _ \<Rightarrow> None)"

datatype float_error = OverflowError

definition clamp_unit :: "rat \<Rightarrow> rat" where
  "clamp_unit f = min 1 (max 0 f)"

definition scale_confidence :: "rat \<Rightarrow> rat \<Rightarrow> rat" where
  "scale_confidence dflt f =
     clamp_unit
       (if 2 \<le> f \<and> f \<le> 10 \<and> f = of_int \<lfloor>f\<rfloor> then fl (f / 10)
        else if 2 \<le> f \<and> f \<le> 100 then fl (f / 100)
        else f)"

definition conf_text_of :: "(pyval \<Rightarrow> pystr) \<Rightarrow> pyval \<Rightarrow> pystr" where
  "conf_text_of rep v =
     py_strip (rev (dropWhile (\<lambda>c. c = CHR ''%'') (rev (py_strip (if v = PNone then [] else py_str rep v)))))"

definition coerce_confidence :: "(pyval \<Rightarrow> pystr) \<Rightarrow> pyval \<Rightarrow> rat \<Rightarrow> float_error + rat" where
  "coerce_confidence rep v dflt =
     (let finish = (\<lambda>w. case w of PFloat f \<Rightarrow> scale_confidence dflt f | _ \<Rightarrow> dflt) in
      case v of
        PBool _ \<Rightarrow> Inr dflt
      | PInt i \<Rightarrow> (if float_limit \<le> \<bar>fl (of_int i)\<bar> then Inl OverflowError else Inr (finish (PFloat (fl (of_int i)))))
      | PFloat f \<Rightarrow> Inr (finish v)
      | PNan \<Rightarrow> Inr dflt
      | PInf _ \<Rightarrow> Inr dflt
      | _ \<Rightarrow>
          (case float_of_text (conf_text_of rep v) of
             None \<Rightarrow> Inr dflt
           | Some w \<Rightarrow> Inr (finish w)))"

section \<open>Members and synonyms\<close>

definition control_kinds :: "pystr list" where
  "control_kinds =
    [''auth'', ''sandbox'', ''input-validation'', ''aslr'', ''cfi'', ''other'']"

definition sensitivities :: "pystr list" where
  "sensitivities =
    [''low'', ''medium'', ''high'', ''critical'']"

definition actors :: "pystr list" where
  "actors =
    [''remote_unauth'', ''remote_auth'', ''adjacent_network'', ''local_user'', ''local_admin'',
     ''supply_chain'', ''insider'']"

definition impacts :: "pystr list" where
  "impacts =
    [''low'', ''medium'', ''high'', ''critical'', ''existential'']"

definition likelihoods :: "pystr list" where
  "likelihoods =
    [''very_rare'', ''rare'', ''possible'', ''likely'', ''almost_certain'']"

definition ep_kinds :: "pystr list" where
  "ep_kinds =
    [''network'', ''ipc'', ''file'', ''cli'', ''deserialization'', ''framework'', ''other'']"

definition chunk_sizes :: "pystr list" where
  "chunk_sizes =
    [''small'', ''medium'', ''large'']"

definition control_kind_alias :: "(pystr, pystr) pydict" where
  "control_kind_alias =
    [(''authn'', ''auth''), (''authentication'', ''auth''), (''authz'', ''auth''),
     (''authorization'', ''auth''), (''rbac'', ''auth''), (''iam'', ''auth''), (''sso'', ''auth''),
     (''waf'', ''input-validation''), (''validation'', ''input-validation''),
     (''input_validation'', ''input-validation''), (''sanitization'', ''input-validation''),
     (''sanitisation'', ''input-validation''), (''encoding'', ''input-validation''),
     (''seccomp'', ''sandbox''), (''container'', ''sandbox''), (''isolation'', ''sandbox''),
     (''chroot'', ''sandbox''), (''jail'', ''sandbox'')]"

definition sensitivity_alias :: "(pystr, pystr) pydict" where
  "sensitivity_alias =
    [(''none'', ''low''), (''info'', ''low''), (''informational'', ''low''), (''minor'', ''low''),
     (''moderate'', ''medium''), (''med'', ''medium''), (''normal'', ''medium''), (''major'', ''high''),
     (''severe'', ''high''), (''important'', ''high''), (''crit'', ''critical''),
     (''blocker'', ''critical''), (''extreme'', ''critical'')]"

definition actor_alias :: "(pystr, pystr) pydict" where
  "actor_alias =
    [(''external'', ''remote_unauth''), (''anonymous'', ''remote_unauth''),
     (''unauthenticated'', ''remote_unauth''), (''internet'', ''remote_unauth''),
     (''public'', ''remote_unauth''), (''attacker'', ''remote_unauth''),
     (''authenticated'', ''remote_auth''), (''user'', ''remote_auth''), (''tenant'', ''remote_auth''),
     (''customer'', ''remote_auth''), (''internal'', ''adjacent_network''),
     (''network'', ''adjacent_network''), (''lan'', ''adjacent_network''),
     (''adjacent'', ''adjacent_network''), (''local'', ''local_user''), (''physical'', ''local_user''),
     (''admin'', ''local_admin''), (''root'', ''local_admin''), (''operator'', ''local_admin''),
     (''privileged'', ''local_admin''), (''supply'', ''supply_chain''), (''dependency'', ''supply_chain''),
     (''third_party'', ''supply_chain''), (''vendor'', ''supply_chain''), (''employee'', ''insider''),
     (''developer'', ''insider''), (''malicious_insider'', ''insider'')]"

definition likelihood_alias :: "(pystr, pystr) pydict" where
  "likelihood_alias =
    [(''very_unlikely'', ''very_rare''), (''negligible'', ''very_rare''), (''remote'', ''very_rare''),
     (''improbable'', ''very_rare''), (''unlikely'', ''rare''), (''low'', ''rare''),
     (''moderate'', ''possible''), (''medium'', ''possible''), (''occasional'', ''possible''),
     (''probable'', ''likely''), (''high'', ''likely''), (''frequent'', ''likely''),
     (''very_likely'', ''almost_certain''), (''certain'', ''almost_certain''),
     (''definite'', ''almost_certain''), (''inevitable'', ''almost_certain'')]"

definition ep_kind_alias :: "(pystr, pystr) pydict" where
  "ep_kind_alias =
    [(''rpc'', ''network''), (''grpc'', ''network''), (''http'', ''network''), (''https'', ''network''),
     (''rest'', ''network''), (''api'', ''network''), (''graphql'', ''network''),
     (''websocket'', ''network''), (''ws'', ''network''), (''soap'', ''network''), (''tcp'', ''network''),
     (''udp'', ''network''), (''socket'', ''network''), (''webhook'', ''network''),
     (''endpoint'', ''network''), (''queue'', ''ipc''), (''message'', ''ipc''), (''mq'', ''ipc''),
     (''kafka'', ''ipc''), (''amqp'', ''ipc''), (''jms'', ''ipc''), (''pubsub'', ''ipc''),
     (''event'', ''ipc''), (''signal'', ''ipc''), (''pipe'', ''ipc''), (''bus'', ''ipc''),
     (''stdin'', ''cli''), (''argv'', ''cli''), (''command'', ''cli''), (''arg'', ''cli''),
     (''config'', ''file''), (''env'', ''file''), (''filesystem'', ''file''), (''fs'', ''file''),
     (''deserialize'', ''deserialization''), (''serde'', ''deserialization''),
     (''unmarshal'', ''deserialization''), (''parse'', ''deserialization''),
     (''pickle'', ''deserialization''), (''json'', ''deserialization''), (''spring'', ''framework''),
     (''django'', ''framework''), (''aspnet'', ''framework'')]"

definition chunk_size_alias :: "(pystr, pystr) pydict" where
  "chunk_size_alias =
    [(''xs'', ''small''), (''tiny'', ''small''), (''s'', ''small''), (''m'', ''medium''),
     (''med'', ''medium''), (''moderate'', ''medium''), (''normal'', ''medium''),
     (''dflt'', ''medium''), (''l'', ''large''), (''xl'', ''large''), (''xxl'', ''large''),
     (''big'', ''large''), (''huge'', ''large''), (''x_large'', ''large'')]"

definition impact_alias :: "(pystr, pystr) pydict" where
  "impact_alias = sensitivity_alias @ [(''catastrophic'', ''existential''), (''fatal'', ''existential'')]"

definition taint_transfer_kinds :: "pystr list" where
  "taint_transfer_kinds =
    [''source'', ''assign'', ''arg_to_param'', ''return_to_local'', ''return_to_sink'', ''local_to_sink'',
     ''field_write'', ''field_read'', ''container_put'', ''container_get'', ''sanitize'']"

definition call_types :: "pystr list" where
  "call_types = [''getmethod'', ''invoke'', ''getattr'', ''construct'', ''delegate'']"

definition marker_types :: "pystr list" where
  "marker_types =
    [''spring_annotation'', ''django_view'', ''aspnet_annotation'', ''spring_implicit'', ''django_dict_access'',
     ''aspnet_implicit'']"

definition marker_alias :: "(pystr, pystr) pydict" where
  "marker_alias =
    [(''spring'', ''spring_annotation''), (''django'', ''django_view''), (''aspnet'', ''aspnet_annotation''),
     (''request.get'', ''django_dict_access''), (''request.post'', ''django_dict_access'')]"

definition frameworks :: "pystr list" where
  "frameworks = [''spring'', ''django'', ''aspnet'']"

definition response_types :: "pystr list" where
  "response_types = [''json'', ''html'', ''text'', ''xml'']"

definition response_alias :: "(pystr, pystr) pydict" where
  "response_alias =
    [(''response'', ''html''), (''jsonresponse'', ''json''), (''httpresponse'', ''html''), (''render'', ''html''),
     (''ok'', ''json''), (''content'', ''text'')]"

section \<open>The validators of the fields\<close>

definition v_control_kind where
  "v_control_kind rep v = coerce_enum rep v control_kinds control_kind_alias ''other''"

definition v_sensitivity where
  "v_sensitivity rep v = coerce_enum rep v sensitivities sensitivity_alias ''medium''"

definition v_actor where
  "v_actor rep v = coerce_enum rep v actors actor_alias ''remote_auth''"

definition v_impact where
  "v_impact rep v = coerce_enum rep v impacts impact_alias ''medium''"

definition v_likelihood where
  "v_likelihood rep v = coerce_enum rep v likelihoods likelihood_alias ''possible''"

definition v_ep_kind where
  "v_ep_kind rep v = coerce_enum rep v ep_kinds ep_kind_alias ''other''"

definition v_chunk_size where
  "v_chunk_size rep v = coerce_enum rep v chunk_sizes chunk_size_alias ''medium''"

definition v_risk_rank where
  "v_risk_rank rep v = coerce_int rep v 999"

definition v_sink_line where
  "v_sink_line rep v = coerce_int rep v 0"

definition v_loc where
  "v_loc rep v = coerce_int rep v 0"

fun v_call_type :: "(pyval \<Rightarrow> pystr) \<Rightarrow> pyval \<Rightarrow> pystr" where
  "v_call_type rep (PStr s) =
     (let k = norm_text rep (PStr s) in if k \<in> set call_types then k else ''invoke'')"
| "v_call_type rep _ = ''invoke''"

definition v_reflect_confidence where
  "v_reflect_confidence rep v = coerce_enum rep v [''low'', ''medium'', ''high''] [] ''medium''"

definition v_marker_type where
  "v_marker_type rep v = coerce_enum rep v marker_types marker_alias ''spring_annotation''"

definition v_framework where
  "v_framework rep v = coerce_enum rep v frameworks [] ''spring''"

definition v_marker_confidence where
  "v_marker_confidence rep v =
     coerce_enum rep v [''high'', ''medium''] [(''explicit'', ''high''), (''implicit'', ''medium'')] ''high''"

definition v_response_type where
  "v_response_type rep v = coerce_enum rep v response_types response_alias ''json''"

definition v_edge_marker_type where
  "v_edge_marker_type rep v = coerce_enum rep v marker_types (take 3 marker_alias) ''spring_annotation''"

definition v_condition_text :: "(pyval \<Rightarrow> pystr) \<Rightarrow> pyval \<Rightarrow> pystr" where
  "v_condition_text rep v = py_strip (py_str rep (py_or v (PStr [])))"

definition v_finding_confidence where
  "v_finding_confidence rep v = coerce_confidence rep v (1 / 2)"

text \<open>
  The validator of an edge's kind runs before the field is checked against its set, and the
  edges of conditions, reflection and frameworks inherit it with the set replaced by a single
  kind of their own.  \<open>None\<close> is the refusal of the check.
\<close>

fun v_transfer_kind :: "pyval \<Rightarrow> pyval" where
  "v_transfer_kind (PStr s) = (if s \<notin> set taint_transfer_kinds then PStr ''assign'' else PStr s)"
| "v_transfer_kind v = v"

definition edge_kind :: "pystr list \<Rightarrow> pyval \<Rightarrow> pystr option" where
  "edge_kind literal v =
     (case v_transfer_kind v of PStr s \<Rightarrow> (if s \<in> set literal then Some s else None) | _ \<Rightarrow> None)"

definition condition_edge_kind where "condition_edge_kind v = edge_kind [''condition''] v"

definition reflection_edge_kind where "reflection_edge_kind v = edge_kind [''reflect''] v"

definition framework_edge_kind where "framework_edge_kind v = edge_kind [''framework''] v"

end
