(* ===== verification/CoerceProps.thy ===== *)
theory CoerceProps
  imports Coerce
begin

text \<open>
  Whatever a model puts into a field, the coerced value is one the field admits; values that
  are already right are kept; the confidence of a finding is a number from 0 to 1.
\<close>

section \<open>Enumerations\<close>

lemma coerce_enum_member:
  assumes "d \<in> set valid" "snd ` set alias \<subseteq> set valid"
  shows "coerce_enum rep v valid alias d \<in> set valid"
  using assms by (fastforce simp: coerce_enum_def Let_def dict_get_or_def dest: map_of_SomeD split: option.splits)

lemma tables_closed:
  "snd ` set control_kind_alias \<subseteq> set control_kinds" "snd ` set sensitivity_alias \<subseteq> set sensitivities"
  "snd ` set actor_alias \<subseteq> set actors" "snd ` set impact_alias \<subseteq> set impacts"
  "snd ` set likelihood_alias \<subseteq> set likelihoods" "snd ` set ep_kind_alias \<subseteq> set ep_kinds"
  "snd ` set chunk_size_alias \<subseteq> set chunk_sizes" "snd ` set marker_alias \<subseteq> set marker_types"
  "snd ` set response_alias \<subseteq> set response_types"
  by code_simp+

text \<open>C27. Whatever the model writes into a field with a fixed set of values, the coerced value is
  a member of the set, for every field and every value.\<close>

theorem coerced_is_member:
  "v_control_kind rep v \<in> set control_kinds \<and> v_sensitivity rep v \<in> set sensitivities
    \<and> v_actor rep v \<in> set actors \<and> v_impact rep v \<in> set impacts \<and> v_likelihood rep v \<in> set likelihoods
    \<and> v_ep_kind rep v \<in> set ep_kinds \<and> v_chunk_size rep v \<in> set chunk_sizes \<and> v_call_type rep v \<in> set call_types
    \<and> v_reflect_confidence rep v \<in> {''low'', ''medium'', ''high''} \<and> v_marker_type rep v \<in> set marker_types
    \<and> v_edge_marker_type rep v \<in> set marker_types \<and> v_framework rep v \<in> set frameworks
    \<and> v_marker_confidence rep v \<in> {''high'', ''medium''} \<and> v_response_type rep v \<in> set response_types"
proof (intro conjI)
  show "v_call_type rep v \<in> set call_types"
    by (cases "(rep, v)" rule: v_call_type.cases) (simp_all add: call_types_def Let_def)
  show "v_edge_marker_type rep v \<in> set marker_types" unfolding v_edge_marker_type_def
    by (rule coerce_enum_member; code_simp)
  show "v_reflect_confidence rep v \<in> {''low'', ''medium'', ''high''}" unfolding v_reflect_confidence_def
    using coerce_enum_member [of "''medium''" "[''low'', ''medium'', ''high'']" "[]" rep v] by simp
  show "v_marker_confidence rep v \<in> {''high'', ''medium''}" unfolding v_marker_confidence_def
    using coerce_enum_member [of "''high''" "[''high'', ''medium'']" "[(''explicit'', ''high''), (''implicit'', ''medium'')]" rep v]
    by simp
  show "v_framework rep v \<in> set frameworks" unfolding v_framework_def
    by (rule coerce_enum_member) (simp_all add: frameworks_def)
qed (simp only: v_control_kind_def v_sensitivity_def v_actor_def v_impact_def v_likelihood_def v_ep_kind_def
    v_chunk_size_def v_marker_type_def v_response_type_def,
    rule coerce_enum_member [OF _ tables_closed(1)] coerce_enum_member [OF _ tables_closed(2)]
      coerce_enum_member [OF _ tables_closed(3)] coerce_enum_member [OF _ tables_closed(4)]
      coerce_enum_member [OF _ tables_closed(5)] coerce_enum_member [OF _ tables_closed(6)]
      coerce_enum_member [OF _ tables_closed(7)] coerce_enum_member [OF _ tables_closed(8)]
      coerce_enum_member [OF _ tables_closed(9)],
    simp add: control_kinds_def sensitivities_def actors_def impacts_def likelihoods_def ep_kinds_def
      chunk_sizes_def marker_types_def response_types_def)+

text \<open>No entry of a table is dead: a synonym is in the normal form and is not itself a member.\<close>

lemma coerce_enum_alias:
  assumes "norm_text rep v = k" "dict_get alias k = Some d" "k \<notin> set valid" "py_strip (py_str rep (py_or v (PStr []))) \<notin> set valid"
  shows "coerce_enum rep v valid alias x = d"
  using assms by (simp add: coerce_enum_def dict_get_or_def)

definition live_table :: "pystr list \<Rightarrow> (pystr, pystr) pydict \<Rightarrow> bool" where
  "live_table valid alias \<longleftrightarrow>
     list_all (\<lambda>(k, d). norm_text (\<lambda>_. []) (PStr k) = k \<and> k \<notin> set valid \<and> dict_get alias k = Some d) alias"

lemma tables_live:
  "live_table control_kinds control_kind_alias" "live_table sensitivities sensitivity_alias"
  "live_table actors actor_alias" "live_table impacts impact_alias" "live_table likelihoods likelihood_alias"
  "live_table ep_kinds ep_kind_alias" "live_table chunk_sizes chunk_size_alias"
  "live_table marker_types marker_alias" "live_table response_types response_alias"
  by code_simp+

section \<open>Edges with a kind of their own\<close>

text \<open>The inherited validator turns their only admissible kind into another one.\<close>

lemma special_edges_never_built:
  "condition_edge_kind v = None \<and> reflection_edge_kind v = None \<and> framework_edge_kind v = None"
  by (cases v rule: v_transfer_kind.cases)
    (auto simp: condition_edge_kind_def reflection_edge_kind_def framework_edge_kind_def edge_kind_def taint_transfer_kinds_def)

section \<open>Confidence\<close>

lemma clamp_unit: "0 \<le> clamp_unit f \<and> clamp_unit f \<le> 1"
  by (simp add: clamp_unit_def)

lemma finish_unit:
  "0 \<le> d \<Longrightarrow> d \<le> 1 \<Longrightarrow> r = (case w of PFloat f \<Rightarrow> scale_confidence d f | _ \<Rightarrow> d) \<Longrightarrow> 0 \<le> r \<and> r \<le> 1"
  by (cases w) (simp_all add: scale_confidence_def clamp_unit)

lemma fl_below:
  assumes "float_limit \<le> \<bar>fl (of_int i)\<bar>"
  shows "2 ^ 1023 \<le> \<bar>i\<bar>"
proof (rule ccontr)
  assume "\<not> 2 ^ 1023 \<le> \<bar>i\<bar>"
  then have "\<bar>i\<bar> \<le> 2 ^ 1023" by simp
  then have i: "\<bar>of_int i\<bar> \<le> (2 ^ 1023 :: rat)"
    by (metis of_int_abs of_int_le_iff of_int_numeral of_int_power)
  have "\<bar>fl (of_int i)\<bar> \<le> \<bar>of_int i\<bar> + \<bar>of_int i\<bar> / 2 ^ 53"
    using fl_err [of "of_int i"] by linarith
  also have "\<dots> \<le> 2 ^ 1023 + 2 ^ 1023 / 2 ^ 53"
    by (intro add_mono divide_right_mono i) simp
  also have "\<dots> < 2 ^ 1023 * 2" by simp
  finally show False using assms by (simp add: float_limit_def)
qed

text \<open>The confidence of a finding, whatever the model wrote, lies between 0 and 1 unless the
  value is an integer beyond the range of a double; a number that is already in the range is
  kept as it is.\<close>

lemma confidence_in_unit:
  "(case v_finding_confidence rep v of
      Inr c \<Rightarrow> 0 \<le> c \<and> c \<le> 1
    | Inl _ \<Rightarrow> \<exists>i. v = PInt i \<and> 2 ^ 1023 \<le> \<bar>i\<bar>)
    \<and> (\<forall>f. v = PFloat f \<and> 0 \<le> f \<and> f \<le> 1 \<longrightarrow> v_finding_confidence rep v = Inr f)"
proof (intro conjI)
  show "\<forall>f. v = PFloat f \<and> 0 \<le> f \<and> f \<le> 1 \<longrightarrow> v_finding_confidence rep v = Inr f"
    by (auto simp: v_finding_confidence_def coerce_confidence_def scale_confidence_def clamp_unit_def)
  let ?r = "\<lambda>w. case w of PFloat f \<Rightarrow> scale_confidence (1 / 2) f | _ \<Rightarrow> 1 / 2"
  have "(\<exists>i. v = PInt i \<and> float_limit \<le> \<bar>fl (of_int i)\<bar> \<and> v_finding_confidence rep v = Inl OverflowError)
    \<or> v_finding_confidence rep v = Inr (1 / 2) \<or> (\<exists>w. v_finding_confidence rep v = Inr (?r w))"
  proof (cases v)
    case (PInt i)
    then show ?thesis
      by (cases "float_limit \<le> \<bar>fl (of_int i)\<bar>")
        (auto simp: v_finding_confidence_def coerce_confidence_def intro: exI [of _ "PFloat (fl (of_int i))"])
  next
    case (PFloat x)
    then show ?thesis
      by (auto simp: v_finding_confidence_def coerce_confidence_def intro: exI [of _ "PFloat x"])
  qed (cases "float_of_text (conf_text_of rep v)"; force simp: v_finding_confidence_def coerce_confidence_def)+
  then consider i where "v = PInt i" "float_limit \<le> \<bar>fl (of_int i)\<bar>" "v_finding_confidence rep v = Inl OverflowError"
    | "v_finding_confidence rep v = Inr (1 / 2)"
    | w where "v_finding_confidence rep v = Inr (?r w)" by blast
  then show "case v_finding_confidence rep v of
      Inr c \<Rightarrow> 0 \<le> c \<and> c \<le> 1
    | Inl _ \<Rightarrow> \<exists>i. v = PInt i \<and> 2 ^ 1023 \<le> \<bar>i\<bar>"
  proof cases
    case 1
    then show ?thesis using fl_below by auto
  next
    case (3 w)
    then show ?thesis using finish_unit [of "1 / 2" "?r w" w] by simp
  qed simp
qed

theorem confidence_in_unit_witness:
  "v_finding_confidence (\<lambda>_. []) (PFloat (3 / 4)) = Inr (3 / 4)"
  using confidence_in_unit [of "PFloat (3 / 4)" "\<lambda>_. []"] by simp

text \<open>An integer beyond the range of a double is not coerced but raises.\<close>

lemma confidence_overflows: "v_finding_confidence rep (PInt (2 ^ 1024)) = Inl OverflowError"
proof -
  have "(of_int (2 ^ 1024) :: rat) = 2 powi 1024" by simp
  then have "fl (of_int (2 ^ 1024)) = 2 ^ 1024" by (metis fl_two_powi of_int_numeral of_int_power)
  then show ?thesis by (simp add: v_finding_confidence_def coerce_confidence_def float_limit_def)
qed

end
