(* ===== verification/Markdown.thy ===== *)
theory Markdown
  imports Regex PyVal
begin

text \<open>
  What the program does to text it did not write before it puts it into a Markdown report:
  the cell escape and the heading filter of the scan report (\<open>models.py\<close>), the inline escapes
  of the remediation report (\<open>remediation_agent/report_augment/mdsafe.py\<close>) and the bounded
  escape of the validation report (\<open>validation/report/augment.py\<close>).
\<close>

section \<open>Cells and headings of the scan report\<close>

definition backslash :: char where "backslash = CHR 0x5C"

text \<open>\<open>s.replace(c, w)\<close> for a one-character \<open>c\<close>.\<close>

definition replace_with :: "char \<Rightarrow> pystr \<Rightarrow> pystr \<Rightarrow> pystr" where
  "replace_with c w s = concat (map (\<lambda>d. if d = c then w else [d]) s)"

definition md_cell :: "pystr option \<Rightarrow> pystr" where
  "md_cell t =
     (case t of
        None \<Rightarrow> []
      | Some text \<Rightarrow>
          py_strip (replace_with (CHR ''|'') [backslash, CHR ''|'']
            (replace_with backslash [backslash, backslash]
              (replace_char (CHR 0x0A) (CHR '' '') (replace_char (CHR 0x0D) (CHR '' '') text)))))"

definition atx_heading_re :: re where
  "atx_heading_re = seqs [Bol, Grp 1 (times_re 0 3 (Cls py_space)), times_re 1 6 (lit ''#''),
     plus (Cls (\<lambda>c. c = CHR '' '' \<or> c = CHR 0x09)), Grp 2 (star (Cls (\<lambda>c. c \<noteq> CHR 0x0A))), Eol]"

definition fence_re :: re where
  "fence_re = seqs [Bol, times_re 0 3 (Cls py_space), Grp 1 (Alt (lit ''```'') (lit ''~~~''))]"

definition is_fence :: "pystr \<Rightarrow> bool" where
  "is_fence l \<longleftrightarrow> match_at fence_re l 0 \<noteq> None"

definition demote_line :: "pystr \<Rightarrow> pystr" where
  "demote_line l =
     fst (re_sub atx_heading_re (\<lambda>u m. (group_or l m 1 @ ''**'' @ py_rstrip (group_or l m 2) @ ''**'', u)) l ())"

fun demote_lines :: "bool \<Rightarrow> pystr list \<Rightarrow> pystr list" where
  "demote_lines in_fence [] = []"
| "demote_lines in_fence (l # ls) =
     (if is_fence l then l # demote_lines (\<not> in_fence) ls
      else (if in_fence then l else demote_line l) # demote_lines in_fence ls)"

definition demote_md_headings :: "pystr \<Rightarrow> pystr" where
  "demote_md_headings text =
     (if text = [] then text else join_with [CHR 0x0A] (demote_lines False (splitlines text)))"

section \<open>Inline escapes\<close>

definition md_ctrl :: "char \<Rightarrow> bool" where
  "md_ctrl c \<longleftrightarrow>
     (let n = (of_char c :: nat) in n \<le> 8 \<or> n = 11 \<or> n = 12 \<or> 14 \<le> n \<and> n \<le> 31 \<or> n = 127)"

text \<open>The escape map, \<open>_MD_ESCAPE.get(ch, ch)\<close>.\<close>

definition md_meta :: "char \<Rightarrow> bool" where
  "md_meta c \<longleftrightarrow> c \<in> {CHR 0x60, CHR ''*'', CHR ''_'', CHR ''['', CHR '']'', CHR ''|'', CHR ''#''}"

definition md_escape_char :: "char \<Rightarrow> pystr" where
  "md_escape_char c =
     (if c = backslash \<or> md_meta c then [backslash, c]
      else if c = CHR ''<'' then ''&lt;''
      else if c = CHR ''>'' then ''&gt;''
      else if c = CHR ''&'' then ''&amp;''
      else [c])"

definition md_escape_chars :: "pystr \<Rightarrow> pystr" where
  "md_escape_chars s = concat (map md_escape_char s)"

text \<open>\<open>text.replace("\r\n", "\n").replace("\r", "\n").replace("\n", " ")\<close>\<close>

fun join_crlf :: "pystr \<Rightarrow> pystr" where
  "join_crlf (c # d # cs) =
     (if c = CHR 0x0D \<and> d = CHR 0x0A then CHR 0x0A # join_crlf cs else c # join_crlf (d # cs))"
| "join_crlf cs = cs"

definition mdsafe_escape :: "pystr \<Rightarrow> pystr" where
  "mdsafe_escape value =
     md_escape_chars
       (replace_char (CHR 0x0A) (CHR '' '') (replace_char (CHR 0x0D) (CHR 0x0A)
         (join_crlf (filter (\<lambda>c. \<not> md_ctrl c) value))))"

definition md_code_span :: "pystr \<Rightarrow> pystr" where
  "md_code_span value =
     (let text = filter (\<lambda>c. \<not> md_ctrl c) value;
          text = filter (\<lambda>c. c \<noteq> CHR 0x60) (replace_char (CHR 0x0A) (CHR '' '') (replace_char (CHR 0x0D) (CHR '' '') text));
          text = replace_with (CHR ''>'') ''&gt;'' (replace_with (CHR ''<'') ''&lt;'' (replace_with (CHR ''&'') ''&amp;'' text))
      in [CHR 0x60] @ text @ [CHR 0x60])"

text \<open>\<open>len(text) - len(text.rstrip("\\"))\<close>\<close>

definition trailing_backslashes :: "pystr \<Rightarrow> nat" where
  "trailing_backslashes s = length (takeWhile (\<lambda>c. c = backslash) (rev s))"

definition trim_dangling_escape :: "pystr \<Rightarrow> pystr" where
  "trim_dangling_escape text = (if odd (trailing_backslashes text) then butlast text else text)"

definition md_escape :: "nat \<Rightarrow> pystr \<Rightarrow> pystr" where
  "md_escape limit text =
     trim_dangling_escape (take limit (md_escape_chars
       (replace_char (CHR 0x0A) (CHR '' '') (replace_char (CHR 0x0D) (CHR '' '')
         (filter (\<lambda>c. \<not> md_ctrl c) text)))))"

definition augment_md_cell :: "pystr \<Rightarrow> pystr" where
  "augment_md_cell text = md_escape 200 text"

end
