(* ===== verification/MarkdownProps.thy ===== *)
theory MarkdownProps
  imports Markdown RegexRun
begin

text \<open>
  Untrusted text cannot change the structure of a report: an escaped text has no bare
  metacharacter and no dangling escape, however it is truncated, and a row of escaped cells
  is read back as exactly those cells.
\<close>

section \<open>Reading escaped text\<close>

text \<open>
  A Markdown reader of inline text: a backslash takes the next character literally.  The
  state is whether a backslash is pending; \<open>None\<close> is a bare metacharacter.
\<close>

fun md_read :: "bool \<Rightarrow> pystr \<Rightarrow> bool option" where
  "md_read pending [] = Some pending"
| "md_read pending (c # cs) =
     (if pending then md_read False cs
      else if c = backslash then md_read True cs
      else if md_meta c then None
      else md_read False cs)"

lemma md_read_append:
  "md_read p (xs @ ys) = (case md_read p xs of None \<Rightarrow> None | Some q \<Rightarrow> md_read q ys)"
  by (induction p xs rule: md_read.induct) auto

lemma md_read_escape: "md_read False (md_escape_chars s) = Some False"
  by (induction s)
    (auto simp: md_escape_chars_def md_escape_char_def md_read_append md_meta_def backslash_def)

lemma trailing_Nil [simp]: "trailing_backslashes [] = 0"
  by (simp add: trailing_backslashes_def)

lemma trailing_snoc [simp]:
  "trailing_backslashes (xs @ [c]) = (if c = backslash then Suc (trailing_backslashes xs) else 0)"
  by (simp add: trailing_backslashes_def)

text \<open>The parity of the last run of backslashes tells whether one is pending.\<close>

lemma md_read_pending: "md_read False xs = Some q \<Longrightarrow> q \<longleftrightarrow> odd (trailing_backslashes xs)"
proof (induction xs arbitrary: q rule: rev_induct)
  case (snoc c xs)
  then obtain p where p: "md_read False xs = Some p" "md_read p [c] = Some q"
    by (auto simp: md_read_append split: option.splits)
  then have "p \<longleftrightarrow> odd (trailing_backslashes xs)" by (simp add: snoc.IH)
  then show ?case using p(2) by (auto split: if_splits)
qed simp

lemma md_read_prefix: "md_read p (xs @ ys) = Some q \<Longrightarrow> \<exists>r. md_read p xs = Some r"
  by (auto simp: md_read_append split: option.splits)

lemma md_read_trim:
  assumes "md_read False s = Some q"
  shows "md_read False (trim_dangling_escape s) = Some False"
proof (cases "odd (trailing_backslashes s)")
  case True
  then obtain xs c where s: "s = xs @ [c]" by (cases s rule: rev_cases) auto
  with True have c: "c = backslash" "even (trailing_backslashes xs)" by (auto split: if_splits)
  from assms s obtain r where "md_read False xs = Some r" using md_read_prefix by blast
  with md_read_pending [of xs r] c show ?thesis using True s by (simp add: trim_dangling_escape_def)
next
  case False
  with assms md_read_pending [OF assms] show ?thesis by (simp add: trim_dangling_escape_def)
qed

lemma set_md_escape_char: "set (md_escape_char c) \<subseteq> insert c (set (backslash # ''&ltgamp;''))"
  by (simp add: md_escape_char_def)

lemma set_md_escape_chars: "set (md_escape_chars s) \<subseteq> set s \<union> set (backslash # ''&ltgamp;'')"
  using set_md_escape_char by (fastforce simp: md_escape_chars_def simp del: set_simps)

lemma no_angle: "CHR ''<'' \<notin> set (md_escape_chars s)" "CHR ''>'' \<notin> set (md_escape_chars s)"
  by (auto simp: md_escape_chars_def md_escape_char_def md_meta_def backslash_def)

lemma set_trim: "set (trim_dangling_escape s) \<subseteq> set s"
  by (auto simp: trim_dangling_escape_def dest: in_set_butlastD)

text \<open>C28. Whatever the text and wherever the limit cuts it, the escaped text fits the limit, has no
  bare metacharacter, leaves no backslash pending to swallow the delimiter that follows, and
  holds neither an angle bracket nor a line break.\<close>

theorem md_escape_inert:
  "length (md_escape limit text) \<le> limit \<and> md_read False (md_escape limit text) = Some False
    \<and> set (md_escape limit text) \<inter> {CHR ''<'', CHR ''>'', CHR 0x0A, CHR 0x0D} = {}"
proof -
  define s where "s = replace_char (CHR 0x0A) (CHR '' '') (replace_char (CHR 0x0D) (CHR '' '')
    (filter (\<lambda>c. \<not> md_ctrl c) text))"
  have e: "md_escape limit text = trim_dangling_escape (take limit (md_escape_chars s))"
    by (simp add: md_escape_def s_def)
  have "md_read False (take limit (md_escape_chars s) @ drop limit (md_escape_chars s)) = Some False"
    by (simp add: md_read_escape)
  then obtain q where "md_read False (take limit (md_escape_chars s)) = Some q" using md_read_prefix by blast
  moreover have "length (trim_dangling_escape (take limit (md_escape_chars s))) \<le> limit"
    by (auto simp: trim_dangling_escape_def)
  moreover have "set (md_escape limit text) \<subseteq> set (md_escape_chars s)"
    using set_trim set_take_subset unfolding e by fastforce
  moreover have "CHR 0x0A \<notin> set s" "CHR 0x0D \<notin> set s"
    by (auto simp: s_def replace_char_def)
  then have "CHR 0x0A \<notin> set (md_escape_chars s)" "CHR 0x0D \<notin> set (md_escape_chars s)"
    using set_md_escape_chars [of s] by (auto simp: backslash_def)
  ultimately show ?thesis using no_angle md_read_trim unfolding e by blast
qed

section \<open>Rows of cells\<close>

text \<open>
  A reader of a table row: a bare bar ends the cell, a backslash takes the next character
  literally, blanks around a cell do not count.
\<close>

fun row_cells :: "pystr \<Rightarrow> pystr \<Rightarrow> pystr list" where
  "row_cells acc [] = [acc]"
| "row_cells acc [c] = (if c = CHR ''|'' then [acc, []] else [acc @ [c]])"
| "row_cells acc (c # d # cs) =
     (if c = backslash then row_cells (acc @ [d]) cs
      else if c = CHR ''|'' then acc # row_cells [] (d # cs)
      else row_cells (acc @ [c]) (d # cs))"

definition row_of :: "pystr list \<Rightarrow> pystr" where
  "row_of cells = concat (map (\<lambda>c. ''| '' @ c @ '' '') cells) @ ''|''"

definition cell_char :: "char \<Rightarrow> pystr" where
  "cell_char c = (if c = backslash \<or> c = CHR ''|'' then [backslash, c] else [c])"

definition one_line :: "pystr \<Rightarrow> pystr" where
  "one_line s = replace_char (CHR 0x0A) (CHR '' '') (replace_char (CHR 0x0D) (CHR '' '') s)"

lemma cell_escape:
  "replace_with (CHR ''|'') [backslash, CHR ''|''] (replace_with backslash [backslash, backslash] s) = concat (map cell_char s)"
  by (induction s) (auto simp: replace_with_def cell_char_def backslash_def)

lemma space_cell [simp]: "py_space c \<Longrightarrow> cell_char c = [c]" "\<not> py_space backslash" "\<not> py_space (CHR ''|'')"
  by (auto simp: cell_char_def py_space_def backslash_def)

lemma dropWhile_cells: "dropWhile py_space (concat (map cell_char s)) = concat (map cell_char (dropWhile py_space s))"
  by (induction s) (auto simp: cell_char_def)

lemma dropWhile_rev_cells:
  "dropWhile py_space (rev (concat (map cell_char s))) = rev (concat (map cell_char (rev (dropWhile py_space (rev s)))))"
proof (induction s rule: rev_induct)
  case (snoc c s)
  then show ?case by (cases "py_space c") (auto simp: cell_char_def)
qed simp

lemma strip_cells: "py_strip (concat (map cell_char s)) = concat (map cell_char (py_strip s))"
  by (simp add: py_strip_def py_lstrip_def py_rstrip_def dropWhile_cells dropWhile_rev_cells)

lemma md_cell_Some: "md_cell (Some s) = concat (map cell_char (py_strip (one_line s)))"
  by (simp add: md_cell_def cell_escape strip_cells one_line_def)

lemma row_cells_escaped: "row_cells acc (concat (map cell_char s) @ r # rest) = row_cells (acc @ s) (r # rest)"
proof (induction s arbitrary: acc)
  case (Cons c s)
  obtain d ds where d: "concat (map cell_char s) @ r # rest = d # ds" by (cases "concat (map cell_char s) @ r # rest") auto
  consider "c = backslash \<or> c = CHR ''|''" | "c \<noteq> backslash" "c \<noteq> CHR ''|''" by blast
  then show ?case
  proof cases
    case 1
    then have "cell_char c = [backslash, c]" by (auto simp: cell_char_def)
    then show ?thesis using Cons by simp
  next
    case 2
    then have "cell_char c = [c]" by (simp add: cell_char_def)
    then show ?thesis using Cons.IH [of "acc @ [c]"] 2 d by simp
  qed
qed simp

lemma row_cells_row:
  "row_cells acc (concat (map (\<lambda>s. ''| '' @ concat (map cell_char s) @ '' '') ss) @ ''|'')
    = (acc # map (\<lambda>s. [CHR '' ''] @ s @ [CHR '' '']) ss) @ [[]]"
proof (induction ss arbitrary: acc)
  case (Cons s ss)
  let ?rest = "concat (map (\<lambda>s. ''| '' @ concat (map cell_char s) @ '' '') ss) @ ''|''"
  obtain d ds where d: "?rest = d # ds" by (cases ?rest) auto
  have "row_cells acc (concat (map (\<lambda>s. ''| '' @ concat (map cell_char s) @ '' '') (s # ss)) @ ''|'')
      = row_cells acc (CHR ''|'' # CHR '' '' # concat (map cell_char s) @ CHR '' '' # ?rest)" by simp
  also have "\<dots> = acc # row_cells [] (CHR '' '' # concat (map cell_char s) @ CHR '' '' # ?rest)"
    by (simp add: backslash_def)
  also have "row_cells [] (CHR '' '' # concat (map cell_char s) @ CHR '' '' # ?rest)
      = row_cells ([CHR '' ''] @ s) (CHR '' '' # ?rest)"
    using row_cells_escaped [of "[]" "CHR '' '' # s" "CHR '' ''" ?rest] by (simp add: py_space_def)
  also have "\<dots> = row_cells ([CHR '' ''] @ s @ [CHR '' '']) ?rest"
    unfolding d by (simp add: backslash_def)
  finally show ?case using Cons.IH by simp
qed simp

lemma strip_spaced: "py_strip ([CHR '' ''] @ s @ [CHR '' '']) = py_strip s"
proof -
  have sp: "py_space (CHR '' '')" by (simp add: py_space_def)
  show ?thesis
  proof (cases "dropWhile py_space s = []")
    case True
    then have "\<forall>c \<in> set s. py_space c" by (simp only: dropWhile_eq_Nil_conv)
    then have "dropWhile py_space (s @ [CHR '' '']) = []" using sp by simp
    then show ?thesis using sp True by (simp only: py_strip_def py_lstrip_def py_rstrip_def) simp
  next
    case False
    then obtain c where "c \<in> set s" "\<not> py_space c" by (auto simp only: dropWhile_eq_Nil_conv)
    then have "dropWhile py_space (s @ [CHR '' '']) = dropWhile py_space s @ [CHR '' '']"
      by (rule dropWhile_append1)
    then show ?thesis using sp by (simp only: py_strip_def py_lstrip_def py_rstrip_def) simp
  qed
qed

lemma set_strip: "set (py_strip t) \<subseteq> set t"
  by (auto simp: py_strip_def py_lstrip_def py_rstrip_def dest!: set_dropWhileD)

lemma one_line_breaks: "CHR 0x0A \<notin> set (one_line t)" "CHR 0x0D \<notin> set (one_line t)"
  by (auto simp: one_line_def replace_char_def)

lemma set_cells: "set (concat (map cell_char s)) \<subseteq> insert backslash (set s)"
  by (auto simp: cell_char_def split: if_splits)

lemma md_cell_breaks: "CHR 0x0A \<notin> set (md_cell (Some t))" "CHR 0x0D \<notin> set (md_cell (Some t))"
proof -
  have "set (md_cell (Some t)) \<subseteq> insert backslash (set (one_line t))"
    unfolding md_cell_Some using set_cells set_strip by blast
  moreover have "CHR 0x0A \<noteq> backslash" "CHR 0x0D \<noteq> backslash" by (simp_all add: backslash_def)
  ultimately show "CHR 0x0A \<notin> set (md_cell (Some t))" "CHR 0x0D \<notin> set (md_cell (Some t))"
    using one_line_breaks [of t] by blast+
qed

text \<open>C29. A table row of the report whose cells are untrusted texts is one line and is read back
  as exactly those cells, each the text it was given but for line breaks and outer blanks.\<close>

theorem md_row_roundtrip:
  "map py_strip (butlast (tl (row_cells [] (row_of (map (\<lambda>t. md_cell (Some t)) ts))))) = map (\<lambda>t. py_strip (one_line t)) ts
    \<and> CHR 0x0A \<notin> set (row_of (map (\<lambda>t. md_cell (Some t)) ts)) \<and> CHR 0x0D \<notin> set (row_of (map (\<lambda>t. md_cell (Some t)) ts))"
proof -
  have row: "row_of (map (\<lambda>t. md_cell (Some t)) ts)
      = concat (map (\<lambda>s. ''| '' @ concat (map cell_char s) @ '' '') (map (\<lambda>t. py_strip (one_line t)) ts)) @ ''|''"
    by (simp add: row_of_def md_cell_Some comp_def)
  have "CHR 0x0A \<notin> set (row_of (map (\<lambda>t. md_cell (Some t)) ts))" "CHR 0x0D \<notin> set (row_of (map (\<lambda>t. md_cell (Some t)) ts))"
    using md_cell_breaks by (simp_all add: row_of_def)
  then show ?thesis unfolding row row_cells_row by (simp add: comp_def strip_spaced [simplified])
qed

section \<open>Headings\<close>

abbreviation heading_mark :: re where
  "heading_mark \<equiv> times_re 1 6 (lit ''#'')"

definition heading_rest :: re where
  "heading_rest = Seq (plus (Cls (\<lambda>c. c = CHR '' '' \<or> c = CHR 0x09))) (Seq (Grp 2 (star (Cls (\<lambda>c. c \<noteq> CHR 0x0A)))) Eol)"

lemma atx_heading_alt:
  "atx_heading_re = Seq Bol (Seq (Grp 1 (times_re 0 3 (Cls py_space))) (Seq heading_mark heading_rest))"
  by (simp add: atx_heading_re_def heading_rest_def lit_def)

lemma heading_start:
  assumes "st \<in> set (re_at atx_heading_re s (i, []))"
  shows "i = 0 \<and> (\<exists>st1. st1 \<in> set (re_at (Grp 1 (times_re 0 3 (Cls py_space))) s (0, [])) \<and> st \<in> set (re_at (Seq heading_mark heading_rest) s st1))"
  using assms unfolding atx_heading_alt re_at.simps(3) [of Bol] re_at.simps(3) [of "Grp 1 _"]
  by (cases "i = 0") (auto simp del: re_at.simps(3-7))

text \<open>A line of blanks and an asterisk is no heading.\<close>

lemma heading_mark_at:
  assumes "re_at (Seq heading_mark r) s (j, c) \<noteq> []"
  shows "class_at (\<lambda>d. d = CHR ''#'') s j"
proof (rule ccontr)
  assume "\<not> class_at (\<lambda>d. d = CHR ''#'') s j"
  then have "re_at (lit ''#'') s (j, c) = []" by (simp add: lit_def)
  then have "re_at heading_mark s (j, c) = []" by simp
  with assms show False by (simp only: re_at.simps(3)) simp
qed

lemma blanks_at:
  assumes "st \<in> set (re_at (Grp 1 (times_re 0 3 (Cls py_space))) s (0, []))"
  shows "clean py_space s 0 (fst st)"
  using re_at_ok [of py_space, OF _ assms] by (simp add: step_ok_def caps_ok_def)

lemma starred_no_heading:
  assumes "list_all py_space w"
  shows "match_at atx_heading_re (w @ CHR ''*'' # v) 0 = None"
proof (rule ccontr)
  let ?s = "w @ CHR ''*'' # v"
  assume "match_at atx_heading_re ?s 0 \<noteq> None"
  then obtain st where "st \<in> set (re_at atx_heading_re ?s (0, []))"
    by (cases "re_at atx_heading_re ?s (0, [])") (auto simp: match_at_def)
  from heading_start [OF this] obtain st1 where st1: "st1 \<in> set (re_at (Grp 1 (times_re 0 3 (Cls py_space))) ?s (0, []))"
    "re_at (Seq heading_mark heading_rest) ?s st1 \<noteq> []" by (metis empty_iff list.set(1))
  have hash: "class_at (\<lambda>d. d = CHR ''#'') ?s (fst st1)"
    using st1(2) heading_mark_at [of heading_rest ?s "fst st1" "snd st1"] by (simp del: re_at.simps)
  have "clean py_space ?s 0 (fst st1)" by (rule blanks_at [OF st1(1)])
  moreover have "\<not> py_space (CHR ''*'')" "\<not> py_space (CHR ''#'')" by (simp_all add: py_space_def)
  ultimately have "fst st1 \<le> length w"
    by (cases "fst st1 \<le> length w") (auto simp: clean_def nth_append dest!: spec [of _ "length w"])
  moreover have "?s ! fst st1 \<noteq> CHR ''#''" if "fst st1 \<le> length w"
  proof (cases "fst st1 = length w")
    case False
    then have "py_space (w ! fst st1)" using that assms by (simp add: list_all_length)
    then show ?thesis using that False \<open>\<not> py_space (CHR ''#'')\<close> by (auto simp: nth_append)
  qed simp
  ultimately show False using hash by (simp add: class_at_def)
qed

lemma search_heading: "search_from atx_heading_re s i = (if i = 0 then match_at atx_heading_re s 0 else None)"
proof -
  have none: "match_at atx_heading_re s k = None" if "0 < k" for k
    using heading_start [of _ s k] that by (cases "re_at atx_heading_re s (k, [])") (auto simp: match_at_def)
  have "[0..<Suc (length s)] = 0 # [Suc 0..<Suc (length s)]" by (rule upt_conv_Cons) simp
  moreover have "List.map_filter (match_at atx_heading_re s) [j..<Suc (length s)] = []" if "0 < j" for j
    using none that by (simp add: List.map_filter_def filter_empty_conv del: upt_Suc)
  ultimately show ?thesis by (simp add: search_from_def List.map_filter_def split: option.splits del: upt_Suc)
qed

text \<open>A pattern without groups leaves the captures alone.\<close>

primrec ungrouped :: "re \<Rightarrow> bool" where
  "ungrouped Eps \<longleftrightarrow> True"
| "ungrouped (Cls p) \<longleftrightarrow> True"
| "ungrouped (Seq r r') \<longleftrightarrow> ungrouped r \<and> ungrouped r'"
| "ungrouped (Alt r r') \<longleftrightarrow> ungrouped r \<and> ungrouped r'"
| "ungrouped (Rep g lo hi r) \<longleftrightarrow> ungrouped r"
| "ungrouped (Grp k r) \<longleftrightarrow> False"
| "ungrouped (Backref k) \<longleftrightarrow> True"
| "ungrouped Bol \<longleftrightarrow> True"
| "ungrouped Eol \<longleftrightarrow> True"
| "ungrouped Wordb \<longleftrightarrow> True"
| "ungrouped (Ahead b p) \<longleftrightarrow> True"
| "ungrouped (Behind b p) \<longleftrightarrow> True"

lemma rep_at_caps:
  assumes f: "\<And>st st'. st' \<in> set (f st) \<Longrightarrow> snd st' = snd st"
  shows "st' \<in> set (rep_at k f g lo hi st) \<Longrightarrow> snd st' = snd st"
proof (induction k arbitrary: lo hi st)
  case 0
  then show ?case by (auto split: if_splits)
next
  case (Suc k)
  then consider "st' = st" | st1 lo' hi' where "st1 \<in> set (f st)" "st' \<in> set (rep_at k f g lo' hi' st1)"
    by (auto simp: Let_def split: if_splits)
  then show ?case
  proof cases
    case 2
    then show ?thesis using f Suc.IH by metis
  qed simp
qed

lemma ungrouped_caps: "ungrouped r \<Longrightarrow> st' \<in> set (re_at r s st) \<Longrightarrow> snd st' = snd st"
proof (induction r arbitrary: st st')
  case (Seq r r')
  from Seq.prems obtain st1 where "st1 \<in> set (re_at r s st)" "st' \<in> set (re_at r' s st1)" by auto
  with Seq.prems(1) have "snd st' = snd st1" "snd st1 = snd st" by (simp_all add: Seq.IH)
  then show ?case by simp
next
  case (Rep g lo hi r)
  then have "\<And>st st'. st' \<in> set (re_at r s st) \<Longrightarrow> snd st' = snd st" by simp
  from rep_at_caps [OF this] Rep.prems(2) show ?case by (simp only: re_at.simps)
next
  case (Alt r r')
  from Alt.prems(2) consider "st' \<in> set (re_at r s st)" | "st' \<in> set (re_at r' s st)" by auto
  then show ?case by (cases; use Alt.IH Alt.prems(1) in simp)
qed (auto split: if_splits option.splits)

lemma heading_caps:
  assumes "st \<in> set (re_at (Seq heading_mark heading_rest) s st1)"
  shows "\<exists>a b. snd st = (2, a, b) # snd st1"
proof -
  let ?r = "Seq heading_mark (plus (Cls (\<lambda>c. c = CHR '' '' \<or> c = CHR 0x09)))"
  from assms obtain st2 where st2: "st2 \<in> set (re_at ?r s st1)"
    "st \<in> set (re_at (Seq (Grp 2 (star (Cls (\<lambda>c. c \<noteq> CHR 0x0A)))) Eol) s st2)"
    unfolding heading_rest_def by (auto simp del: re_at.simps(2,4-))
  have "snd st2 = snd st1" by (rule ungrouped_caps [OF _ st2(1)]) (simp add: lit_def)
  moreover from st2(2) obtain st3 where st3: "st3 \<in> set (re_at (star (Cls (\<lambda>c. c \<noteq> CHR 0x0A))) s st2)"
    "snd st = (2, fst st2, fst st3) # snd st3"
    by (auto simp del: re_at.simps(2,4,5) split: if_splits)
  moreover have "snd st3 = snd st2" by (rule ungrouped_caps [OF _ st3(1)]) simp
  ultimately show ?thesis by auto
qed

text \<open>The first group of a heading is blank, and a heading is not empty.\<close>

lemma heading_match:
  assumes "match_at atx_heading_re s 0 = Some m"
  shows "list_all py_space (group_or s m 1) \<and> m_start m = 0 \<and> 0 < m_end m"
proof -
  from assms obtain st where st: "st \<in> set (re_at atx_heading_re s (0, []))"
    and m: "m = \<lparr>m_start = 0, m_end = fst st, m_caps = snd st\<rparr>"
    by (auto simp: match_at_def split: list.splits)
  from heading_start [OF st] obtain st1 where st1: "st1 \<in> set (re_at (Grp 1 (times_re 0 3 (Cls py_space))) s (0, []))"
    "st \<in> set (re_at (Seq heading_mark heading_rest) s st1)" by blast
  have far: "fst st1 + least (Seq heading_mark heading_rest) \<le> fst st" by (rule re_at_least [OF st1(2)])
  from st1(1) obtain st0 where st0: "st0 \<in> set (re_at (times_re 0 3 (Cls py_space)) s (0, []))"
    "st1 = (fst st0, (1, 0, fst st0) # snd st0)" by (auto simp del: re_at.simps(2,5))
  from heading_caps [OF st1(2)] st0(2) have "map_of (snd st) 1 = Some (0, fst st1)" by auto
  moreover have "list_all py_space (span_text s 0 (fst st1))"
    using blanks_at [OF st1(1)] by (auto simp: clean_def span_text_def list_all_length)
  ultimately show ?thesis using far by (simp add: m group_or_def group_def lit_def)
qed

lemma finditer_heading: "finditer atx_heading_re s = (case match_at atx_heading_re s 0 of None \<Rightarrow> [] | Some m \<Rightarrow> [m])"
proof (cases "match_at atx_heading_re s 0")
  case (Some m)
  then show ?thesis using heading_match [OF Some] by (simp add: finditer_def search_heading)
qed (simp add: finditer_def search_heading)

lemma demote_line_no_heading: "match_at atx_heading_re (demote_line l) 0 = None"
proof (cases "match_at atx_heading_re l 0")
  case None
  then have "demote_line l = l" by (simp add: demote_line_def re_sub_def finditer_heading)
  then show ?thesis using None by simp
next
  case (Some m)
  then have "demote_line l = group_or l m 1 @ CHR ''*'' # (''*'' @ py_rstrip (group_or l m 2) @ ''**'' @ drop (m_end m) l)"
    using heading_match [OF Some] by (simp add: demote_line_def re_sub_def finditer_heading span_text_def)
  then show ?thesis using starred_no_heading heading_match [OF Some] by simp
qed

text \<open>Where the filter's own tracking of fences stands before each line.\<close>

fun fence_states :: "bool \<Rightarrow> pystr list \<Rightarrow> bool list" where
  "fence_states b [] = []"
| "fence_states b (l # ls) = b # fence_states (if is_fence l then \<not> b else b) ls"

text \<open>No line of the filtered text that the filter's own tracking of fences places outside a
  fence is a heading.\<close>

lemma demoted_no_heading:
  assumes "i < length ls" "\<not> is_fence (ls ! i)" "\<not> fence_states False ls ! i"
  shows "match_at atx_heading_re (demote_lines False ls ! i) 0 = None"
proof -
  have "i < length ls \<longrightarrow> \<not> is_fence (ls ! i) \<longrightarrow> \<not> fence_states b ls ! i \<longrightarrow>
    match_at atx_heading_re (demote_lines b ls ! i) 0 = None" for b i
    by (induction ls arbitrary: b i) (auto simp: nth_Cons demote_line_no_heading split: nat.splits)
  then show ?thesis using assms by blast
qed

text \<open>
  That tracking takes any fence for the end of any other: after a tilde fence inside a
  backtick block the filter counts the block's real end as a beginning and lets the heading
  that follows through.
\<close>

lemma mixed_fences:
  "demote_lines False [''```'', ''~~~'', ''```'', ''# Injected''] = [''```'', ''~~~'', ''```'', ''# Injected'']"
proof -
  have "is_fence ''```''" "is_fence ''~~~''" "\<not> is_fence ''# Injected''" by code_simp+
  then show ?thesis by simp
qed

theorem demoted_no_heading_witness:
  "match_at atx_heading_re (demote_lines False [''intro'', ''## Injected''] ! 1) 0 = None"
proof (rule demoted_no_heading)
  show "\<not> is_fence ([''intro'', ''## Injected''] ! 1)" by code_simp
  have "\<not> is_fence ''intro''" by code_simp
  then show "\<not> fence_states False [''intro'', ''## Injected''] ! 1" by simp
qed simp

end
