(* ===== verification/Sandbox.thy ===== *)
theory Sandbox
  imports RepoFs Redact Select
begin

text \<open>
  The read-only tools of the agentic loop (\<open>backends/localtools.py\<close>), confined to the root of
  the repository.  The listing of \<open>root.glob\<close> and \<open>root.rglob\<close>, the compiled pattern of
  \<open>re.compile\<close> and the text of an exception are parameters.  An exception of a tool is a
  value: \<open>execute\<close> turns it into an error text.  The ellipsis of the clipping mark is written
  as its three UTF-8 bytes.
\<close>

section \<open>Limits\<close>

definition max_bytes :: nat where "max_bytes = 200000"
definition max_matches :: nat where "max_matches = 200"
definition max_glob :: nat where "max_glob = 500"
definition max_grep_line :: nat where "max_grep_line = 50000"

datatype tool_exc = LoopExc | TypeExc | ValueExc | OverflowExc

section \<open>The jail\<close>

text \<open>
  \<open>Inr None\<close> is a refusal.  A name with a NUL makes \<open>resolve\<close> raise a \<open>ValueError\<close>; a loop
  of links makes it raise a \<open>RuntimeError\<close>, which is not caught here.
\<close>

definition jail :: "fs \<Rightarrow> path \<Rightarrow> pystr \<Rightarrow> tool_exc + path option" where
  "jail fs base p =
     (if nul \<in> set p then Inr None
      else and_then (or_raise (resolve fs (if is_absolute p then components p else base @ components p)) LoopExc)
             (\<lambda>cand. Inr (if prefix base cand then Some cand else None)))"

definition path_text :: "path \<Rightarrow> pystr" where
  "path_text p = (if p = [] then ''.'' else join_with ''/'' p)"

text \<open>\<open>int(x)\<close>\<close>

fun py_int_of :: "pyval \<Rightarrow> tool_exc + int" where
  "py_int_of (PInt i) = Inr i"
| "py_int_of (PBool b) = Inr (if b then 1 else 0)"
| "py_int_of (PFloat x) = Inr (if x < 0 then \<lceil>x\<rceil> else \<lfloor>x\<rfloor>)"
| "py_int_of PNan = Inl ValueExc"
| "py_int_of (PInf _) = Inl OverflowExc"
| "py_int_of (PStr s) = or_raise (parse_int (py_strip s)) ValueExc"
| "py_int_of _ = Inl TypeExc"

fun py_text_of :: "pyval \<Rightarrow> tool_exc + pystr" where
  "py_text_of (PStr s) = Inr s"
| "py_text_of _ = Inl TypeExc"

section \<open>Read\<close>

definition is_file :: "fs \<Rightarrow> path \<Rightarrow> bool" where
  "is_file fs p \<longleftrightarrow> fs_read fs p \<noteq> None"

definition numbered :: "nat \<Rightarrow> pystr list \<Rightarrow> pystr list" where
  "numbered start ls = map (\<lambda>(i, l). show_nat i @ [CHR 0x09] @ l) (enumerate (Suc start) ls)"

definition read_body :: "pystr \<Rightarrow> int \<Rightarrow> int \<Rightarrow> pystr" where
  "read_body text offset limit =
     (let ls = splitlines (take (max_bytes * 4) text);
          start = nat (max 0 offset);
          count = nat (max 1 limit);
          body = join_with [CHR 0x0A] (numbered start (take count (drop start ls)));
          body = (if max_bytes < length body then take max_bytes body @ CHR 0x0A # ''... [truncated]'' else body)
      in if body = [] then ''(file is empty or offset past EOF)'' else body)"

definition read_tool :: "fs \<Rightarrow> path \<Rightarrow> pyval \<Rightarrow> pyval \<Rightarrow> pyval \<Rightarrow> tool_exc + pystr" where
  "read_tool fs base path offset limit =
     and_then (py_text_of path) (\<lambda>p.
     and_then (jail fs base p) (\<lambda>r.
       case r of
         None \<Rightarrow> Inr (''ERROR: path '' @ [CHR 0x27] @ p @ [CHR 0x27] @ '' is outside the repository base'')
       | Some fp \<Rightarrow>
           (case fs_read fs fp of
              None \<Rightarrow> Inr (''ERROR: file not found: '' @ p)
            | Some text \<Rightarrow>
                and_then (py_int_of offset) (\<lambda>start.
                and_then (py_int_of limit) (\<lambda>count. Inr (read_body text start count))))))"

section \<open>Listing\<close>

text \<open>The files of a listing that the jail admits; \<open>name\<close> is what the jail is asked about.\<close>

fun jailed_files :: "fs \<Rightarrow> path \<Rightarrow> (path \<Rightarrow> pystr) \<Rightarrow> path list \<Rightarrow> tool_exc + path list" where
  "jailed_files fs base name [] = Inr []"
| "jailed_files fs base name (p # ps) =
     (if is_file fs p then
        and_then (jail fs base (name p)) (\<lambda>r.
        and_then (jailed_files fs base name ps) (\<lambda>rest. Inr (if r = None then rest else p # rest)))
      else jailed_files fs base name ps)"

definition absolute_text :: "path \<Rightarrow> pystr" where
  "absolute_text p = CHR ''/'' # join_with ''/'' p"

definition relative_text :: "path \<Rightarrow> path \<Rightarrow> pystr" where
  "relative_text base p = path_text (drop (length base) p)"

definition glob_tool ::
    "(fs \<Rightarrow> path \<Rightarrow> pystr \<Rightarrow> tool_exc + path list) \<Rightarrow> (tool_exc \<Rightarrow> pystr) \<Rightarrow> fs \<Rightarrow> path \<Rightarrow> pyval \<Rightarrow> tool_exc + pystr" where
  "glob_tool glob_of exc_text fs base pattern =
     and_then (py_text_of pattern) (\<lambda>pattern.
       let pat = dropWhile (\<lambda>c. c = CHR 0x5C) (dropWhile (\<lambda>c. c = CHR ''/'') pattern) in
       case and_then (glob_of fs base pat) (jailed_files fs base (relative_text base)) of
         Inl ValueExc \<Rightarrow> Inr (''ERROR: invalid glob '' @ [CHR 0x27] @ pattern @ [CHR 0x27] @ '': '' @ exc_text ValueExc)
       | Inl e \<Rightarrow> Inl e
       | Inr ps \<Rightarrow>
           (let hits = sort (map (\<lambda>p. replace_char (CHR 0x5C) (CHR ''/'') (relative_text base p)) ps) in
            if hits = [] then Inr ''No files found''
            else if max_glob < length hits then
              Inr (join_with [CHR 0x0A] (take max_glob hits) @ CHR 0x0A # ''... ('' @ show_nat (length hits - max_glob) @ '' more)'')
            else Inr (join_with [CHR 0x0A] hits)))"

section \<open>Grep\<close>

record grep_state =
  g_out :: "pystr list"
  g_count :: nat

definition clip_mark :: pystr where
  "clip_mark = [CHR '' '', CHR 0xE2, CHR 0x80, CHR 0xA6] @ ''[line clipped]''"

definition clip :: "pystr \<Rightarrow> pystr" where
  "clip s = (if length s \<le> max_grep_line then s else take max_grep_line s @ clip_mark)"

definition match_lines :: "pystr \<Rightarrow> nat \<Rightarrow> pystr list \<Rightarrow> nat \<Rightarrow> pystr list" where
  "match_lines rel ctx ls i =
     (if ctx = 0 then [rel @ '':'' @ show_nat (Suc i) @ '':'' @ clip (ls ! i)]
      else map (\<lambda>j. rel @ '':'' @ show_nat (Suc j) @ (if j = i then '':'' else ''-'') @ clip (ls ! j))
             [i - ctx..<min (length ls) (i + ctx + 1)] @ [''--''])"

definition grep_line :: "(pystr \<Rightarrow> bool) \<Rightarrow> pystr \<Rightarrow> nat \<Rightarrow> pystr list \<Rightarrow> nat \<Rightarrow> grep_state \<Rightarrow> grep_state" where
  "grep_line rx rel ctx ls i st =
     (if max_matches \<le> g_count st \<or> \<not> rx (take max_grep_line (ls ! i)) then st
      else \<lparr>g_out = g_out st @ match_lines rel ctx ls i
              @ (if max_matches \<le> Suc (g_count st) then [''... (stopped at '' @ show_nat max_matches @ '' matches)''] else []),
            g_count = Suc (g_count st)\<rparr>)"

definition grep_text :: "(pystr \<Rightarrow> bool) \<Rightarrow> pystr \<Rightarrow> nat \<Rightarrow> pystr \<Rightarrow> grep_state \<Rightarrow> grep_state" where
  "grep_text rx rel ctx text st =
     (let ls = splitlines (take (max_bytes * 8) text) in fold (grep_line rx rel ctx ls) [0..<length ls] st)"

fun grep_files ::
    "(pystr \<Rightarrow> bool) \<Rightarrow> fs \<Rightarrow> path \<Rightarrow> nat \<Rightarrow> path list \<Rightarrow> grep_state \<Rightarrow> tool_exc + grep_state" where
  "grep_files rx fs base ctx [] st = Inr st"
| "grep_files rx fs base ctx (fp # fps) st =
     (if max_matches \<le> g_count st then Inr st
      else case fs_read fs fp of
        None \<Rightarrow> grep_files rx fs base ctx fps st
      | Some text \<Rightarrow>
          if \<not> prefix base fp then Inl ValueExc
          else grep_files rx fs base ctx fps
                 (grep_text rx (replace_char (CHR 0x5C) (CHR ''/'') (relative_text base fp)) ctx text st))"

definition grep_targets ::
    "(fs \<Rightarrow> path \<Rightarrow> pystr \<Rightarrow> tool_exc + path list) \<Rightarrow> (fs \<Rightarrow> path \<Rightarrow> path list) \<Rightarrow> fs \<Rightarrow> path \<Rightarrow> pyval \<Rightarrow> pyval
      \<Rightarrow> tool_exc + pystr + path list" where
  "grep_targets glob_of rglob_of fs base path glob =
     (let inside = (\<lambda>ps. and_then (jailed_files fs base absolute_text ps) (\<lambda>qs. Inr (Inr (sort qs)))) in
      if truthy path then
        and_then (py_text_of path) (\<lambda>p.
        and_then (jail fs base p) (\<lambda>r.
          case r of
            None \<Rightarrow> Inr (Inl (''ERROR: path '' @ [CHR 0x27] @ p @ [CHR 0x27] @ '' is outside the repository base''))
          | Some target \<Rightarrow> if is_file fs target then Inr (Inr [target]) else inside (rglob_of fs target)))
      else if truthy glob then
        and_then (py_text_of glob) (\<lambda>g.
        and_then (glob_of fs base (dropWhile (\<lambda>c. c = CHR ''/'') g)) inside)
      else inside (rglob_of fs base))"

definition grep_tool ::
    "(fs \<Rightarrow> path \<Rightarrow> pystr \<Rightarrow> tool_exc + path list) \<Rightarrow> (fs \<Rightarrow> path \<Rightarrow> path list)
      \<Rightarrow> (pystr \<Rightarrow> bool \<Rightarrow> pystr + (pystr \<Rightarrow> bool)) \<Rightarrow> fs \<Rightarrow> path \<Rightarrow> pymap \<Rightarrow> tool_exc + pystr" where
  "grep_tool glob_of rglob_of compile fs base args =
     and_then (py_text_of (dict_get_or args ''pattern'' (PStr []))) (\<lambda>pattern.
       case compile pattern (truthy (dict_get_or args ''ignore_case'' (PBool False))) of
         Inl e \<Rightarrow> Inr (''ERROR: invalid regex '' @ [CHR 0x27] @ pattern @ [CHR 0x27] @ '': '' @ e)
       | Inr rx \<Rightarrow>
           and_then (grep_targets glob_of rglob_of fs base (py_get args ''path'') (py_get args ''glob'')) (\<lambda>r.
             case r of
               Inl msg \<Rightarrow> Inr msg
             | Inr files \<Rightarrow>
                 and_then (py_int_of (dict_get_or args ''context'' (PInt 0))) (\<lambda>context.
                 and_then (grep_files rx fs base (nat (max 0 (min 200 context))) files \<lparr>g_out = [], g_count = 0\<rparr>) (\<lambda>st.
                   Inr (if g_out st = [] then ''No matches found'' else join_with [CHR 0x0A] (g_out st))))))"

section \<open>The surface\<close>

definition tool_names :: "pystr list" where
  "tool_names = [''Read'', ''Glob'', ''Grep'']"

definition supported :: "pystr list \<Rightarrow> pystr list \<times> pystr list" where
  "supported allowed = (filter (\<lambda>t. t \<in> set tool_names) allowed, filter (\<lambda>t. t \<notin> set tool_names) allowed)"

definition run_tool where
  "run_tool glob_of rglob_of compile exc_text fs base name args =
     (if name = ''Read'' then
        read_tool fs base (dict_get_or args ''path'' (PStr [])) (dict_get_or args ''offset'' (PInt 0))
          (dict_get_or args ''limit'' (PInt 2000))
      else if name = ''Glob'' then glob_tool glob_of exc_text fs base (dict_get_or args ''pattern'' (PStr []))
      else grep_tool glob_of rglob_of compile fs base args)"

definition finish_result :: "pystr \<Rightarrow> pystr \<Rightarrow> pystr" where
  "finish_result name result =
     (if name \<in> {''Read'', ''Grep''} \<and> \<not> prefix ''ERROR:'' result then fst (redact_counts result) else result)"

definition execute_tool where
  "execute_tool glob_of rglob_of compile exc_text fs base name args =
     (if name \<notin> set tool_names
      then ''ERROR: tool '' @ [CHR 0x27] @ name @ [CHR 0x27] @ '' is not available on this backend''
      else case run_tool glob_of rglob_of compile exc_text fs base name args of
        Inl e \<Rightarrow> ''ERROR: '' @ exc_text e
      | Inr result \<Rightarrow> finish_result name result)"

end
