(* ===== verification/SandboxProps.thy ===== *)
theory SandboxProps
  imports Sandbox RepoFsProps
begin

text \<open>
  Confinement of the read-only tools as noninterference: two machines that differ only in the
  regular files outside the repository, their existence and their content, give a model the
  same answers, whatever it asks.
\<close>

section \<open>Two machines\<close>

definition agree :: "path \<Rightarrow> fs \<Rightarrow> fs \<Rightarrow> bool" where
  "agree base f g \<longleftrightarrow>
     (\<forall>p. prefix base p \<longrightarrow> f p = g p) \<and> (\<forall>p t. f p = Some (Link t) \<longleftrightarrow> g p = Some (Link t))
     \<and> (\<forall>p. f p = Some Dir \<longleftrightarrow> g p = Some Dir)"

lemma agree_sym: "agree base f g \<Longrightarrow> agree base g f"
  by (simp add: agree_def)

lemma agree_not_link: "agree base f g \<Longrightarrow> not_link f p \<longleftrightarrow> not_link g p"
  by (simp add: agree_def not_link_def)

lemma resolve_from_agree:
  "resolve_from f cur cs = Some q \<Longrightarrow> agree base f g \<Longrightarrow> resolve_from g cur cs = Some q"
proof (induction rule: resolve_induct)
  case (dotdot cur rest r)
  then show ?case by (simp add: resolve_from_dotdot)
next
  case (link cur c rest t r)
  then have "g (cur @ [c]) = Some (Link t)" by (simp add: agree_def)
  with link show ?case by (simp add: resolve_from_link)
next
  case (plain cur c rest r)
  then show ?case by (simp add: resolve_from_plain agree_not_link)
qed simp

lemma resolve_agree: "agree base f g \<Longrightarrow> resolve f p = resolve g p"
  using resolve_from_agree [of f "[]" p _ base g] resolve_from_agree [of g "[]" p _ base f] agree_sym [of base f g]
  unfolding resolve_def by (cases "resolve_from f [] p"; cases "resolve_from g [] p") auto

lemma jail_agree: "agree base f g \<Longrightarrow> jail f base p = jail g base p"
  by (simp add: jail_def resolve_agree)

section \<open>Inside the repository\<close>

definition inside :: "fs \<Rightarrow> path \<Rightarrow> path \<Rightarrow> bool" where
  "inside fs base p \<longleftrightarrow> (\<exists>q. resolve fs p = Some q \<and> prefix base q)"

lemma inside_read:
  assumes "agree base f g" "inside f base p"
  shows "fs_read f p = fs_read g p"
proof -
  obtain q where q: "resolve f p = Some q" "prefix base q" using assms(2) by (auto simp: inside_def)
  then have "resolve g p = Some q" using assms(1) by (simp add: resolve_agree)
  moreover have "f q = g q" using assms(1) q(2) by (simp add: agree_def)
  ultimately show ?thesis using q(1) by (simp add: fs_read_def)
qed

lemma inside_is_file: "agree base f g \<Longrightarrow> inside f base p \<Longrightarrow> is_file f p = is_file g p"
  by (simp add: is_file_def inside_read)

lemma inside_agree: "agree base f g \<Longrightarrow> inside f base p = inside g base p"
  by (simp add: inside_def resolve_agree)

lemma jail_inside:
  assumes "jail fs base p = Inr (Some q)"
  shows "resolve fs q = Some q \<and> prefix base q"
proof -
  obtain r where "resolve fs r = Some q" "prefix base q"
    using assms by (auto simp: jail_def split: if_splits)
  then show ?thesis by (simp add: resolve_idem)
qed

lemma jail_inside': "jail fs base p = Inr (Some q) \<Longrightarrow> inside fs base q"
  using jail_inside by (simp add: inside_def)

text \<open>A path of a listing: the names the file system gives, under the root.\<close>

definition proper_name :: "pystr \<Rightarrow> bool" where
  "proper_name c \<longleftrightarrow> c \<noteq> [] \<and> c \<noteq> ''.'' \<and> CHR ''/'' \<notin> set c \<and> nul \<notin> set c"

definition listed :: "path \<Rightarrow> path \<Rightarrow> bool" where
  "listed base p \<longleftrightarrow> list_all proper_name p \<and> strict_prefix base p"

lemma split_on_none: "d \<notin> set w \<Longrightarrow> split_on d w = [w]"
  by (induction w) auto

lemma split_on_first: "d \<notin> set w \<Longrightarrow> split_on d (w @ d # s) = w # split_on d s"
  by (induction w) auto

lemma split_on_join:
  "list_all (\<lambda>w. d \<notin> set w) p \<Longrightarrow> p \<noteq> [] \<Longrightarrow> split_on d (join_with [d] p) = p"
  by (induction "[d]" p rule: join_with.induct) (simp_all add: split_on_none split_on_first)

definition plain_name :: "pystr \<Rightarrow> bool" where
  "plain_name c \<longleftrightarrow> c \<noteq> [] \<and> c \<noteq> ''.'' \<and> CHR ''/'' \<notin> set c"

lemma proper_plain: "list_all proper_name p \<Longrightarrow> list_all plain_name p"
  by (auto simp: list_all_iff proper_name_def plain_name_def)

lemma components_join:
  assumes "list_all plain_name p"
  shows "components (join_with ''/'' p) = p"
proof (cases "p = []")
  case False
  have "split_on (CHR ''/'') (join_with ''/'' p) = p"
    using assms False by (intro split_on_join) (auto simp: list_all_iff plain_name_def)
  then show ?thesis using assms by (auto simp: components_def filter_id_conv list_all_iff plain_name_def)
qed (simp add: components_def)

lemma join_no_nul: "list_all proper_name p \<Longrightarrow> nul \<notin> set (join_with ''/'' p)"
  by (induction "''/''" p rule: join_with.induct) (auto simp: proper_name_def nul_def)

lemma jail_absolute: "listed base p \<Longrightarrow> jail fs base (absolute_text p) =
    (case resolve fs p of None \<Rightarrow> Inl LoopExc | Some q \<Rightarrow> Inr (if prefix base q then Some q else None))"
proof -
  assume l: "listed base p"
  have "components (CHR ''/'' # s) = components s" for s by (simp add: components_def)
  then have "components (absolute_text p) = p" using l by (simp add: absolute_text_def components_join proper_plain listed_def)
  moreover have "nul \<notin> set (absolute_text p)" using l join_no_nul by (auto simp: absolute_text_def listed_def nul_def)
  moreover have "is_absolute (absolute_text p)" by (simp add: is_absolute_def absolute_text_def)
  ultimately show ?thesis by (auto simp: jail_def or_raise_def split: option.splits)
qed

lemma jail_relative: "listed base p \<Longrightarrow> jail fs base (relative_text base p) =
    (case resolve fs p of None \<Rightarrow> Inl LoopExc | Some q \<Rightarrow> Inr (if prefix base q then Some q else None))"
proof -
  assume l: "listed base p"
  obtain r where r: "p = base @ r" "r \<noteq> []" using l by (auto simp: listed_def strict_prefix_def prefix_def)
  have pr: "list_all proper_name r" using l r by (auto simp: listed_def)
  have t: "relative_text base p = join_with ''/'' r" using r by (simp add: relative_text_def path_text_def)
  obtain w ws where w: "r = w # ws" "proper_name w" using pr r(2) by (cases r) auto
  then obtain c cs where c: "w = c # cs" "c \<noteq> CHR ''/''" by (cases w) (auto simp: proper_name_def)
  have "\<not> is_absolute (join_with ''/'' r)"
    using w(1) c by (cases ws) (simp_all add: is_absolute_def)
  then show ?thesis using join_no_nul [OF pr] components_join [OF proper_plain [OF pr]] r t
    by (auto simp: jail_def or_raise_def split: option.splits)
qed

text \<open>The filter of a listing keeps the files that really lie in the repository, and never raises.\<close>

lemma jailed_files_filter:
  assumes "\<And>p. listed base p \<Longrightarrow> jail fs base (name p) =
      (case resolve fs p of None \<Rightarrow> Inl LoopExc | Some q \<Rightarrow> Inr (if prefix base q then Some q else None))"
    "list_all (listed base) ps"
  shows "jailed_files fs base name ps = Inr (filter (is_file fs) (filter (inside fs base) ps))"
  using assms(2)
proof (induction ps)
  case (Cons p ps)
  then show ?case
    using assms(1) [of p] by (auto simp: inside_def is_file_def fs_read_def split: option.splits)
qed simp

section \<open>The answers\<close>

text \<open>
  What is assumed of a listing: it names entries below the root, and which of the entries that
  really lie in the repository it names does not depend on the files outside.
\<close>

definition fair_listing :: "path \<Rightarrow> fs \<Rightarrow> fs \<Rightarrow> tool_exc + path list \<Rightarrow> tool_exc + path list \<Rightarrow> bool" where
  "fair_listing base f g l l' \<longleftrightarrow>
     (case (l, l') of
        (Inr ps, Inr qs) \<Rightarrow>
          list_all (listed base) ps \<and> list_all (listed base) qs \<and> filter (inside f base) ps = filter (inside g base) qs
      | (Inl e, Inl e') \<Rightarrow> e = e'
      | _ \<Rightarrow> False)"

lemma fair_jailed:
  assumes "agree base f g" "fair_listing base f g l l'"
    and "\<And>fs p. listed base p \<Longrightarrow> jail fs base (name p) =
      (case resolve fs p of None \<Rightarrow> Inl LoopExc | Some q \<Rightarrow> Inr (if prefix base q then Some q else None))"
  shows "and_then l (jailed_files f base name) = and_then l' (jailed_files g base name)
    \<and> (\<forall>ps. and_then l (jailed_files f base name) = Inr ps \<longrightarrow> list_all (inside f base) ps)"
proof (cases l)
  case (Inl e)
  then show ?thesis using assms(2) by (cases l') (auto simp: fair_listing_def)
next
  case (Inr ps)
  then obtain qs where qs: "l' = Inr qs" "list_all (listed base) ps" "list_all (listed base) qs"
    "filter (inside f base) ps = filter (inside g base) qs"
    using assms(2) by (cases l') (auto simp: fair_listing_def)
  have "filter (is_file f) (filter (inside f base) ps) = filter (is_file g) (filter (inside f base) ps)"
    using inside_is_file [OF assms(1)] by (auto intro: filter_cong)
  then show ?thesis
    using Inr qs jailed_files_filter [of base f name ps, OF assms(3)] jailed_files_filter [of base g name qs, OF assms(3)]
    using inside_agree [OF assms(1)] by (auto simp: list_all_iff)
qed

lemma read_agree: "agree base f g \<Longrightarrow> read_tool f base p off cnt = read_tool g base p off cnt"
proof -
  assume a: "agree base f g"
  have "fs_read f fp = fs_read g fp" if "jail g base s = Inr (Some fp)" for s fp
    using inside_read [OF a, of fp] jail_inside' [OF that] inside_agree [OF a] by simp
  then show ?thesis
    by (cases p) (auto simp: read_tool_def jail_agree [OF a] and_then_def split: sum.splits option.splits)
qed

lemma glob_agree:
  assumes "agree base f g" "\<And>pat. fair_listing base f g (glob_of f base pat) (glob_of g base pat)"
  shows "glob_tool glob_of exc_text f base p = glob_tool glob_of exc_text g base p"
  using fair_jailed [OF assms(1) assms(2) jail_relative] by (simp add: glob_tool_def Let_def)

lemma grep_files_agree:
  "agree base f g \<Longrightarrow> list_all (inside f base) ps \<Longrightarrow> grep_files rx f base ctx ps st = grep_files rx g base ctx ps st"
  by (induction ps arbitrary: st) (simp_all add: inside_read split: option.splits)

lemma fair_sorted:
  assumes "agree base f g" "fair_listing base f g l l'"
  defines "files \<equiv> \<lambda>fs l. and_then l (\<lambda>ps. and_then (jailed_files fs base absolute_text ps) (\<lambda>qs. Inr (Inr (sort qs))))"
  shows "files f l = files g l' \<and> (\<forall>fps. files f l = Inr (Inr fps) \<longrightarrow> list_all (inside f base) fps)"
proof -
  have files: "files fs l = and_then (and_then l (jailed_files fs base absolute_text)) (\<lambda>qs. Inr (Inr (sort qs)))" for fs l
    unfolding files_def by (cases l) simp_all
  show ?thesis
    using fair_jailed [OF assms(1,2) jail_absolute] unfolding files by (auto simp: list_all_iff)
qed

lemma grep_targets_agree:
  assumes a: "agree base f g" and glob: "\<And>pat. fair_listing base f g (glob_of f base pat) (glob_of g base pat)"
    and rglob: "\<And>d. prefix base d \<Longrightarrow> fair_listing base f g (Inr (rglob_of f d)) (Inr (rglob_of g d))"
  shows "grep_targets glob_of rglob_of f base path pat = grep_targets glob_of rglob_of g base path pat
    \<and> (\<forall>fps. grep_targets glob_of rglob_of f base path pat = Inr (Inr fps) \<longrightarrow> list_all (inside f base) fps)"
proof -
  note sorted = fair_sorted [OF a rglob, simplified]
  consider "truthy path" "py_text_of path = Inl TypeExc" | p where "truthy path" "py_text_of path = Inr p"
    | "\<not> truthy path" "truthy pat" | "\<not> truthy path" "\<not> truthy pat"
    by (cases path) auto
  then show ?thesis
  proof cases
    case (2 p)
    consider e where "jail f base p = Inl e" | "jail f base p = Inr None" | t where "jail f base p = Inr (Some t)"
      by (cases "jail f base p") auto
    then show ?thesis
    proof cases
      case (3 t)
      then have t: "inside f base t" "prefix base t" using jail_inside jail_inside' by blast+
      then have "is_file f t = is_file g t" using inside_is_file [OF a] by blast
      then show ?thesis using 2 3 t sorted [OF t(2)] jail_agree [OF a, of p]
        by (cases "is_file g t") (auto simp: grep_targets_def)
    qed (use 2 jail_agree [OF a] in \<open>simp_all add: grep_targets_def\<close>)
  next
    case 3
    then show ?thesis using fair_sorted [OF a glob]
      by (cases pat) (simp_all add: grep_targets_def)
  next
    case 4
    then show ?thesis using sorted [of base] by (simp add: grep_targets_def)
  qed (simp add: grep_targets_def)
qed

lemma grep_agree:
  assumes a: "agree base f g" and glob: "\<And>pat. fair_listing base f g (glob_of f base pat) (glob_of g base pat)"
    and rglob: "\<And>d. prefix base d \<Longrightarrow> fair_listing base f g (Inr (rglob_of f d)) (Inr (rglob_of g d))"
  shows "grep_tool glob_of rglob_of compile f base args = grep_tool glob_of rglob_of compile g base args"
proof -
  note t = grep_targets_agree [where glob_of = glob_of and rglob_of = rglob_of, OF assms]
  have "grep_files rx f base ctx fps st = grep_files rx g base ctx fps st"
    if "grep_targets glob_of rglob_of g base path pat = Inr (Inr fps)" for rx ctx fps st path pat
    using that t grep_files_agree [OF a] by metis
  then show ?thesis using t by (auto simp: grep_tool_def and_then_def split: sum.splits)
qed

text \<open>C30. Whatever tool a model calls with whatever arguments, the answer is the same on two machines
  that differ only in the regular files outside the repository.\<close>

theorem tools_reveal_nothing_outside:
  assumes "agree base f g" "\<And>pat. fair_listing base f g (glob_of f base pat) (glob_of g base pat)"
    and "\<And>d. prefix base d \<Longrightarrow> fair_listing base f g (Inr (rglob_of f d)) (Inr (rglob_of g d))"
  shows "execute_tool glob_of rglob_of compile exc_text f base name args
    = execute_tool glob_of rglob_of compile exc_text g base name args"
  using read_agree [OF assms(1)] glob_agree [where glob_of = glob_of, OF assms(1,2)]
    grep_agree [where glob_of = glob_of and rglob_of = rglob_of, OF assms]
  by (simp add: execute_tool_def run_tool_def)

section \<open>Concrete machines\<close>

definition vault :: "pystr \<Rightarrow> fs" where
  "vault secret p =
     (if p = [] \<or> p = [''repo''] \<or> p = [''etc''] then Some Dir
      else if p = [''repo'', ''ERROR:a''] then Some (File ''4111111111111111'')
      else if p = [''repo'', ''link''] then Some (Link ''/etc/secret'')
      else if p = [''etc'', ''secret''] then Some (File secret)
      else None)"

definition repo_listing :: "fs \<Rightarrow> path \<Rightarrow> path list" where
  "repo_listing fs d = (if d = [''repo''] then [[''repo'', ''ERROR:a''], [''repo'', ''link'']] else [])"

lemma vault_agree: "agree [''repo''] (vault s) (vault t)"
  by (auto simp: agree_def vault_def)

lemma listing_fair: "fair_listing [''repo''] (vault s) (vault t) (Inr (repo_listing (vault s) d)) (Inr (repo_listing (vault t) d))"
proof -
  have "inside (vault s) [''repo''] = inside (vault t) [''repo'']" using inside_agree [OF vault_agree] by blast
  then show ?thesis
    by (simp add: fair_listing_def repo_listing_def listed_def proper_name_def nul_def strict_prefix_def)
qed

lemma vault_reads:
  "fs_read (vault s) [''repo'', ''link''] = Some s"
  "resolve (vault s) [''repo'', ''link''] = Some [''etc'', ''secret'']"
  "resolve (vault s) [''repo'', ''ERROR:a''] = Some [''repo'', ''ERROR:a'']"
  "fs_read (vault s) [''repo'', ''ERROR:a''] = Some ''4111111111111111''"
proof -
  have etc: "components ''/etc/secret'' = [''etc'', ''secret'']" by (simp add: components_def)
  show l: "resolve (vault s) [''repo'', ''link''] = Some [''etc'', ''secret'']"
    by (simp add: resolve_def resolve_from_plain resolve_from_link not_link_def vault_def etc is_absolute_def)
  show e: "resolve (vault s) [''repo'', ''ERROR:a''] = Some [''repo'', ''ERROR:a'']"
    by (simp add: resolve_def resolve_from_plain not_link_def vault_def)
  show "fs_read (vault s) [''repo'', ''link''] = Some s" "fs_read (vault s) [''repo'', ''ERROR:a''] = Some ''4111111111111111''"
    by (simp_all add: fs_read_def l e) (simp_all add: vault_def)
qed

text \<open>
  The answer to a call that follows the link, or searches every file, does not tell the two
  secrets apart, although the link leads to the file in which they differ.
\<close>

theorem tools_reveal_nothing_outside_witness:
  "fs_read (vault ''x'') [''repo'', ''link''] = Some ''x'' \<and> fs_read (vault ''y'') [''repo'', ''link''] = Some ''y''
    \<and> execute_tool (\<lambda>fs d pat. Inr (repo_listing fs d)) repo_listing (\<lambda>p ic. Inr (\<lambda>l. True)) (\<lambda>e. []) (vault ''x'') [''repo''] ''Grep'' []
    = execute_tool (\<lambda>fs d pat. Inr (repo_listing fs d)) repo_listing (\<lambda>p ic. Inr (\<lambda>l. True)) (\<lambda>e. []) (vault ''y'') [''repo''] ''Grep'' []"
  by (intro conjI vault_reads(1), rule tools_reveal_nothing_outside [OF vault_agree]) (rule listing_fair)+

text \<open>
  A file of the repository can make its own text pass for an error message: its name opens
  the answer of a search, and an answer that opens with \<open>ERROR:\<close> is not redacted.
\<close>

lemma error_name_unmasked:
  "execute_tool (\<lambda>fs d pat. Inr []) repo_listing (\<lambda>p ic. Inr (\<lambda>l. True)) (\<lambda>e. []) (vault ''x'') [''repo''] ''Grep'' []
    = ''ERROR:a:1:4111111111111111''"
proof -
  let ?a = "[''repo'', ''ERROR:a'']" and ?l = "[''repo'', ''link'']" and ?v = "vault ''x''"
  have l: "list_all (listed [''repo'']) [?a, ?l]" by (simp add: listed_def proper_name_def nul_def strict_prefix_def)
  have "jailed_files ?v [''repo''] absolute_text [?a, ?l] = Inr [?a]"
    by (subst jailed_files_filter [OF jail_absolute l], assumption)
      (simp add: inside_def vault_reads is_file_def)
  then have t: "grep_targets (\<lambda>fs d pat. Inr []) repo_listing ?v [''repo''] PNone PNone = Inr (Inr [?a])"
    by (simp add: grep_targets_def repo_listing_def del: jailed_files.simps)
  have lines: "splitlines (take (max_bytes * 8) ''4111111111111111'') = [''4111111111111111'']"
    by (simp add: max_bytes_def splitlines_def line_break_def)
  have one: "show_nat (Suc 0) = ''1''" by code_simp
  have "grep_files (\<lambda>l. True) ?v [''repo''] 0 [?a] \<lparr>g_out = [], g_count = 0\<rparr> = Inr \<lparr>g_out = [''ERROR:a:1:4111111111111111''], g_count = 1\<rparr>"
    by (simp add: vault_reads one grep_text_def lines grep_line_def match_lines_def relative_text_def path_text_def replace_char_def
      max_matches_def max_grep_line_def clip_def)
  then show ?thesis using t
    by (simp add: execute_tool_def run_tool_def tool_names_def grep_tool_def py_get_def dict_get_or_def finish_result_def)
qed

end
