(* ===== verification/ToolGate.thy ===== *)
theory ToolGate
  imports Sandbox
begin

text \<open>
  The permission gates of the sessions that may write: the gate of the remediation agent
  (\<open>backends/agent_sdk.py\<close>), with the redaction of tool results, and the policy of a
  validation session (\<open>backends/harness/contract/permissions\<close>).
\<close>

section \<open>The remediation agent\<close>

definition write_tools :: "pystr list" where
  "write_tools = [''Edit'', ''Write'', ''MultiEdit'', ''NotebookEdit'']"

definition read_tools :: "pystr list" where
  "read_tools = [''Read'', ''Glob'', ''Grep'', ''LS'', ''NotebookRead'']"

definition redact_tools :: "pystr list" where
  "redact_tools = read_tools @ [''Bash'']"

text \<open>
  \<open>candidate.is_symlink()\<close> looks at the entry itself, in the resolved parent.  A loop of links
  on the way raises a \<open>RuntimeError\<close>, which is not caught.
\<close>

definition is_symlink :: "fs \<Rightarrow> path \<Rightarrow> bool" where
  "is_symlink fs p =
     (p \<noteq> [] \<and> last p \<noteq> ''..'' \<and>
       (case resolve fs (butlast p) of
          None \<Rightarrow> False
        | Some d \<Rightarrow> (case fs (d @ [last p]) of Some (Link _) \<Rightarrow> True | _ \<Rightarrow> False)))"

fun resolve_within_base :: "fs \<Rightarrow> path \<Rightarrow> pyval \<Rightarrow> path_error + path option" where
  "resolve_within_base fs base (PStr raw) =
     (if raw = [] \<or> nul \<in> set raw then Inr None
      else
        let candidate = (if is_absolute raw then components raw else base @ components raw) in
        if is_symlink fs candidate then Inr None
        else and_then (or_raise (resolve fs candidate) SymlinkLoop)
               (\<lambda>target. Inr (if prefix base target then Some target else None)))"
| "resolve_within_base fs base _ = Inr None"

definition within_base :: "fs \<Rightarrow> path \<Rightarrow> pyval \<Rightarrow> path_error + bool" where
  "within_base fs base raw = and_then (resolve_within_base fs base raw) (\<lambda>r. Inr (r \<noteq> None))"

text \<open>
  The outcome of a gate: an input to go on with, or a refusal.  The text of a refused target
  is a parameter; dashes are written as their UTF-8 bytes.
\<close>

datatype gate_answer = GateAllow pymap | GateDeny pystr

definition gate_keys :: "pystr list" where
  "gate_keys = [''file_path'', ''path'', ''notebook_path'']"

definition gate_target :: "pymap \<Rightarrow> (pystr \<times> pyval) option" where
  "gate_target args =
     (case filter (\<lambda>k. truthy (py_get args k)) gate_keys of [] \<Rightarrow> None | k # _ \<Rightarrow> Some (k, py_get args k))"

definition gate ::
    "(pystr \<Rightarrow> pyval \<Rightarrow> pystr) \<Rightarrow> fs \<Rightarrow> path \<Rightarrow> pystr \<Rightarrow> pymap \<Rightarrow> path_error + gate_answer" where
  "gate deny_text fs base tool args =
     (if tool \<in> set write_tools then
        (case gate_target args of
           None \<Rightarrow> Inr (GateDeny (deny_text tool PNone))
         | Some (key, raw) \<Rightarrow>
             and_then (resolve_within_base fs base raw) (\<lambda>r.
               Inr (case r of
                      None \<Rightarrow> GateDeny (deny_text tool raw)
                    | Some target \<Rightarrow> GateAllow (dict_set key (PStr (absolute_text target)) args))))
      else if tool \<in> set read_tools then Inr (GateAllow args)
      else Inr (GateDeny (tool @ '' is not permitted in remediation fix mode '' @ [CHR 0xE2, CHR 0x80, CHR 0x94]
        @ '' only Read/Glob/Grep and cwd-confined Edit/Write are allowed (Bash and other tools are denied by default).'')))"

section \<open>Redaction of tool results\<close>

definition redacted_keys :: "pystr list" where
  "redacted_keys = [''text'', ''content'', ''stdout'', ''stderr'', ''output'']"

fun redact_tool_output :: "pyval \<Rightarrow> pyval" where
  "redact_tool_output (PStr s) = PStr (fst (redact_counts s))"
| "redact_tool_output (PList vs) = PList (map redact_tool_output vs)"
| "redact_tool_output (PDict m) =
     PDict (map (\<lambda>kv. (fst kv, if fst kv \<in> set redacted_keys then redact_tool_output (snd kv) else snd kv)) m)"
| "redact_tool_output v = v"

text \<open>The hook after a tool call: the replacement it asks for, if any.\<close>

definition post_tool_use :: "pymap \<Rightarrow> pyval option" where
  "post_tool_use call =
     (case py_get call ''tool_name'' of
        PStr tool \<Rightarrow>
          (if tool \<notin> set redact_tools \<or> py_get call ''tool_response'' = PNone then None
           else
             let response = py_get call ''tool_response''; masked = redact_tool_output response in
             if masked = response then None else Some masked)
      | _ \<Rightarrow> None)"

section \<open>The validation session\<close>

record permission_decision =
  pd_allow :: bool
  pd_reason :: pystr
  pd_interrupt :: bool

definition allowed :: permission_decision where
  "allowed = \<lparr>pd_allow = True, pd_reason = [], pd_interrupt = False\<rparr>"

definition denied :: "pystr \<Rightarrow> permission_decision" where
  "denied reason = \<lparr>pd_allow = False, pd_reason = reason, pd_interrupt = True\<rparr>"

definition resolve_write_path :: "fs \<Rightarrow> pymap \<Rightarrow> path \<Rightarrow> path_error + path option" where
  "resolve_write_path fs args target =
     (case py_get args ''file_path'' of
        PStr raw \<Rightarrow>
          (if raw = [] \<or> nul \<in> set raw then Inr None
           else and_then (or_raise (resolve fs (if is_absolute raw then components raw else target @ components raw)) SymlinkLoop)
                  (\<lambda>q. Inr (Some q)))
      | _ \<Rightarrow> Inr None)"

definition under_target :: "path \<Rightarrow> path \<Rightarrow> bool" where
  "under_target resolved target \<longleftrightarrow> butlast resolved = target"

definition name_of :: "path \<Rightarrow> pystr" where
  "name_of p = (if p = [] then [] else last p)"

definition evaluate_write :: "fs \<Rightarrow> pymap \<Rightarrow> path \<Rightarrow> pystr list \<Rightarrow> path_error + permission_decision" where
  "evaluate_write fs args target allowed_files =
     and_then (resolve_write_path fs args target) (\<lambda>r.
       Inr (case r of
              None \<Rightarrow> denied ''Write path missing or unresolvable''
            | Some q \<Rightarrow>
                if \<not> under_target q target \<or> name_of q \<notin> set allowed_files
                then denied (''Write to disallowed path: '' @ absolute_text q)
                else allowed))"

definition read_only_tools :: "pystr list" where
  "read_only_tools = [''Read'', ''Grep'', ''Glob'', ''Agent'', ''Task'', ''TodoWrite'', ''Skill'']"

definition evaluate_simple :: "pystr \<Rightarrow> permission_decision" where
  "evaluate_simple tool =
     (if tool \<in> {''Edit'', ''NotebookEdit''} then denied ''read-only validation session: Edit/NotebookEdit blocked''
      else if tool \<in> set read_only_tools \<or> prefix ''mcp__'' tool then allowed
      else denied (''tool not permitted in read-only validation session: '' @ tool))"

definition evaluate :: "fs \<Rightarrow> path \<Rightarrow> pystr list \<Rightarrow> pystr \<Rightarrow> pymap \<Rightarrow> path_error + permission_decision" where
  "evaluate fs target_dir allowed_files tool args =
     and_then (or_raise (resolve fs target_dir) SymlinkLoop) (\<lambda>target.
       if tool = ''Write'' then evaluate_write fs args target allowed_files
       else if tool = ''Bash'' then
         Inr (denied (''Bash is disabled in validation sessions '' @ [CHR 0xE2, CHR 0x80, CHR 0x94]
           @ '' no shell execution permitted''))
       else Inr (evaluate_simple tool))"

end
