(* ===== verification/ToolGateProps.thy ===== *)
theory ToolGateProps
  imports ToolGate SandboxProps
begin

text \<open>
  What the gates admit: exactly which calls of a validation session pass, and where a write
  of the remediation agent can land.
\<close>

section \<open>The validation session\<close>

lemma evaluate_write_allow:
  "(\<exists>d. evaluate_write fs args target files = Inr d \<and> pd_allow d) \<longleftrightarrow>
    (\<exists>q. resolve_write_path fs args target = Inr (Some q) \<and> butlast q = target \<and> name_of q \<in> set files)"
  by (cases "resolve_write_path fs args target")
    (auto simp: evaluate_write_def allowed_def denied_def under_target_def split: option.splits if_splits)

lemma resolve_write_path_Some:
  "resolve_write_path fs args target = Inr (Some q) \<longleftrightarrow>
    (\<exists>raw. py_get args ''file_path'' = PStr raw \<and> raw \<noteq> [] \<and> nul \<notin> set raw \<and>
      resolve fs (if is_absolute raw then components raw else target @ components raw) = Some q)"
  by (cases "py_get args ''file_path''") (auto simp: resolve_write_path_def)

lemma snoc_iff: "[] \<notin> set files \<Longrightarrow> butlast q = target \<and> name_of q \<in> set files \<longleftrightarrow> (\<exists>n \<in> set files. q = target @ [n])"
  by (cases q rule: rev_cases) (auto simp: name_of_def)

text \<open>A validation session admits exactly the read and orchestration tools, the tools of a
  connected server, and a write whose path resolves to one of the output files directly in the
  target; every other call, the shell's among them, is refused.\<close>

lemma session_admits_iff:
  assumes "resolve fs dir = Some target" "[] \<notin> set files"
  shows "(\<exists>d. evaluate fs dir files tool args = Inr d \<and> pd_allow d) \<longleftrightarrow>
    (if tool = ''Write'' then
       \<exists>raw n. py_get args ''file_path'' = PStr raw \<and> raw \<noteq> [] \<and> nul \<notin> set raw \<and> n \<in> set files \<and>
         resolve fs (if is_absolute raw then components raw else target @ components raw) = Some (target @ [n])
     else tool \<in> set read_only_tools \<or> prefix ''mcp__'' tool)"
proof (cases "tool = ''Write''")
  case True
  then have "(\<exists>d. evaluate fs dir files tool args = Inr d \<and> pd_allow d) \<longleftrightarrow>
      (\<exists>q. resolve_write_path fs args target = Inr (Some q) \<and> butlast q = target \<and> name_of q \<in> set files)"
    using assms(1) evaluate_write_allow [of fs args target files] by (simp add: evaluate_def or_raise_def)
  also have "\<dots> \<longleftrightarrow> (\<exists>q. (\<exists>raw. py_get args ''file_path'' = PStr raw \<and> raw \<noteq> [] \<and> nul \<notin> set raw \<and>
      resolve fs (if is_absolute raw then components raw else target @ components raw) = Some q) \<and> (\<exists>n \<in> set files. q = target @ [n]))"
    unfolding resolve_write_path_Some snoc_iff [OF assms(2)] ..
  also have "\<dots> \<longleftrightarrow> (\<exists>raw n. py_get args ''file_path'' = PStr raw \<and> raw \<noteq> [] \<and> nul \<notin> set raw \<and> n \<in> set files \<and>
      resolve fs (if is_absolute raw then components raw else target @ components raw) = Some (target @ [n]))"
    by blast
  finally show ?thesis using True by (simp only: if_True simp_thms)
next
  case False
  have "\<not> prefix ''mcp__'' ''Bash''" "\<not> prefix ''mcp__'' ''Edit''" "\<not> prefix ''mcp__'' ''NotebookEdit''"
    by simp_all
  then show ?thesis using False assms(1)
    by (auto simp: evaluate_def evaluate_simple_def or_raise_def allowed_def denied_def read_only_tools_def)
qed

definition bench :: fs where
  "bench p = (if p = [] \<or> p = [''out''] then Some Dir else if p = [''out'', ''l''] then Some (Link ''/gates.json'') else None)"

lemma bench_resolve:
  "resolve bench [''out''] = Some [''out'']" "resolve bench [''out'', ''gates.json''] = Some [''out'', ''gates.json'']"
  "resolve bench [''out'', ''l''] = Some [''gates.json'']"
  by (simp_all add: resolve_def resolve_from_plain resolve_from_link not_link_def bench_def is_absolute_def components_def)

theorem session_admits_iff_witness:
  "(\<exists>d. evaluate bench [''out''] [''gates.json''] ''Write'' [(''file_path'', PStr ''gates.json'')] = Inr d \<and> pd_allow d)
    \<and> \<not> (\<exists>d. evaluate bench [''out''] [''gates.json''] ''Write'' [(''file_path'', PStr ''l'')] = Inr d \<and> pd_allow d)"
proof -
  have c: "components ''gates.json'' = [''gates.json'']" "components ''l'' = [''l'']" by (simp_all add: components_def)
  show ?thesis
    using session_admits_iff [OF bench_resolve(1), of "[''gates.json'']" "''Write''" "[(''file_path'', PStr ''gates.json'')]"]
      session_admits_iff [OF bench_resolve(1), of "[''gates.json'']" "''Write''" "[(''file_path'', PStr ''l'')]"]
    by (simp add: c bench_resolve is_absolute_def nul_def)
qed

section \<open>The remediation agent\<close>






lemma bench_a:
  "resolve_within_base bench [''out''] (PStr ''a'') = Inr (Some [''out'', ''a''])" "absolute_text [''out'', ''a''] = ''/out/a''"
proof -
  have "resolve bench [''out'', ''a''] = Some [''out'', ''a'']" "components ''a'' = [''a'']"
    by (simp_all add: resolve_def resolve_from_plain not_link_def bench_def components_def)
  then show "resolve_within_base bench [''out''] (PStr ''a'') = Inr (Some [''out'', ''a''])"
    by (simp add: is_symlink_def bench_resolve is_absolute_def nul_def or_raise_def) (simp add: bench_def)
qed (simp add: absolute_text_def)


text \<open>
  The gate checks the first key that has a value.  A notebook edit takes its place from
  another key, which passes unchecked when a harmless \<open>file_path\<close> comes with it.
\<close>

lemma gate_second_key_passes:
  "gate (\<lambda>_ _. []) bench [''out''] ''NotebookEdit'' [(''file_path'', PStr ''a''), (''notebook_path'', PStr ''/etc/passwd'')]
    = Inr (GateAllow [(''file_path'', PStr ''/out/a''), (''notebook_path'', PStr ''/etc/passwd'')])"
  using bench_a by (simp add: gate_def write_tools_def gate_target_def gate_keys_def)

section \<open>Redaction\<close>

text \<open>Only five keys of a result are followed: text under any other key is passed on as it is.\<close>

lemma nested_result_kept:
  "redact_tool_output (PDict [(''file'', PDict [(''content'', PStr s)])]) = PDict [(''file'', PDict [(''content'', PStr s)])]"
  by (simp add: redacted_keys_def)

end
