(* ===== verification/JsonExtract.thy ===== *)
theory JsonExtract
  imports Regex PyVal
begin

text \<open>
  Finding the JSON value in a model's reply (\<open>util/json_extract.py\<close>): the fenced blocks, the
  scan for a balanced span, the repair of escapes and the choice among the values.  The parser
  \<open>json.loads\<close> is the parameter \<open>loads\<close>, \<open>None\<close> its refusal.
\<close>

section \<open>Escapes\<close>

definition json_backslash :: char where "json_backslash = CHR 0x5C"
definition json_quote :: char where "json_quote = CHR 0x22"

definition valid_escapes :: pystr where
  "valid_escapes = [json_quote, json_backslash] @ ''/nrtu''"

fun repair_invalid_escapes :: "pystr \<Rightarrow> pystr" where
  "repair_invalid_escapes [] = []"
| "repair_invalid_escapes [c] = (if c = json_backslash then [json_backslash, json_backslash] else [c])"
| "repair_invalid_escapes (c # d # cs) =
     (if c = json_backslash then
        (if d \<in> set valid_escapes then c # d # repair_invalid_escapes cs
         else json_backslash # json_backslash # repair_invalid_escapes (d # cs))
      else c # repair_invalid_escapes (d # cs))"

section \<open>Balanced spans\<close>

text \<open>How many characters from here to the bracket that closes the first one.\<close>

fun span_len :: "char \<Rightarrow> char \<Rightarrow> int \<Rightarrow> bool \<Rightarrow> bool \<Rightarrow> pystr \<Rightarrow> nat option" where
  "span_len opn cls depth in_str esc [] = None"
| "span_len opn cls depth in_str esc (c # cs) =
     map_option Suc
       (if in_str then
          (if esc then span_len opn cls depth True False cs
           else if c = json_backslash then span_len opn cls depth True True cs
           else if c = json_quote then span_len opn cls depth False False cs
           else span_len opn cls depth True False cs)
        else if c = json_quote then span_len opn cls depth True esc cs
        else if c = opn then span_len opn cls (depth + 1) False esc cs
        else if c = cls then (if depth - 1 = 0 then Some 0 else span_len opn cls (depth - 1) False esc cs)
        else span_len opn cls depth False esc cs)"

definition closer :: "char \<Rightarrow> char" where
  "closer c = (if c = CHR ''{'' then CHR ''}'' else CHR '']'')"

text \<open>The span that starts at the head of the text.\<close>

definition balanced_span :: "pystr \<Rightarrow> pystr option" where
  "balanced_span s =
     (case s of [] \<Rightarrow> None | c # _ \<Rightarrow> map_option (\<lambda>n. take n s) (span_len c (closer c) 0 False False s))"

lemma span_len_pos: "span_len opn cls d q e s = Some n \<Longrightarrow> 0 < n \<and> n \<le> length s"
proof (induction opn cls d q e s arbitrary: n rule: span_len.induct)
  case (2 opn cls depth in_str esc c cs)
  then show ?case by (auto split: if_splits) 
qed simp

lemma balanced_span_length: "balanced_span s = Some w \<Longrightarrow> 0 < length w \<and> length w \<le> length s"
  by (auto simp: balanced_span_def split: list.splits dest!: span_len_pos)

section \<open>The choice of a value\<close>

definition opener :: "char \<Rightarrow> bool" where
  "opener c \<longleftrightarrow> c = CHR ''{'' \<or> c = CHR ''[''"

definition load_repaired :: "(pystr \<Rightarrow> pyval option) \<Rightarrow> pystr \<Rightarrow> pyval option" where
  "load_repaired loads w =
     (case loads w of
        Some v \<Rightarrow> Some v
      | None \<Rightarrow> (let repaired = repair_invalid_escapes w in if repaired \<noteq> w then loads repaired else None))"

text \<open>
  What the scan of a candidate carries on: the first list held back, and whether the parser
  has refused a span.
\<close>

fun is_list :: "pyval \<Rightarrow> bool" where
  "is_list (PList _) = True"
| "is_list _ = False"

record json_scan =
  js_held :: "pyval option"
  js_err :: bool

datatype scan_result = Found pyval | Goes json_scan

function scan_candidate :: "(pystr \<Rightarrow> pyval option) \<Rightarrow> bool \<Rightarrow> pystr \<Rightarrow> json_scan \<Rightarrow> scan_result" where
  "scan_candidate loads want_dict [] st = Goes st"
| "scan_candidate loads want_dict (c # cs) st =
     (if \<not> opener c then scan_candidate loads want_dict cs st
      else case balanced_span (c # cs) of
        None \<Rightarrow> scan_candidate loads want_dict cs st
      | Some w \<Rightarrow>
          let st = (if loads w = None then st\<lparr>js_err := True\<rparr> else st); rest = drop (length w) (c # cs) in
          case load_repaired loads w of
            None \<Rightarrow> scan_candidate loads want_dict rest st
          | Some v \<Rightarrow>
              if want_dict \<and> is_list v then
                scan_candidate loads want_dict rest (if js_held st = None then st\<lparr>js_held := Some v\<rparr> else st)
              else Found v)"
  by pat_completeness auto

termination
  by (relation "measure (\<lambda>(_, _, s, _). length s)") (auto dest!: balanced_span_length)

fun scan_candidates :: "(pystr \<Rightarrow> pyval option) \<Rightarrow> bool \<Rightarrow> pystr list \<Rightarrow> json_scan \<Rightarrow> scan_result" where
  "scan_candidates loads want_dict [] st = Goes st"
| "scan_candidates loads want_dict (cand # cands) st =
     (case scan_candidate loads want_dict cand st of
        Found v \<Rightarrow> Found v
      | Goes st' \<Rightarrow> scan_candidates loads want_dict cands st')"

section \<open>Candidates\<close>

definition fence_block_re :: re where
  "fence_block_re = seqs [lit ''```'', opt (lit ''json''), star (Cls py_space), Grp 1 (Rep False 0 None (Cls (\<lambda>_. True))),
     star (Cls py_space), lit ''```'']"

definition fence_open_re :: re where
  "fence_open_re = seqs [Bol, lit ''```'', star (Cls word_char), star (Cls py_space)]"

definition fullmatch_group :: "re \<Rightarrow> pystr \<Rightarrow> pystr option" where
  "fullmatch_group r s =
     (case filter (\<lambda>st. fst st = length s) (re_at r s (0, [])) of
        [] \<Rightarrow> None
      | (j, caps) # _ \<Rightarrow> Some (group_or s \<lparr>m_start = 0, m_end = j, m_caps = caps\<rparr> 1))"

definition max_json_input :: nat where "max_json_input = 5000000"

definition json_candidates :: "pystr \<Rightarrow> pystr list" where
  "json_candidates text =
     (case fullmatch_group fence_block_re (py_strip text) of None \<Rightarrow> [] | Some w \<Rightarrow> [w])
     @ map (\<lambda>m. group_or text m 1) (finditer fence_block_re text) @ [text]"

definition peek_dict :: "pystr \<Rightarrow> bool" where
  "peek_dict text \<longleftrightarrow>
     (let stripped = py_strip text;
          peek = (case match_at fence_open_re stripped 0 of None \<Rightarrow> stripped | Some m \<Rightarrow> drop (m_end m) stripped)
      in take 1 peek = ''{'')"

datatype json_error = DecodeError | NoObject

definition extract_json :: "(pystr \<Rightarrow> pyval option) \<Rightarrow> pystr \<Rightarrow> json_error + pyval" where
  "extract_json loads text =
     (let text = take max_json_input text in
      case scan_candidates loads (peek_dict text) (json_candidates text) \<lparr>js_held = None, js_err = False\<rparr> of
        Found v \<Rightarrow> Inr v
      | Goes st \<Rightarrow>
          (case js_held st of
             Some v \<Rightarrow> Inr v
           | None \<Rightarrow> if js_err st then Inl DecodeError else Inl NoObject))"

end
