(* ===== verification/CodeSlice.thy ===== *)
theory CodeSlice
  imports CallGraph DeepDive Redact "HOL-Library.Product_Lexorder"
begin

text \<open>
  Which lines of which files a chunk of the deep dive shows to the model
  (\<open>pipeline/stages/s4_deepdive.py\<close>): the slices along the call graph and along a taint path,
  the sliding windows, the fallback to whole files, and the excerpts of neighbours.  What a
  path of the repository holds is a parameter.  The walk of a set is a parameter where its
  order can be seen; elsewhere the ranges are sorted.  Line ranges are Python integers.
\<close>

section \<open>Sources and parts\<close>

datatype source_file = NoFile | ReadError pystr | Source pystr

definition window_lines :: nat where "window_lines = 600"
definition window_overlap :: nat where "window_overlap = 100"
definition max_line_chars :: nat where "max_line_chars = 8000"

definition source_lines :: "pystr \<Rightarrow> pystr list" where
  "source_lines text = map (take max_line_chars) (splitlines (redact_source text))"

text \<open>A part of the prompt; the lines of a block start with the number given.\<close>

datatype part =
    PartMissing pystr
  | PartUnreadable pystr pystr
  | PartWhole pystr "pystr list"
  | PartBlock pystr int int "pystr list"

text \<open>\<open>f"{i:5d}| {line}"\<close>\<close>

definition pad5 :: "pystr \<Rightarrow> pystr" where
  "pad5 s = replicate (5 - length s) (CHR '' '') @ s"

definition numbered_lines :: "int \<Rightarrow> pystr list \<Rightarrow> pystr" where
  "numbered_lines start ls =
     join_with [CHR 0x0A] (map (\<lambda>(i, l). pad5 (show_int (start + int i)) @ ''| '' @ l) (enumerate 0 ls))"

fun render_part :: "part \<Rightarrow> pystr" where
  "render_part (PartMissing rel) = ''=== '' @ rel @ '' ==='' @ [CHR 0x0A] @ ''[FILE NOT FOUND]'' @ [CHR 0x0A]"
| "render_part (PartUnreadable rel e) =
     ''=== '' @ rel @ '' ==='' @ [CHR 0x0A] @ ''[READ ERROR: '' @ e @ '']'' @ [CHR 0x0A]"
| "render_part (PartWhole rel ls) = ''=== '' @ rel @ '' ==='' @ [CHR 0x0A] @ numbered_lines 1 ls @ [CHR 0x0A]"
| "render_part (PartBlock rel lo hi ls) =
     ''=== '' @ rel @ '' [lines '' @ show_int lo @ ''-'' @ show_int hi @ ''] ==='' @ [CHR 0x0A] @ numbered_lines lo ls @ [CHR 0x0A]"

definition render_parts :: "part list \<Rightarrow> pystr" where
  "render_parts parts = join_with [CHR 0x0A] (map render_part parts)"

section \<open>Ranges\<close>

text \<open>The merged ranges so far, latest first.\<close>

fun merge_step :: "int \<Rightarrow> (int \<times> int) \<Rightarrow> (int \<times> int) list \<Rightarrow> (int \<times> int) list" where
  "merge_step near (lo, hi) [] = [(lo, hi)]"
| "merge_step near (lo, hi) ((plo, phi) # out) =
     (if lo \<le> phi + near then (plo, max phi hi) # out else (lo, hi) # (plo, phi) # out)"

definition merge_sorted :: "int \<Rightarrow> (int \<times> int) list \<Rightarrow> (int \<times> int) list" where
  "merge_sorted near ranges = rev (fold (merge_step near) ranges [])"

definition merge_ranges :: "int \<Rightarrow> (int \<times> int) list \<Rightarrow> (int \<times> int) list" where
  "merge_ranges gap ranges = merge_sorted (gap + 1) (sort ranges)"

text \<open>The blocks of one file; a range that begins past the end shows nothing.\<close>

definition emit_ranges :: "pystr \<Rightarrow> pystr list \<Rightarrow> (int \<times> int) list \<Rightarrow> part list" where
  "emit_ranges rel ls ranges =
     concat (map (\<lambda>(lo, hi).
       let hi = min hi (int (length ls)) in
       if hi < lo then [] else [PartBlock rel lo hi (map (\<lambda>i. ls ! (nat i - 1)) [lo..hi])]) ranges)"

section \<open>The slice along the call graph\<close>

record sink =
  sk_file :: pystr
  sk_line :: int
  sk_function :: pystr
  sk_cwe :: "pystr list"

record slice_context = context_package +
  cp_unsafe_sinks :: "sink list"

definition rpartition :: "pystr \<Rightarrow> pystr \<Rightarrow> pystr \<times> bool \<times> pystr" where
  "rpartition sep s = (case cut_last sep s of Some (a, b) \<Rightarrow> (a, True, b) | None \<Rightarrow> ([], False, s))"

definition bump :: "int \<Rightarrow> pystr \<Rightarrow> (pystr, int) pydict \<Rightarrow> (pystr, int) pydict" where
  "bump k qn s = dict_set qn (dict_get_or s qn 0 + k) s"

definition qns_by_file_name :: "slice_context \<Rightarrow> (pystr \<times> pystr, pystr list) pydict" where
  "qns_by_file_name ctx = fold (\<lambda>qn. dict_append (q_file qn, q_name qn) qn) (dict_keys (cp_def_spans ctx)) []"

definition score_anchor ::
    "pystr list \<Rightarrow> (pystr \<times> pystr, pystr list) pydict \<Rightarrow> int \<Rightarrow> pystr \<times> pystr \<Rightarrow> (pystr, int) pydict \<Rightarrow> (pystr, int) pydict" where
  "score_anchor files index k fn s =
     (if fst fn \<in> set files \<and> snd fn \<noteq> [] then fold (bump k) (dict_get_or index fn []) s else s)"

definition score_edge :: "pystr list \<Rightarrow> pystr \<times> pystr list \<Rightarrow> (pystr, int) pydict \<Rightarrow> (pystr, int) pydict" where
  "score_edge files edge s =
     (let (caller, callees) = edge; inside = (\<lambda>q. q_file q \<in> set files);
          s = (if inside caller then bump 10 caller s else s)
      in fold (\<lambda>callee s.
           let s = (if inside callee then bump 8 callee s else s)
           in if inside caller \<and> inside callee then bump 3 callee (bump 3 caller s) else s) callees s)"

definition slice_scores :: "slice_context \<Rightarrow> chunk \<Rightarrow> (pystr, int) pydict" where
  "slice_scores ctx c =
     (let files = c_files c; index = qns_by_file_name ctx;
          s = fold (\<lambda>qn s. if q_file qn \<in> set files then bump 100 qn s else s) (fromkeys (c_path_funcs c)) [];
          s = fold (\<lambda>ep. score_anchor files index 50 (ep_file ep, ep_function ep)) (cp_entry_points ctx) s;
          s = fold (\<lambda>k. score_anchor files index 45 (sk_file k, sk_function k)) (cp_unsafe_sinks ctx) s;
          s = fold (score_edge files) (cp_call_graph ctx) s
      in fold (\<lambda>qn s. if q_file qn \<in> set files \<and> q_name qn \<in> set (c_focus_entry_points c) then bump 40 qn s else s)
           (dict_keys (cp_def_spans ctx)) s)"

definition ranked_qnodes :: "slice_context \<Rightarrow> chunk \<Rightarrow> pystr list" where
  "ranked_qnodes ctx c =
     (let s = slice_scores ctx c in
      sort_key (\<lambda>qn. (- dict_get_or s qn 0, q_file qn, q_name qn))
        (filter (\<lambda>qn. q_file qn \<in> set (c_files c)) (dict_keys (cp_def_spans ctx))))"

record pick_state =
  pk_by_file :: "(pystr, (int \<times> int) list) pydict"
  pk_picked :: "(pystr, int) pydict"
  pk_clipped :: "pystr list"

definition padded :: "int \<Rightarrow> int \<Rightarrow> int \<Rightarrow> int \<times> int" where
  "padded pad lo hi = (max 1 (lo - pad), hi + pad)"

definition pick_span :: "int \<Rightarrow> int \<Rightarrow> (pystr, int list) pydict \<Rightarrow> pystr \<Rightarrow> pick_state \<Rightarrow> pick_state" where
  "pick_span pad cap spans qn st =
     (let f = q_file qn in
      if cap \<le> dict_get_or (pk_picked st) f 0 then st\<lparr>pk_clipped := add_new f (pk_clipped st)\<rparr>
      else case dict_get_or spans qn [] of
        lo # hi # _ \<Rightarrow>
          (if lo \<le> 0 \<or> hi \<le> lo then st
           else st\<lparr>pk_by_file := dict_append f (padded pad lo hi) (pk_by_file st),
                   pk_picked := dict_set f (dict_get_or (pk_picked st) f 0 + 1) (pk_picked st)\<rparr>)
      | _ \<Rightarrow> st)"

definition anchor_ref :: "int \<Rightarrow> pystr list \<Rightarrow> pystr \<Rightarrow> (pystr, (int \<times> int) list) pydict \<Rightarrow> (pystr, (int \<times> int) list) pydict" where
  "anchor_ref pad files ref by_file =
     (let (rf, sep, rl) = rpartition '':'' ref in
      if \<not> sep \<or> \<not> py_isdigit rl \<or> rf \<notin> set files then by_file
      else dict_append rf (padded pad (int (digits_val rl)) (int (digits_val rl))) by_file)"

definition graph_ranges :: "slice_context \<Rightarrow> int \<Rightarrow> int \<Rightarrow> chunk \<Rightarrow> (pystr, (int \<times> int) list) pydict \<times> pystr list" where
  "graph_ranges ctx cap pad c =
     (let st = fold (pick_span pad cap (cp_def_spans ctx)) (ranked_qnodes ctx c) \<lparr>pk_by_file = [], pk_picked = [], pk_clipped = []\<rparr>;
          by_file = fold (\<lambda>fn. fold (anchor_ref pad (c_files c)) (dict_get_or (cp_call_graph_files ctx) fn []))
            (fromkeys (c_focus_entry_points c)) (pk_by_file st);
          (sf, _, sl) = rpartition '':'' (c_sink_ref c);
          by_file = (if c_sink_ref c \<noteq> [] \<and> sf \<noteq> [] \<and> py_isdigit sl \<and> sf \<in> set (c_files c)
            then dict_append sf (padded pad (int (digits_val sl)) (int (digits_val sl))) by_file else by_file)
      in (by_file, pk_clipped st))"

definition graph_file_parts ::
    "(pystr \<Rightarrow> source_file) \<Rightarrow> int \<Rightarrow> (pystr, (int \<times> int) list) pydict \<Rightarrow> pystr list \<Rightarrow> pystr \<Rightarrow> part list" where
  "graph_file_parts src pad by_file clipped rel =
     (case src rel of
        NoFile \<Rightarrow> [PartMissing rel]
      | ReadError e \<Rightarrow> [PartUnreadable rel e]
      | Source text \<Rightarrow>
          (let ls = source_lines text; merged = merge_ranges pad (dict_get_or by_file rel [])
           in emit_ranges rel ls
                (if merged = [] \<or> rel \<in> set clipped then (if ls = [] then [] else [(1, int (length ls))]) else merged)))"

definition max_funcs :: "int option \<Rightarrow> int" where
  "max_funcs cap = (case cap of None \<Rightarrow> 24 | Some n \<Rightarrow> if n = 0 then 24 else n)"

definition graph_slice_parts :: "slice_context \<Rightarrow> (pystr \<Rightarrow> source_file) \<Rightarrow> int option \<Rightarrow> chunk \<Rightarrow> part list" where
  "graph_slice_parts ctx src cap c =
     (let (by_file, clipped) = graph_ranges ctx (max_funcs cap) 6 c in
      if by_file = [] then [] else concat (map (graph_file_parts src 6 by_file clipped) (c_files c)))"

section \<open>The slice along a taint path\<close>

fun first_anchor :: "pystr \<Rightarrow> pystr list \<Rightarrow> int" where
  "first_anchor f [] = 0"
| "first_anchor f (ref # refs) =
     (let (rf, _, rl) = rpartition '':'' ref in
      if rf = f \<and> py_isdigit rl then int (digits_val rl) else first_anchor f refs)"

text \<open>A span of one element makes the code raise; \<open>Inl\<close> is that exception.\<close>

datatype slice_exc = IndexExc

definition taint_hop ::
    "slice_context \<Rightarrow> int \<Rightarrow> pystr \<Rightarrow> (pystr, (int \<times> int) list) pydict \<times> pystr list
      \<Rightarrow> slice_exc + (pystr, (int \<times> int) list) pydict \<times> pystr list" where
  "taint_hop ctx pad qn st =
     (let f = q_file qn; (by_file, whole) = st in
      if f = [] then Inr st
      else case dict_get_or (cp_def_spans ctx) qn [] of
        lo # hi # _ \<Rightarrow> Inr (dict_append f (padded pad lo hi) by_file, whole)
      | [_] \<Rightarrow> Inl IndexExc
      | [] \<Rightarrow>
          (let anchor = first_anchor f (dict_get_or (cp_call_graph_files ctx) (q_name qn) []) in
           if anchor = 0 then Inr (by_file, add_new f whole)
           else Inr (dict_append f (padded pad anchor anchor) by_file, whole)))"

fun taint_hops where
  "taint_hops ctx pad [] st = Inr st"
| "taint_hops ctx pad (qn # qns) st = and_then (taint_hop ctx pad qn st) (taint_hops ctx pad qns)"

definition taint_file_parts ::
    "(pystr \<Rightarrow> source_file) \<Rightarrow> int \<Rightarrow> (pystr, (int \<times> int) list) pydict \<Rightarrow> pystr list \<Rightarrow> pystr \<Rightarrow> part list" where
  "taint_file_parts src pad by_file whole rel =
     (let ranges = dict_get_or by_file rel [] in
      if ranges = [] \<and> rel \<notin> set whole then []
      else case src rel of
        NoFile \<Rightarrow> [PartMissing rel]
      | ReadError e \<Rightarrow> [PartUnreadable rel e]
      | Source text \<Rightarrow>
          (let ls = source_lines text
           in emit_ranges rel ls
                (if rel \<in> set whole then (if ls = [] then [] else [(1, int (length ls))]) else merge_ranges pad ranges)))"

definition taint_slice_parts :: "slice_context \<Rightarrow> (pystr \<Rightarrow> source_file) \<Rightarrow> chunk \<Rightarrow> slice_exc + part list" where
  "taint_slice_parts ctx src c =
     (if cp_def_spans ctx = [] then Inr []
      else and_then (taint_hops ctx 8 (fromkeys (c_path_funcs c)) ([], [])) (\<lambda>(by_file, whole).
        let (sf, _, sl) = rpartition '':'' (c_sink_ref c);
            by_file = (if c_sink_ref c \<noteq> [] \<and> sf \<noteq> [] \<and> py_isdigit sl
              then dict_append sf (padded 8 (int (digits_val sl)) (int (digits_val sl))) by_file else by_file)
        in Inr (concat (map (taint_file_parts src 8 by_file whole) (c_files c)))))"

section \<open>Whole files and sliding windows\<close>

definition full_file_part :: "(pystr \<Rightarrow> source_file) \<Rightarrow> pystr \<Rightarrow> part" where
  "full_file_part src rel =
     (case src rel of
        NoFile \<Rightarrow> PartMissing rel
      | ReadError e \<Rightarrow> PartUnreadable rel e
      | Source text \<Rightarrow> PartWhole rel (source_lines text))"

definition load_files_full :: "(pystr \<Rightarrow> source_file) \<Rightarrow> pystr list \<Rightarrow> pystr" where
  "load_files_full src files = render_parts (map (full_file_part src) files)"

text \<open>Windows are half-open ranges of zero-based indices: \<open>lines[lo:hi]\<close>.\<close>

definition centred_windows :: "nat \<Rightarrow> int list \<Rightarrow> (int \<times> int) list" where
  "centred_windows n anchors =
     merge_sorted (int window_overlap)
       (map (\<lambda>a. (max 0 (a - int (window_lines div 2)), min (int n) (a + int (window_lines div 2)))) (sort (remdups anchors)))"

definition names_call :: "pystr list \<Rightarrow> pystr \<Rightarrow> bool" where
  "names_call fns line \<longleftrightarrow> list_ex (\<lambda>fn. sublist fn line \<and> CHR ''('' \<in> set line) fns"

definition windows_for_entrypoints :: "pystr list \<Rightarrow> pystr list \<Rightarrow> (int \<times> int) list" where
  "windows_for_entrypoints ls fns =
     centred_windows (length ls) (map (int \<circ> fst) (filter (names_call fns \<circ> snd) (enumerate 0 ls)))"

definition windows_for_anchors :: "pystr list \<Rightarrow> int list \<Rightarrow> (int \<times> int) list" where
  "windows_for_anchors ls anchors =
     centred_windows (length ls) (map (\<lambda>a. a - 1) (filter (\<lambda>a. 1 \<le> a \<and> a \<le> int (length ls)) anchors))"

text \<open>\<open>range(lo, hi, step)\<close> for a positive step.\<close>

function py_range :: "nat \<Rightarrow> nat \<Rightarrow> nat \<Rightarrow> nat list" where
  "py_range lo hi st = (if hi \<le> lo \<or> st = 0 then [] else lo # py_range (lo + st) hi st)"
  by pat_completeness auto
termination by (relation "measure (\<lambda>(lo, hi, st). hi - lo)") auto

declare py_range.simps [simp del]

definition tile_windows :: "nat \<Rightarrow> (int \<times> int) list" where
  "tile_windows n =
     map (\<lambda>lo. (int lo, int (min (lo + window_lines) n))) (py_range 0 (max n 1) (window_lines - window_overlap))"

definition first_span_start :: "pystr \<Rightarrow> pystr \<Rightarrow> (pystr, int list) pydict \<Rightarrow> int" where
  "first_span_start rel fn spans =
     (case find (\<lambda>(qn, sp). q_file qn = rel \<and> q_name qn = fn \<and> sp \<noteq> []) spans of
        Some (_, lo # _) \<Rightarrow> lo | _ \<Rightarrow> 0)"

definition add_anchor :: "int \<Rightarrow> int list \<Rightarrow> int list" where
  "add_anchor n out = (if 0 < n then add_new n out else out)"

definition span_start :: "int list \<Rightarrow> int" where
  "span_start sp = (case sp of [] \<Rightarrow> 0 | lo # _ \<Rightarrow> lo)"

definition ref_line_in :: "pystr \<Rightarrow> pystr \<Rightarrow> int" where
  "ref_line_in rel ref =
     (let (f, _, l) = rpartition '':'' ref in if f = rel \<and> py_isdigit l then int (digits_val l) else 0)"

definition graph_anchor_lines :: "slice_context \<Rightarrow> chunk \<Rightarrow> pystr \<Rightarrow> int list" where
  "graph_anchor_lines ctx c rel =
     (let spans = cp_def_spans ctx; focus = c_focus_entry_points c;
          out = fold (\<lambda>qn. if q_file qn = rel then add_anchor (span_start (dict_get_or spans qn [])) else id)
                  (fromkeys (c_path_funcs c)) [];
          out = fold (\<lambda>(qn, sp). if q_file qn = rel \<and> q_name qn \<in> set focus then add_anchor (span_start sp) else id)
                  spans out;
          out = fold (\<lambda>ep. if ep_file ep = rel then add_anchor (first_span_start rel (ep_function ep) spans) else id)
                  (cp_entry_points ctx) out;
          out = fold (\<lambda>k. if sk_file k = rel
                  then add_anchor (first_span_start rel (sk_function k) spans) \<circ> add_anchor (sk_line k) else id)
                  (cp_unsafe_sinks ctx) out;
          out = (if c_sink_ref c \<noteq> [] then add_anchor (ref_line_in rel (c_sink_ref c)) out else out)
      in fold (\<lambda>fn. fold (\<lambda>loc. add_anchor (ref_line_in rel loc)) (dict_get_or (cp_call_graph_files ctx) fn []))
           (fromkeys focus) out)"

definition windows_of :: "slice_context \<Rightarrow> chunk \<Rightarrow> pystr \<Rightarrow> pystr list \<Rightarrow> (int \<times> int) list" where
  "windows_of ctx c rel ls =
     (let w = windows_for_anchors ls (graph_anchor_lines ctx c rel) in
      if w \<noteq> [] then w
      else let w = windows_for_entrypoints ls (c_focus_entry_points c) in
      if w \<noteq> [] then w else tile_windows (length ls))"

definition window_part :: "pystr \<Rightarrow> pystr list \<Rightarrow> int \<times> int \<Rightarrow> part" where
  "window_part rel ls w = (case w of (lo, hi) \<Rightarrow>
     PartBlock rel (lo + 1) hi (drop (nat lo) (take (nat hi) ls)))"

definition window_file_parts :: "slice_context \<Rightarrow> chunk \<Rightarrow> (pystr \<Rightarrow> source_file) \<Rightarrow> pystr \<Rightarrow> part list" where
  "window_file_parts ctx c src rel =
     (case src rel of
        NoFile \<Rightarrow> [PartMissing rel]
      | ReadError e \<Rightarrow> [PartUnreadable rel e]
      | Source text \<Rightarrow> (let ls = source_lines text in map (window_part rel ls) (windows_of ctx c rel ls)))"

definition load_sliding_window :: "slice_context \<Rightarrow> (pystr \<Rightarrow> source_file) \<Rightarrow> chunk \<Rightarrow> pystr" where
  "load_sliding_window ctx src c = render_parts (concat (map (window_file_parts ctx c src) (c_files c)))"

section \<open>The choice of a slice\<close>

text \<open>An option is \<open>None\<close> when it is not set, or set to null.\<close>

record slice_cfg =
  sc_step4_slice :: "pystr option"
  sc_step3_slice :: "pystr option"
  sc_max_funcs :: "int option"
  sc_neighbor_lines :: int
  sc_neighbor_max :: int

definition slice_mode :: "slice_cfg \<Rightarrow> pystr" where
  "slice_mode cfg =
     (let mode = (case sc_step4_slice cfg of None \<Rightarrow> sc_step3_slice cfg | Some m \<Rightarrow> Some m) in
      case mode of None \<Rightarrow> ''file'' | Some m \<Rightarrow> if m = [] then ''file'' else py_lower m)"

definition taint_slice :: "slice_context \<Rightarrow> (pystr \<Rightarrow> source_file) \<Rightarrow> chunk \<Rightarrow> slice_exc + pystr" where
  "taint_slice ctx src c = and_then (taint_slice_parts ctx src c) (Inr \<circ> render_parts)"

definition load_chunk_code :: "slice_cfg \<Rightarrow> slice_context \<Rightarrow> (pystr \<Rightarrow> source_file) \<Rightarrow> chunk \<Rightarrow> slice_exc + pystr" where
  "load_chunk_code cfg ctx src c =
     (let by_function = (slice_mode cfg = ''function'') in
      and_then (if c_path_funcs c \<noteq> [] \<and> by_function then taint_slice ctx src c else Inr []) (\<lambda>s.
        if s \<noteq> [] then Inr s
        else let g = (if by_function then render_parts (graph_slice_parts ctx src (sc_max_funcs cfg) c) else []) in
        if g \<noteq> [] then Inr g
        else if c_size c \<noteq> LARGE then Inr (load_files_full src (c_files c))
        else Inr (load_sliding_window ctx src c)))"

section \<open>Excerpts of callers and callees outside the chunk\<close>

definition reverse_calls :: "(pystr, pystr list) pydict \<Rightarrow> (pystr, pystr list) pydict" where
  "reverse_calls fwd = fold (\<lambda>(caller, callees). fold (\<lambda>callee. dict_append callee caller) callees) fwd []"

definition def_lines :: "(pystr, pystr list) pydict \<Rightarrow> (pystr \<times> pystr, int) pydict" where
  "def_lines locs_of =
     fold (\<lambda>(fn, locs). fold (\<lambda>loc.
       let (f, _, line) = rpartition '':'' loc in
       dict_set (if f = [] then loc else f, fn) (if py_isdigit line then int (digits_val line) else 0)) locs) locs_of []"

text \<open>The code walks a set here; \<open>walk\<close> says in which order.\<close>

definition in_chunk_qnodes :: "slice_context \<Rightarrow> chunk \<Rightarrow> pystr list" where
  "in_chunk_qnodes ctx c =
     filter (\<lambda>qn. q_file qn \<in> set (c_files c))
       (fromkeys (dict_keys (cp_call_graph ctx) @ dict_keys (reverse_calls (cp_call_graph ctx))))"

datatype relation = Calls | CalledBy

definition relation_text :: "relation \<Rightarrow> pystr" where
  "relation_text r = (case r of Calls \<Rightarrow> ''CALLS'' | CalledBy \<Rightarrow> ''CALLED BY'')"

definition wanted_neighbors :: "(pystr list \<Rightarrow> pystr list) \<Rightarrow> slice_context \<Rightarrow> chunk \<Rightarrow> (relation \<times> pystr \<times> pystr) list" where
  "wanted_neighbors walk ctx c =
     (let fwd = cp_call_graph ctx; back = reverse_calls fwd; out = (\<lambda>q. q_file q \<notin> set (c_files c)) in
      concat (map (\<lambda>qn.
        map (\<lambda>q. (Calls, q, qn)) (filter out (dict_get_or back qn [])) @
        map (\<lambda>q. (CalledBy, q, qn)) (filter out (dict_get_or fwd qn []))) (walk (in_chunk_qnodes ctx c))))"

text \<open>\<open>_excerpt\<close>: the numbered lines and the number of the first; a file that cannot be read gives none.\<close>

definition excerpt :: "source_file \<Rightarrow> pystr \<Rightarrow> int \<Rightarrow> int \<Rightarrow> (pystr \<times> int) option" where
  "excerpt file fn hint n =
     (case file of
        Source text \<Rightarrow>
          (let ls = splitlines (redact_source text);
               anchor = (if 0 < hint \<and> hint \<le> int (length ls) then Some (hint - 1)
                         else if fn = [] then None
                         else map_option (int \<circ> fst) (find (\<lambda>(i, line). sublist fn line \<and> CHR ''('' \<in> set line) (enumerate 0 ls)))
           in case anchor of
                None \<Rightarrow> None
              | Some a \<Rightarrow>
                  (let lo = max 0 (a - 2); hi = min (int (length ls)) (a + n)
                   in Some (numbered_lines (lo + 1) (drop (nat lo) (take (nat hi) ls)), lo + 1)))
      | _ \<Rightarrow> None)"

record neighbor_state =
  nb_seen :: "(pystr \<times> int) list"
  nb_parts :: "pystr list"

definition neighbor_line :: "slice_context \<Rightarrow> pystr \<Rightarrow> int" where
  "neighbor_line ctx qn =
     (let l = span_start (dict_get_or (cp_def_spans ctx) qn []) in
      if l \<noteq> 0 then l else dict_get_or (def_lines (cp_call_graph_files ctx)) (q_file qn, q_name qn) 0)"

definition add_neighbor ::
    "slice_cfg \<Rightarrow> slice_context \<Rightarrow> (pystr \<Rightarrow> source_file) \<Rightarrow> chunk \<Rightarrow> relation \<times> pystr \<times> pystr
      \<Rightarrow> neighbor_state \<Rightarrow> neighbor_state" where
  "add_neighbor cfg ctx src c want st =
     (let (rel, qn, anchor) = want; f = q_file qn in
      if sc_neighbor_max cfg \<le> int (length (nb_parts st)) \<or> f = [] \<or> f \<in> set (c_files c) then st
      else case excerpt (src f) (q_name qn) (neighbor_line ctx qn) (sc_neighbor_lines cfg) of
        None \<Rightarrow> st
      | Some (body, lo) \<Rightarrow>
          (if (f, lo) \<in> set (nb_seen st) then st
           else st\<lparr>nb_seen := (f, lo) # nb_seen st,
                   nb_parts := nb_parts st @
                     [''-- '' @ f @ '':'' @ show_int lo @ ''  ['' @ q_name qn @ '' '' @ relation_text rel @ '' '' @
                      q_name anchor @ ''] --'' @ [CHR 0x0A] @ body @ [CHR 0x0A]]\<rparr>))"

definition neighbor_context ::
    "(pystr list \<Rightarrow> pystr list) \<Rightarrow> slice_cfg \<Rightarrow> slice_context \<Rightarrow> (pystr \<Rightarrow> source_file) \<Rightarrow> chunk \<Rightarrow> pystr list" where
  "neighbor_context walk cfg ctx src c =
     (if sc_neighbor_lines cfg \<le> 0 then []
      else nb_parts (fold (add_neighbor cfg ctx src c) (wanted_neighbors walk ctx c) \<lparr>nb_seen = [], nb_parts = []\<rparr>))"

text \<open>The heading is a fixed line; it holds a dash outside ASCII and is an argument here.\<close>

definition neighbor_block :: "pystr \<Rightarrow> pystr list \<Rightarrow> pystr" where
  "neighbor_block heading parts = (if parts = [] then [] else heading @ join_with [CHR 0x0A] parts)"

end
