(* ===== verification/Languages.thy ===== *)
theory Languages
  imports CodeSlice
begin

text \<open>
  The language of a file (\<open>lang/hints.py\<close>): by extension, by name and place, and by the head of
  its text; and the infrastructure files.  A path is a \<open>PurePosixPath\<close>.
\<close>

section \<open>Paths\<close>

definition path_parts :: "pystr \<Rightarrow> pystr list" where
  "path_parts f = filter (\<lambda>x. x \<noteq> [] \<and> x \<noteq> ''.'') (split_on (CHR ''/'') f)"

definition path_name :: "pystr \<Rightarrow> pystr" where
  "path_name f = (case rev (path_parts f) of [] \<Rightarrow> [] | x # _ \<Rightarrow> x)"

definition split_suffix :: "pystr \<Rightarrow> pystr \<times> pystr" where
  "split_suffix f =
     (case cut_last ''.'' (path_name f) of
        Some (a, b) \<Rightarrow> if a \<noteq> [] \<and> b \<noteq> [] then (a, CHR ''.'' # b) else (path_name f, [])
      | None \<Rightarrow> (path_name f, []))"

definition path_suffix :: "pystr \<Rightarrow> pystr" where "path_suffix f = snd (split_suffix f)"

definition path_stem :: "pystr \<Rightarrow> pystr" where "path_stem f = fst (split_suffix f)"

section \<open>Extensions\<close>

definition ext_to_lang :: "(pystr, pystr) pydict" where
  "ext_to_lang = [
     (''.c'', ''c-cpp''), (''.cc'', ''c-cpp''), (''.cpp'', ''c-cpp''), (''.cxx'', ''c-cpp''),
     (''.h'', ''c-cpp''), (''.hpp'', ''c-cpp''), (''.rs'', ''rust''), (''.go'', ''go''),
     (''.py'', ''python''), (''.java'', ''java''), (''.js'', ''javascript''), (''.jsx'', ''javascript''),
     (''.mjs'', ''javascript''), (''.cjs'', ''javascript''), (''.ts'', ''typescript''),
     (''.tsx'', ''typescript''), (''.mts'', ''typescript''), (''.cts'', ''typescript''),
     (''.php'', ''php''), (''.rb'', ''ruby''), (''.m'', ''objective-c''), (''.mm'', ''objective-c''),
     (''.kt'', ''kotlin''), (''.kts'', ''kotlin''), (''.cs'', ''csharp''), (''.pl'', ''perl''),
     (''.pm'', ''perl''), (''.swift'', ''swift''), (''.scala'', ''scala''), (''.sc'', ''scala''),
     (''.cbl'', ''cobol''), (''.cob'', ''cobol''), (''.cpy'', ''cobol''), (''.jcl'', ''jcl''),
     (''.dart'', ''dart''), (''.ex'', ''elixir''), (''.exs'', ''elixir''), (''.erl'', ''erlang''),
     (''.hrl'', ''erlang''), (''.groovy'', ''groovy''), (''.gvy'', ''groovy''), (''.gy'', ''groovy''),
     (''.gsh'', ''groovy''), (''.lua'', ''lua''), (''.r'', ''r''), (''.ps1'', ''powershell''),
     (''.psm1'', ''powershell''), (''.psd1'', ''powershell''), (''.sh'', ''shell''),
     (''.bash'', ''shell''), (''.zsh'', ''shell''), (''.cmd'', ''batch''), (''.bat'', ''batch''),
     (''.sql'', ''sql''), (''.ddl'', ''sql''), (''.dml'', ''sql''), (''.tsql'', ''sql''),
     (''.plsql'', ''sql''), (''.pks'', ''sql''), (''.pkb'', ''sql''), (''.pls'', ''sql''),
     (''.plb'', ''sql''), (''.prc'', ''sql''), (''.fnc'', ''sql''), (''.trg'', ''sql''),
     (''.vw'', ''sql''), (''.vb'', ''vbnet''), (''.bas'', ''vbnet''), (''.cls'', ''vbnet''),
     (''.frm'', ''vbnet''), (''.vbs'', ''vbnet''), (''.abap'', ''abap''), (''.aba'', ''abap''),
     (''.clj'', ''clojure''), (''.cljs'', ''clojure''), (''.cljc'', ''clojure''), (''.edn'', ''clojure''),
     (''.hs'', ''haskell''), (''.lhs'', ''haskell''), (''.ml'', ''ocaml''), (''.mli'', ''ocaml''),
     (''.fs'', ''fsharp''), (''.fsi'', ''fsharp''), (''.fsx'', ''fsharp''), (''.jl'', ''julia''),
     (''.sol'', ''solidity''), (''.asm'', ''assembly''), (''.s'', ''assembly''), (''.zig'', ''zig''),
     (''.nim'', ''nim''), (''.nims'', ''nim''), (''.cr'', ''crystal''), (''.tf'', ''terraform''),
     (''.tfvars'', ''terraform''), (''.hcl'', ''terraform''), (''.bicep'', ''bicep''),
     (''.html'', ''web-template''), (''.htm'', ''web-template''), (''.jsp'', ''web-template''),
     (''.jspx'', ''web-template''), (''.jspf'', ''web-template''), (''.tag'', ''web-template''),
     (''.tagx'', ''web-template''), (''.aspx'', ''web-template''), (''.ascx'', ''web-template''),
     (''.master'', ''web-template''), (''.cshtml'', ''web-template''), (''.vbhtml'', ''web-template''),
     (''.phtml'', ''web-template''), (''.erb'', ''web-template''), (''.rhtml'', ''web-template''),
     (''.ejs'', ''web-template''), (''.hbs'', ''web-template''), (''.handlebars'', ''web-template''),
     (''.mustache'', ''web-template''), (''.twig'', ''web-template''), (''.pug'', ''web-template''),
     (''.jade'', ''web-template''), (''.ftl'', ''web-template''), (''.ftlh'', ''web-template''),
     (''.vm'', ''web-template''), (''.vtl'', ''web-template''), (''.mako'', ''web-template''),
     (''.j2'', ''web-template''), (''.jinja'', ''web-template''), (''.jinja2'', ''web-template''),
     (''.vue'', ''web-template''), (''.svelte'', ''web-template''), (''.liquid'', ''web-template''),
     (''.njk'', ''web-template''), (''.slim'', ''web-template''), (''.haml'', ''web-template'')]"

definition lang_of_file :: "pystr \<Rightarrow> pystr option" where
  "lang_of_file f = dict_get ext_to_lang (py_lower (path_suffix f))"

section \<open>Patterns\<close>

text \<open>\<open>(?:^|/)\<close>, \<open>(?:/|$)\<close>, \<open>^\<close> with \<open>re.MULTILINE\<close>, and \<open>\.ya?ml\<close>.\<close>

definition seg_start :: re where "seg_start = Alt Bol (Cls (\<lambda>c. c = CHR ''/''))"
definition seg_end :: re where "seg_end = Alt (Cls (\<lambda>c. c = CHR ''/'')) Eol"
definition line_start :: re where "line_start = Alt Bol (Behind True (\<lambda>c. c = CHR 0x0A))"
definition dot_yaml :: re where "dot_yaml = seqs [lit ''.y'', opt (lit ''a''), lit ''ml'']"
definition any_char :: re where "any_char = Cls (\<lambda>c. c \<noteq> CHR 0x0A)"
definition spaces :: re where "spaces = star (Cls py_space)"
definition spaces1 :: re where "spaces1 = plus (Cls py_space)"
definition ink :: re where "ink = Cls (\<lambda>c. \<not> py_space c)"
definition tag_char :: "char \<Rightarrow> bool" where "tag_char c \<longleftrightarrow> word_char c \<or> c = CHR ''.'' \<or> c = CHR ''-''"
definition plural :: "pystr \<Rightarrow> re" where "plural s = Seq (lit s) (opt (lit ''s''))"

definition ansible_path_re :: re where
  "ansible_path_re = nocase (seqs [seg_start,
     alts [lit ''ansible'', plural ''playbook'', lit ''roles'', lit ''inventories'', lit ''group_vars'', lit ''host_vars''],
     seg_end])"

definition ansible_body_re :: re where
  "ansible_body_re = seqs [line_start, spaces, opt (lit ''-''), spaces,
     Grp 1 (alts [lit ''hosts'', lit ''tasks'', lit ''handlers'', lit ''become'', lit ''gather_facts'',
       Seq (lit ''ansible.'') (plus (Cls (\<lambda>c. word_char c \<or> c = CHR ''.'')))]), spaces, lit '':'']"

definition cobol_body_re :: re where
  "cobol_body_re = nocase (alts [
     seqs [lit ''IDENTIFICATION'', spaces1, lit ''DIVISION''],
     seqs [lit ''PROCEDURE'', spaces1, lit ''DIVISION''],
     seqs [lit ''WORKING-STORAGE'', spaces1, lit ''SECTION''],
     seqs [line_start, times_re 0 7 any_char, times_re 2 2 (Cls py_digit), spaces1, plus ink, star any_char, Wordb,
       lit ''PIC'', opt (lit ''TURE''), spaces1, Cls (one_of ''X9SVA'')],
     seqs [line_start, times_re 0 7 any_char, times_re 2 2 (Cls py_digit), spaces1, lit ''FILLER'', Wordb],
     seqs [Wordb, lit ''COPY'', spaces1, plus (Cls word_char), spaces, lit ''.'']])"

definition jcl_body_re :: re where
  "jcl_body_re = alts [
     seqs [line_start, lit ''//'', star ink, spaces1, Grp 1 (alts [lit ''JOB'', lit ''EXEC'', lit ''DD'', lit ''PROC'']), Wordb],
     seqs [line_start, lit ''//'', spaces, lit ''SYSIN'', Wordb]]"

definition mainframe_path_re :: re where
  "mainframe_path_re = nocase (seqs [seg_start,
     alts [seqs [lit ''mvs'', opt (Cls (one_of ''_-'')), lit ''code''], lit ''jcl'', lit ''cntl'', lit ''proclib'', lit ''cobol'',
       plural ''copybook'', lit ''jobs''], seg_end])"

definition name_tag :: re where "name_tag = opt (Seq (lit ''.'') (plus (Cls tag_char)))"

definition dockerfile_name_re :: re where
  "dockerfile_name_re = nocase (seqs [seg_start, alts [lit ''Dockerfile'', lit ''Containerfile''], name_tag, Eol])"

definition jenkinsfile_name_re :: re where
  "jenkinsfile_name_re = nocase (seqs [seg_start, lit ''Jenkinsfile'', name_tag, Eol])"

definition workflow_file :: re where
  "workflow_file = seqs [seg_start, lit ''.github/workflows/'', plus (Cls (\<lambda>c. c \<noteq> CHR ''/'')), dot_yaml, Eol]"

definition ghactions_path_re :: re where "ghactions_path_re = workflow_file"

definition cluster_dirs :: "re list" where
  "cluster_dirs = [lit ''k8s'', lit ''kubernetes'', lit ''helm'', plural ''chart'', plural ''manifest'',
     Seq (lit ''deploy'') (opt (plural ''ment''))]"

definition k8s_path_re :: re where
  "k8s_path_re = nocase (seqs [seg_start, alts cluster_dirs, lit ''/'', plus any_char, lit ''.'',
     alts [seqs [lit ''y'', opt (lit ''a''), lit ''ml''], lit ''tpl''], Eol])"

definition k8s_body_re :: re where
  "k8s_body_re = seqs [line_start, lit ''apiVersion:'', spaces1, plus ink]"

definition iac_path_re :: re where
  "iac_path_re = nocase (alts [
     seqs [seg_start, alts [lit ''Dockerfile'', lit ''Containerfile'', lit ''Jenkinsfile''], name_tag, Eol],
     seqs [seg_start, alts [Seq (lit ''docker-compose'') (opt (star (Cls tag_char))), lit ''Chart'', lit ''kustomization'',
       lit ''.gitlab-ci'', lit ''cloudbuild'', lit ''azure-pipelines'', lit ''buildspec'', lit ''appspec'', lit ''serverless''],
       dot_yaml, Eol],
     seqs [lit ''.'', alts [lit ''tf'', lit ''tfvars'', lit ''hcl'', lit ''bicep''], Eol],
     workflow_file,
     seqs [seg_start, alts (cluster_dirs @ [lit ''cloudformation'', lit ''cfn'']), lit ''/'', plus any_char, lit ''.'',
       alts [seqs [lit ''y'', opt (lit ''a''), lit ''ml''], lit ''tpl'', lit ''json''], Eol],
     seqs [seg_start, alts [lit ''ansible'', plural ''playbook'', lit ''roles'', lit ''group_vars'', lit ''host_vars''],
       lit ''/'', plus any_char, dot_yaml, Eol]])"

definition is_iac_file :: "pystr \<Rightarrow> bool" where
  "is_iac_file rel \<longleftrightarrow> re_search iac_path_re rel"

section \<open>Detection\<close>

definition read_head :: "(pystr \<Rightarrow> source_file) \<Rightarrow> pystr \<Rightarrow> nat \<Rightarrow> pystr" where
  "read_head src rel n = (case src rel of Source text \<Rightarrow> take n text | _ \<Rightarrow> [])"

definition sniff_body :: "pystr \<Rightarrow> pystr option" where
  "sniff_body head =
     (if re_search jcl_body_re head then Some ''jcl''
      else if re_search cobol_body_re head then Some ''cobol'' else None)"

definition sniff_lang :: "(pystr \<Rightarrow> source_file) \<Rightarrow> pystr \<Rightarrow> pystr option" where
  "sniff_lang src rel =
     (if re_search dockerfile_name_re rel then Some ''dockerfile''
      else if re_search jenkinsfile_name_re rel then Some ''jenkins''
      else if re_search ghactions_path_re rel then Some ''github-actions''
      else let suffix = py_lower (path_suffix rel) in
      if suffix \<in> {''.yml'', ''.yaml''} then
        (if re_search ansible_path_re rel then Some ''ansible''
         else if re_search k8s_path_re rel then Some ''kubernetes''
         else let head = read_head src rel 4096 in
         if re_search ansible_body_re head then Some ''ansible''
         else if re_search k8s_body_re head then Some ''kubernetes'' else None)
      else if suffix \<noteq> [] then None
      else if re_search mainframe_path_re rel then sniff_body (read_head src rel 4096)
      else sniff_body (read_head src rel 1024))"

definition language_of :: "(pystr \<Rightarrow> source_file) \<Rightarrow> pystr \<Rightarrow> pystr option" where
  "language_of src f =
     (let suffix = py_lower (path_suffix f); by_ext = dict_get ext_to_lang suffix in
      if by_ext = None \<or> suffix \<in> {''.yml'', ''.yaml''}
      then (case sniff_lang src f of None \<Rightarrow> by_ext | Some l \<Rightarrow> Some l) else by_ext)"

definition detect_languages :: "(pystr \<Rightarrow> source_file) \<Rightarrow> pystr list \<Rightarrow> pystr list" where
  "detect_languages src files =
     (let counts = fold (\<lambda>f counts. case language_of src f of
            None \<Rightarrow> counts | Some l \<Rightarrow> dict_set l (dict_get_or counts l 0 + 1) counts) files []
      in map fst (sort_desc (snd :: pystr \<times> int \<Rightarrow> int) counts))"

end
