(* ===== verification/Decompose.thy ===== *)
theory Decompose
  imports Languages Binary64
begin

text \<open>
  Step 3, the chunks of a scan (\<open>pipeline/stages/s3_decompose.py\<close>): the files of the strategist's
  chunks, cohesive groups, packing, splitting, catch-all chunks, the files on a path and the
  specialists.  The strategist's reply is a parameter; what a path holds and its size in
  bytes are the world.  A Python set is a list of its elements; where its order can be seen,
  the world walks it.
\<close>

section \<open>Data\<close>

record module_info =
  mi_name :: pystr
  mi_files :: "pystr list"

record threat =
  th_id :: pystr
  th_threat :: pystr
  th_actor :: pystr
  th_surface :: pystr
  th_asset :: pystr
  th_controls :: pystr

text \<open>Threats are empty without a threat model; a profile is read for one flag only.\<close>

record decompose_context = slice_context +
  cp_modules :: "module_info list"
  cp_threats :: "threat list"
  cp_control_kinds :: "pystr list"
  cp_externally_facing :: bool

record task_chunk = chunk +
  c_related_cves :: "pystr list"
  c_threat_id :: "pystr option"
  c_languages :: "pystr list"
  c_sink_cwe :: "pystr list"

record manifest =
  mf_chunks :: "task_chunk list"
  mf_unreachable :: "pystr list"

text \<open>\<open>None\<close> is an option that is not set.\<close>

record step3_cfg =
  s3_pack_by :: pystr
  s3_token_budget :: int
  s3_overhead_tokens :: int
  s3_risk_chunk_loc :: int
  s3_max_files :: "int option"
  s3_catchall_enabled :: bool
  s3_catchall_mode :: pystr
  s3_catchall_loc :: int
  s3_catchall_max_files :: "int option"
  s3_reachable_min_ratio :: rat
  s3_reachable_min_files :: int
  s3_specialists :: "pystr list option"
  s3_specialist_loc :: int
  s3_taint_chunks :: bool
  s3_taint_max_hops :: int
  s3_taint_max_chunks :: int
  s3_files_per_hop :: int
  s3_threat_fallbacks :: bool
  s3_threat_max_files :: int

text \<open>The dash of two prompt texts is outside ASCII; it is what the world says.\<close>

record world =
  w_source :: "pystr \<Rightarrow> source_file"
  w_bytes :: "pystr \<Rightarrow> int"
  w_walk :: "pystr list \<Rightarrow> pystr list"
  w_dash :: pystr

text \<open>Iterating over an open file: the lines that line feeds end, and a last one.\<close>

definition count_loc :: "world \<Rightarrow> pystr \<Rightarrow> int" where
  "count_loc w f =
     (case w_source w f of
        Source s \<Rightarrow> int (length (filter (\<lambda>c. c = CHR 0x0A) s)) + (if s \<noteq> [] \<and> last s \<noteq> CHR 0x0A then 1 else 0)
      | _ \<Rightarrow> 0)"

definition total_loc :: "world \<Rightarrow> pystr list \<Rightarrow> int" where
  "total_loc w files = sum_list (map (count_loc w) files)"

definition size_for :: "int \<Rightarrow> chunk_size" where
  "size_for loc = (if loc < 2000 then SMALL else if loc < 8000 then MEDIUM else LARGE)"

text \<open>\<open>f"{n:02d}"\<close>\<close>

definition two_digits :: "nat \<Rightarrow> pystr" where
  "two_digits n = replicate (2 - length (show_nat n)) (CHR ''0'') @ show_nat n"

section \<open>The strategist's files\<close>

definition files_by_name :: "pystr list \<Rightarrow> (pystr, pystr list) pydict" where
  "files_by_name files = fold (\<lambda>f. dict_append (path_name f) f) files []"

definition fix_file :: "pystr list \<Rightarrow> pystr \<Rightarrow> pystr option" where
  "fix_file truth f =
     (let cand = strip_dot_slash (replace_char (CHR 0x5C) (CHR ''/'') f) in
      if cand \<in> set truth then Some cand
      else case dict_get_or (files_by_name truth) (path_name cand) [] of
        [m] \<Rightarrow> Some m
      | _ \<Rightarrow> None)"

definition normalize_chunk_files :: "pystr list \<Rightarrow> task_chunk \<Rightarrow> task_chunk" where
  "normalize_chunk_files truth c = c\<lparr>c_files := fromkeys (List.map_filter (fix_file truth) (c_files c))\<rparr>"

section \<open>Source files\<close>

definition security_config_names :: "pystr list" where
  "security_config_names = [
     ''web.xml'', ''struts.xml'', ''struts-config.xml'', ''applicationcontext.xml'',
     ''spring-security.xml'', ''beans.xml'', ''faces-config.xml'', ''shiro.ini'',
     ''security.xml'', ''ejb-jar.xml'', ''jboss-web.xml'', ''weblogic.xml'',
     ''androidmanifest.xml'', ''info.plist'',
     ''application.properties'', ''application.yml'', ''application.yaml'',
     ''appsettings.json'', ''web.config'', ''app.config'']"

definition is_source :: "pystr \<Rightarrow> bool" where
  "is_source f \<longleftrightarrow>
     (let ext = py_lower (path_suffix f) in
      if dict_get ext_to_lang ext \<noteq> None then True
      else if py_lower (path_name f) \<in> set security_config_names then True
      else if ext \<in> {''.xml'', ''.properties''} then
        list_ex (\<lambda>seg. seg \<in> set (split_on (CHR ''/'') (py_lower f)))
          [''web-inf'', ''meta-inf'', ''resources'', ''conf'', ''config'']
      else is_iac_file f)"

section \<open>Cohesive groups\<close>

definition add_edge :: "pystr \<Rightarrow> pystr \<Rightarrow> (pystr, pystr list) pydict \<Rightarrow> (pystr, pystr list) pydict" where
  "add_edge a b adj = dict_add_new b a (dict_add_new a b adj)"

text \<open>The calls between different files, as pairs of files.\<close>

definition call_pairs :: "(pystr, pystr list) pydict \<Rightarrow> (pystr \<times> pystr) list" where
  "call_pairs calls =
     concat (map (\<lambda>(caller, callees).
       map (\<lambda>callee. (q_file caller, q_file callee))
         (filter (\<lambda>callee. q_file caller \<noteq> [] \<and> q_file callee \<noteq> [] \<and> q_file callee \<noteq> q_file caller) callees)) calls)"

definition file_call_graph :: "(pystr, pystr list) pydict \<Rightarrow> (pystr, pystr list) pydict" where
  "file_call_graph calls = fold (\<lambda>(a, b). add_edge a b) (call_pairs calls) []"

lemma pending_shrinks:
  "n \<in> set pending \<Longrightarrow> n \<notin> set visited \<Longrightarrow>
    card (set pending - insert n (set visited)) < card (set pending - set visited)"
  by (rule psubset_card_mono) auto

text \<open>The files reached over the edges from the stack, within the files still pending.\<close>

function component ::
    "(pystr, pystr list) pydict \<Rightarrow> pystr list \<Rightarrow> pystr list \<Rightarrow> pystr list \<Rightarrow> pystr list \<Rightarrow> pystr list \<times> pystr list" where
  "component adj pending visited found [] = (visited, found)"
| "component adj pending visited found (n # stack) =
     (if n \<in> set visited \<or> n \<notin> set pending then component adj pending visited found stack
      else component adj pending (n # visited) (found @ [n]) (rev (dict_get_or adj n []) @ stack))"
  by pat_completeness auto
termination
  by (relation "measures [\<lambda>(adj, pending, visited, found, stack). card (set pending - set visited),
      \<lambda>(adj, pending, visited, found, stack). length stack]")
    (auto simp: pending_shrinks simp del: card_Diff_insert)

definition component_group ::
    "(pystr, pystr list) pydict \<Rightarrow> pystr list \<Rightarrow> pystr \<Rightarrow> pystr list \<times> (pystr \<times> pystr list) list
      \<Rightarrow> pystr list \<times> (pystr \<times> pystr list) list" where
  "component_group adj pending f st =
     (let (visited, groups) = st in
      if f \<in> set visited \<or> dict_get adj f = None then st
      else let (visited, found) = component adj pending visited [] [f] in
      case found of
        [] \<Rightarrow> (visited, groups)
      | c # _ \<Rightarrow> (visited, groups @ [(''cg:'' @ path_stem c, sort found)]))"

definition module_group ::
    "module_info \<Rightarrow> pystr list \<times> (pystr \<times> pystr list) list \<Rightarrow> pystr list \<times> (pystr \<times> pystr list) list" where
  "module_group m st =
     (let (pending, groups) = st; hit = filter (\<lambda>f. f \<in> set pending) (mi_files m) in
      if hit = [] then st else (filter (\<lambda>f. f \<notin> set hit) pending, groups @ [(mi_name m, hit)]))"

definition dir_key :: "pystr \<Rightarrow> pystr" where
  "dir_key f = (let parts = split_on (CHR ''/'') f in
     if 1 < length parts then join_with ''/'' (take 2 parts) else ''.'')"

definition cohesive_groups :: "decompose_context \<Rightarrow> pystr list \<Rightarrow> (pystr \<times> pystr list) list" where
  "cohesive_groups ctx files =
     (let (pending, groups) = fold module_group (cp_modules ctx) (remdups files, []);
          (visited, groups) = fold (component_group (file_call_graph (cp_call_graph ctx)) pending) (sort pending) ([], groups);
          by_dir = fold (\<lambda>f. dict_append (dir_key f) f) (sort (filter (\<lambda>f. f \<notin> set visited) pending)) []
      in groups @ map (\<lambda>key. (key, dict_get_or by_dir key [])) (sort (dict_keys by_dir)))"

section \<open>Packing\<close>

record shard_state =
  sh_done :: "(pystr list \<times> int) list"
  sh_files :: "pystr list"
  sh_loc :: int
  sh_chars :: int

definition pack_file :: "world \<Rightarrow> int \<Rightarrow> int \<Rightarrow> int option \<Rightarrow> pystr \<Rightarrow> shard_state \<Rightarrow> shard_state" where
  "pack_file w max_loc max_files max_chars f st =
     (let loc = count_loc w f;
          chars = (case max_chars of None \<Rightarrow> 0 | Some _ \<Rightarrow> w_bytes w f);
          over = (case max_chars of None \<Rightarrow> max_loc < sh_loc st + loc | Some m \<Rightarrow> m < sh_chars st + chars);
          st = (if sh_files st \<noteq> [] \<and> (over \<or> max_files \<le> int (length (sh_files st)))
                then \<lparr>sh_done = sh_done st @ [(sh_files st, sh_loc st)], sh_files = [], sh_loc = 0, sh_chars = 0\<rparr> else st)
      in st\<lparr>sh_files := sh_files st @ [f], sh_loc := sh_loc st + loc, sh_chars := sh_chars st + chars\<rparr>)"

definition shards :: "world \<Rightarrow> int \<Rightarrow> int \<Rightarrow> int option \<Rightarrow> pystr list \<Rightarrow> (pystr list \<times> int) list" where
  "shards w max_loc max_files max_chars files =
     (let st = fold (pack_file w max_loc max_files max_chars) files
            \<lparr>sh_done = [], sh_files = [], sh_loc = 0, sh_chars = 0\<rparr>
      in if sh_files st = [] then sh_done st else sh_done st @ [(sh_files st, sh_loc st)])"

definition shard_label :: "pystr \<Rightarrow> nat \<Rightarrow> nat \<Rightarrow> pystr" where
  "shard_label label k n =
     (if n = 1 then label else label @ '' [shard '' @ show_nat k @ ''/'' @ show_nat n @ '']'')"

definition pack ::
    "world \<Rightarrow> int \<Rightarrow> int \<Rightarrow> int option \<Rightarrow> (pystr \<times> pystr list) list \<Rightarrow> (pystr \<times> pystr list \<times> int) list" where
  "pack w max_loc max_files max_chars groups =
     concat (map (\<lambda>(label, files).
       let sh = shards w max_loc max_files max_chars files in
       map (\<lambda>(k, bf, bl). (shard_label label k (length sh), bf, bl)) (enumerate 1 sh)) groups)"

definition char_budget :: "step3_cfg \<Rightarrow> int option" where
  "char_budget cfg =
     (if py_lower (s3_pack_by cfg) \<noteq> ''tokens'' then None
      else Some (max 10000 ((s3_token_budget cfg - s3_overhead_tokens cfg) * 4)))"

section \<open>Splitting\<close>

definition split_suffix_of :: "nat \<Rightarrow> pystr" where
  "split_suffix_of i = (if i < 26 then [char_of (97 + i)] else show_nat (i + 1))"

definition or_default :: "'a \<Rightarrow> 'a option \<Rightarrow> 'a" where
  "or_default d v = (case v of None \<Rightarrow> d | Some x \<Rightarrow> x)"

definition fits :: "world \<Rightarrow> step3_cfg \<Rightarrow> task_chunk \<Rightarrow> bool" where
  "fits w cfg c \<longleftrightarrow>
     int (length (c_files c)) \<le> or_default 25 (s3_max_files cfg) \<and>
     (case char_budget cfg of
        None \<Rightarrow> total_loc w (c_files c) \<le> s3_risk_chunk_loc cfg
      | Some cap \<Rightarrow> sum_list (map (w_bytes w) (c_files c)) \<le> cap)"

definition split_part :: "task_chunk \<Rightarrow> nat \<Rightarrow> pystr list \<Rightarrow> int \<Rightarrow> task_chunk" where
  "split_part c i files loc =
     c\<lparr>c_id := c_id c @ ''-'' @ split_suffix_of i, c_files := files, c_size := size_for loc\<rparr>"

definition split_chunk :: "world \<Rightarrow> decompose_context \<Rightarrow> step3_cfg \<Rightarrow> task_chunk \<Rightarrow> task_chunk list" where
  "split_chunk w ctx cfg c =
     (if fits w cfg c then [c\<lparr>c_size := size_for (total_loc w (c_files c))\<rparr>]
      else map (\<lambda>(i, _, files, loc). split_part c i files loc)
           (enumerate 0 (pack w (s3_risk_chunk_loc cfg) (or_default 25 (s3_max_files cfg)) (char_budget cfg)
             (cohesive_groups ctx (c_files c)))))"

definition split_oversize_risk_chunks :: "world \<Rightarrow> decompose_context \<Rightarrow> step3_cfg \<Rightarrow> task_chunk list \<Rightarrow> task_chunk list" where
  "split_oversize_risk_chunks w ctx cfg chunks =
     (if s3_risk_chunk_loc cfg = 0 \<and> char_budget cfg = None then chunks
      else concat (map (split_chunk w ctx cfg) chunks))"

section \<open>Reachable files\<close>

definition ref_file_part :: "pystr \<Rightarrow> pystr" where
  "ref_file_part ref = (case cut_first '':'' ref of Some (f, _) \<Rightarrow> f | None \<Rightarrow> ref)"

definition name_to_files :: "(pystr, pystr list) pydict \<Rightarrow> (pystr, pystr list) pydict" where
  "name_to_files sites_of =
     fold (\<lambda>(name, sites). fold (\<lambda>ref out.
       if ref_file_part ref = [] then out else dict_add_new (q_name name) (ref_file_part ref) out) sites) sites_of []"

text \<open>The edges between files, in the order they are added: the calls, then every file that
  defines the called name.\<close>

definition file_edges :: "decompose_context \<Rightarrow> (pystr \<times> pystr) list" where
  "file_edges ctx =
     call_pairs (cp_call_graph ctx) @
     concat (map (\<lambda>(caller, callees).
       if q_file caller = [] then []
       else concat (map (\<lambda>callee. map (\<lambda>tf. (q_file caller, tf))
              (filter (\<lambda>tf. tf \<noteq> q_file caller) (dict_get_or (name_to_files (cp_call_graph_files ctx)) (q_name callee) [])))
              callees))
       (cp_call_graph ctx))"

definition graph_of :: "(pystr \<times> pystr) list \<Rightarrow> (pystr, pystr list) pydict" where
  "graph_of edges = fold (\<lambda>(a, b). dict_add_new a b) edges []"

text \<open>One round of the search: what has been seen, and the next frontier.\<close>

definition visit :: "pystr \<Rightarrow> pystr list \<times> pystr list \<Rightarrow> pystr list \<times> pystr list" where
  "visit m st = (let (seen, nxt) = st in if m \<in> set seen then st else (m # seen, nxt @ [m]))"

definition reach_round :: "(pystr, pystr list) pydict \<Rightarrow> pystr list \<Rightarrow> pystr list \<Rightarrow> pystr list \<times> pystr list" where
  "reach_round graph seen frontier = fold (\<lambda>n. fold visit (dict_get_or graph n [])) frontier (seen, [])"

lemma fold_visit:
  "fold visit ms (seen, nxt) = (rev (fromkeys_seen seen ms) @ seen, nxt @ fromkeys_seen seen ms)"
  by (induction ms arbitrary: seen nxt) (auto simp: visit_def Let_def)

lemma fold_fold: "fold (\<lambda>x. fold f (g x)) xs s = fold f (concat (map g xs)) s"
  by (induction xs arbitrary: s) auto

definition next_files :: "(pystr, pystr list) pydict \<Rightarrow> pystr list \<Rightarrow> pystr list" where
  "next_files graph frontier = concat (map (\<lambda>n. dict_get_or graph n []) frontier)"

lemma reach_round_eq:
  "reach_round graph seen frontier =
    (rev (fromkeys_seen seen (next_files graph frontier)) @ seen, fromkeys_seen seen (next_files graph frontier))"
  by (simp add: reach_round_def fold_fold fold_visit next_files_def)

definition graph_targets :: "(pystr, pystr list) pydict \<Rightarrow> pystr list" where
  "graph_targets graph = concat (map snd graph)"

lemma next_files_targets: "set (next_files graph frontier) \<subseteq> set (graph_targets graph)"
proof -
  have "set (dict_get_or graph n []) \<subseteq> set (graph_targets graph)" for n
    by (cases "dict_get graph n") (auto simp: dict_get_or_def graph_targets_def dest!: map_of_SomeD)
  then show ?thesis by (auto simp: next_files_def)
qed

lemma round_shrinks:
  assumes "reach_round graph seen frontier = (seen', nxt)" and "nxt \<noteq> []"
  shows "card (set (graph_targets graph) - set seen') < card (set (graph_targets graph) - set seen)"
proof (rule psubset_card_mono)
  have "nxt = fromkeys_seen seen (next_files graph frontier)" "set seen' = set nxt \<union> set seen"
    using assms(1) by (auto simp: reach_round_eq)
  moreover from assms(2) have "hd nxt \<in> set nxt" by simp
  ultimately have "hd nxt \<in> set (graph_targets graph) - set seen" "hd nxt \<in> set seen'"
    using next_files_targets[of graph frontier] by (auto simp: set_fromkeys_seen)
  with \<open>set seen' = set nxt \<union> set seen\<close>
  show "set (graph_targets graph) - set seen' \<subset> set (graph_targets graph) - set seen" by blast
qed simp

function reach :: "(pystr, pystr list) pydict \<Rightarrow> pystr list \<Rightarrow> pystr list \<Rightarrow> pystr list" where
  "reach graph seen [] = seen"
| "reach graph seen (n # ns) = (let (seen', nxt) = reach_round graph seen (n # ns) in reach graph seen' nxt)"
  by pat_completeness auto
termination
proof (relation "measures [\<lambda>(graph, seen, frontier). card (set (graph_targets graph) - set seen),
    \<lambda>(graph, seen, frontier). length frontier]", goal_cases)
  case (2 graph seen n ns p seen' nxt)
  then have round: "reach_round graph seen (n # ns) = (seen', nxt)" by simp
  show ?case
  proof (cases "nxt = []")
    case True
    with round have "set seen' = set seen" by (auto simp: reach_round_eq)
    with True show ?thesis by simp
  qed (use round_shrinks[OF round] in simp)
qed simp

definition entry_files :: "decompose_context \<Rightarrow> pystr list" where
  "entry_files ctx = fromkeys (filter (\<lambda>f. f \<noteq> []) (map ep_file (cp_entry_points ctx)))"

definition sink_file_list :: "decompose_context \<Rightarrow> pystr list" where
  "sink_file_list ctx = fromkeys (filter (\<lambda>f. f \<noteq> []) (map sk_file (cp_unsafe_sinks ctx)))"

definition graph_node_files :: "decompose_context \<Rightarrow> pystr list" where
  "graph_node_files ctx =
     entry_files ctx @ sink_file_list ctx @ seed_reachable_files (cp_seed_taint_paths ctx) @
     filter (\<lambda>f. f \<noteq> []) (concat (map (\<lambda>(caller, callees). q_file caller # map q_file callees) (cp_call_graph ctx))) @
     filter (\<lambda>f. f \<noteq> []) (concat (map (\<lambda>(_, sites). map ref_file_part sites) (cp_call_graph_files ctx)))"

text \<open>The files in a language that gave the graph no node.\<close>

definition unknown_lang_files :: "decompose_context \<Rightarrow> pystr list" where
  "unknown_lang_files ctx =
     (let covered = List.map_filter lang_of_file (graph_node_files ctx) in
      filter (\<lambda>f. case lang_of_file f of None \<Rightarrow> False | Some l \<Rightarrow> l \<notin> set covered) (cp_all_files ctx))"

definition reachable_files :: "decompose_context \<Rightarrow> pystr list" where
  "reachable_files ctx =
     (let edges = file_edges ctx; eps = entry_files ctx; sks = sink_file_list ctx
      in reach (graph_of edges) eps eps @ reach (graph_of (map prod.swap edges)) sks sks
         @ eps @ sks @ seed_reachable_files (cp_seed_taint_paths ctx) @ unknown_lang_files ctx)"

text \<open>The ratio is a quotient of doubles.\<close>

definition too_sparse :: "int \<Rightarrow> int \<Rightarrow> step3_cfg \<Rightarrow> bool" where
  "too_sparse reachable whole cfg \<longleftrightarrow>
     0 < whole \<and>
     (0 < s3_reachable_min_ratio cfg \<and> fl (of_int reachable / of_int whole) < s3_reachable_min_ratio cfg \<or>
      0 < s3_reachable_min_files cfg \<and> reachable < s3_reachable_min_files cfg)"

section \<open>Catch-all chunks\<close>

definition skip_exts :: "pystr list" where
  "skip_exts = [
     ''.md'', ''.mdx'', ''.txt'', ''.rst'', ''.adoc'',
     ''.png'', ''.jpg'', ''.jpeg'', ''.gif'', ''.svg'', ''.ico'', ''.webp'', ''.woff'', ''.woff2'', ''.ttf'', ''.eot'',
     ''.css'', ''.scss'', ''.sass'', ''.less'',
     ''.lock'', ''.log'', ''.map'', ''.min.js'', ''.min.css'',
     ''.snap'', ''.d.ts'',
     ''.csv'', ''.tsv'', ''.xls'', ''.xlsx'',
     ''.po'', ''.pot'', ''.mo'']"

definition skip_names :: "pystr list" where
  "skip_names = [
     ''license'', ''changelog'', ''changes'', ''authors'', ''contributors'', ''notice'',
     ''readme'', ''codeowners'', ''.gitignore'', ''.gitattributes'', ''.editorconfig'',
     ''.prettierrc'', ''.prettierignore'', ''.eslintignore'', ''.dockerignore'',
     ''package-lock.json'', ''yarn.lock'', ''pnpm-lock.yaml'', ''poetry.lock'',
     ''pipfile.lock'', ''go.sum'', ''cargo.lock'', ''composer.lock'']"

definition skip_dir_parts :: "pystr list" where
  "skip_dir_parts = [
     ''__snapshots__'', ''__fixtures__'', ''fixtures'', ''__mocks__'', ''mocks'',
     ''docs'', ''doc'', ''examples'', ''example'', ''samples'']"

definition catchall_eligible :: "pystr \<Rightarrow> bool" where
  "catchall_eligible rel \<longleftrightarrow>
     (let name = py_lower (path_name rel) in
      name \<notin> set skip_names \<and>
      py_lower (path_suffix rel) \<notin> set skip_exts \<and>
      \<not> list_ex (\<lambda>ext. suffix ext name) skip_exts \<and>
      \<not> list_ex (\<lambda>part. py_lower part \<in> set skip_dir_parts) (butlast (path_parts rel)))"

definition max_rank :: "('a chunk_scheme) list \<Rightarrow> int" where
  "max_rank chunks = (case chunks of [] \<Rightarrow> 0 | c # cs \<Rightarrow> fold (\<lambda>c r. max r (c_risk_rank c)) cs (c_risk_rank c))"

definition mk_catchall :: "world \<Rightarrow> nat \<Rightarrow> pystr \<Rightarrow> pystr list \<Rightarrow> int \<Rightarrow> int \<Rightarrow> task_chunk" where
  "mk_catchall w idx dir files loc rank =
     \<lparr>c_id = ''catchall-'' @ two_digits idx, c_size = size_for loc, c_risk_rank = rank, c_files = files,
      c_focus_entry_points = [],
      c_hypothesis = ''Coverage sweep of '' @ [CHR 0x27] @ dir @ [CHR 0x27] @ '' '' @ w_dash w @
        '' files not assigned to any risk-ranked chunk. Hunt for any vulnerability class.'',
      c_specialist = None, c_path_funcs = [], c_source_ref = [], c_sink_ref = [],
      c_related_cves = [], c_threat_id = None, c_languages = [], c_sink_cwe = []\<rparr>"

text \<open>The candidates that stay, and what is recorded as unreachable.\<close>

definition reachable_gate :: "decompose_context \<Rightarrow> step3_cfg \<Rightarrow> pystr list \<Rightarrow> pystr list \<Rightarrow> pystr list \<times> pystr list" where
  "reachable_gate ctx cfg eligible unreachable =
     (if py_lower (s3_catchall_mode cfg) \<noteq> ''reachable_only'' \<or> eligible = []
         \<or> cp_entry_points ctx = [] \<and> cp_unsafe_sinks ctx = [] then (eligible, unreachable)
      else let reachable = reachable_files ctx; all_files = cp_all_files ctx;
               kept = filter (\<lambda>f. f \<in> set reachable \<and> f \<in> set all_files) eligible;
               dropped = sort (filter (\<lambda>f. \<not> (f \<in> set reachable \<and> f \<in> set all_files)) eligible)
           in if too_sparse (int (length kept)) (int (length eligible)) cfg then (eligible, []) else (kept, dropped))"

definition covered_files :: "('a chunk_scheme) list \<Rightarrow> pystr list" where
  "covered_files chunks = concat (map c_files chunks)"

definition add_catchall_chunks :: "world \<Rightarrow> decompose_context \<Rightarrow> step3_cfg \<Rightarrow> manifest \<Rightarrow> manifest" where
  "add_catchall_chunks w ctx cfg m =
     (let uncovered = filter (\<lambda>f. f \<notin> set (covered_files (mf_chunks m))) (cp_all_files ctx) in
      if \<not> s3_catchall_enabled cfg then m
      else let (eligible, unreachable) = reachable_gate ctx cfg (filter catchall_eligible uncovered) (mf_unreachable m);
               m = m\<lparr>mf_unreachable := unreachable\<rparr> in
      if eligible = [] then m
      else let max_files = or_default (or_default 100 (s3_max_files cfg)) (s3_catchall_max_files cfg);
               base = max_rank (mf_chunks m);
               buckets = pack w (s3_catchall_loc cfg) max_files (char_budget cfg) (cohesive_groups ctx eligible)
           in m\<lparr>mf_chunks := mf_chunks m @
                  map (\<lambda>(idx, label, files, loc). mk_catchall w idx label files loc (base + int idx)) (enumerate 1 buckets)\<rparr>)"

end
