(* ===== verification/Specialists.thy ===== *)
theory Specialists
  imports Decompose
begin

text \<open>
  Step 3 continued: the specialist passes and their gates, and the chunks for threats that no
  other chunk covers (\<open>pipeline/stages/s3_decompose.py\<close>).
\<close>

section \<open>Surfaces\<close>

definition words :: "re list \<Rightarrow> re" where
  "words rs = nocase (seqs [Wordb, Grp 1 (alts rs), Wordb])"

definition crypto_re :: re where
  "crypto_re = words [lit ''AES'', lit ''RSA'', lit ''HMAC'',
     seqs [lit ''SHA'', opt (lit ''-''), Grp 2 (alts [lit ''1'', lit ''2'', lit ''256'', lit ''384'', lit ''512''])],
     lit ''MD5'', lit ''PBKDF2'', lit ''bcrypt'', lit ''scrypt'', lit ''argon2'',
     lit ''Cipher'', lit ''KeyPair'', lit ''SecretKey'', lit ''X509'', lit ''PKCS'', lit ''TLS'', lit ''SSLContext'', lit ''jwt'',
     lit ''jose'', lit ''nacl'', lit ''sodium'', lit ''hashlib'', lit ''hmac.'', lit ''cryptography.'', lit ''javax.crypto'',
     lit ''BouncyCastle'', lit ''OpenSSL'', lit ''Crypt::'', lit ''Digest::'', lit ''Mcrypt'', lit ''RandomNumberGenerator'',
     lit ''SecureRandom'']"

text \<open>This pattern heeds case.\<close>

definition deser_re :: re where
  "deser_re = seqs [Wordb, Grp 1 (alts [lit ''ObjectInputStream'', lit ''readObject'', lit ''XMLDecoder'', lit ''XStream'',
     lit ''SnakeYAML'', lit ''yaml.load'', lit ''pickle.'', lit ''marshal.load'', lit ''unserialize'', lit ''BinaryFormatter'',
     lit ''Kryo'', lit ''Hessian'', lit ''JdkSerializationRedisSerializer'', lit ''Marshal.load'']), Wordb]"

definition batch_etl_re :: re where
  "batch_etl_re = words [
     seqs [lit ''struct.'', opt (lit ''un''), lit ''pack''],
     seqs [lit ''codecs.'', alts [lit ''encode'', lit ''decode''], lit ''('', star (Cls (\<lambda>c. c \<noteq> CHR '')'')), lit ''ebcdic''],
     lit ''cp037'', lit ''cp1047'', lit ''COMP-3'', seqs [lit ''packed'', opt (Cls (one_of ''_-'')), lit ''decimal''],
     lit ''RECFM'', lit ''LRECL'', lit ''glob.glob'', lit ''os.listdir'',
     seqs [lit ''shutil.'', alts [lit ''move'', lit ''copy'']], seqs [lit ''csv.'', alts [lit ''writer'', lit ''reader'']],
     seqs [lit ''EXEC'', spaces1, lit ''PGM=''], seqs [lit ''//'', plus (Cls word_char), spaces1, lit ''DD'', Wordb],
     lit ''DISP=('']"

definition scan_any :: "world \<Rightarrow> pystr list \<Rightarrow> re \<Rightarrow> bool" where
  "scan_any w files rx \<longleftrightarrow>
     list_ex (\<lambda>f. case w_source w f of Source s \<Rightarrow> re_search rx s | _ \<Rightarrow> False) files"

definition has_batch_surface :: "world \<Rightarrow> decompose_context \<Rightarrow> pystr list \<Rightarrow> bool" where
  "has_batch_surface w ctx source \<longleftrightarrow>
     list_ex (\<lambda>ep. ep_kind ep \<in> {''file'', ''cli''}) (cp_entry_points ctx) \<or>
     list_ex (\<lambda>l. l \<in> {''cobol'', ''jcl''}) (detect_languages (w_source w) (cp_all_files ctx)) \<or>
     scan_any w source batch_etl_re"

definition has_authz_surface :: "decompose_context \<Rightarrow> bool" where
  "has_authz_surface ctx \<longleftrightarrow>
     cp_externally_facing ctx \<or>
     list_ex (\<lambda>ep. ep_kind ep \<in> {''network'', ''ipc''} \<or> ep_reachable_from_unauth ep) (cp_entry_points ctx) \<or>
     ''auth'' \<in> set (cp_control_kinds ctx) \<or>
     list_ex (\<lambda>t. th_actor t \<in> {''remote_unauth'', ''remote_auth''}) (cp_threats ctx)"

definition specialist_gate :: "world \<Rightarrow> decompose_context \<Rightarrow> pystr list \<Rightarrow> pystr \<Rightarrow> bool" where
  "specialist_gate w ctx source spec =
     (if spec = ''access-control'' then has_authz_surface ctx
      else if spec = ''crypto'' then scan_any w source crypto_re
      else if spec = ''deserialization'' then scan_any w source deser_re
      else if spec = ''batch-etl'' then has_batch_surface w ctx source
      else if spec = ''iac'' then list_ex is_iac_file (cp_all_files ctx)
      else True)"

section \<open>Specialist chunks\<close>

text \<open>The first names, at most 24, that are defined in one of the files.\<close>

definition focus_entry_points :: "pystr list \<Rightarrow> (pystr, pystr list) pydict \<Rightarrow> pystr list" where
  "focus_entry_points files sites_of =
     (if files = [] then []
      else take 24 (map fst (filter (\<lambda>(_, locs). list_ex (\<lambda>ref. fst (rpartition '':'' ref) \<in> set files) locs) sites_of)))"

definition mk_specialist ::
    "pystr \<Rightarrow> nat \<Rightarrow> pystr \<Rightarrow> pystr list \<Rightarrow> int \<Rightarrow> int \<Rightarrow> pystr list \<Rightarrow> pystr list \<Rightarrow> task_chunk" where
  "mk_specialist spec shard label files loc rank langs focus =
     \<lparr>c_id = ''spec-'' @ spec @ ''-'' @ two_digits shard, c_size = size_for loc, c_risk_rank = rank, c_files = files,
      c_focus_entry_points = focus,
      c_hypothesis = spec @ '' specialist sweep over module '' @ [CHR 0x27] @ label @ [CHR 0x27] @ ''.'',
      c_specialist = Some spec, c_path_funcs = [], c_source_ref = [], c_sink_ref = [],
      c_related_cves = [], c_threat_id = None, c_languages = langs, c_sink_cwe = []\<rparr>"

definition specialist_chunks ::
    "world \<Rightarrow> decompose_context \<Rightarrow> step3_cfg \<Rightarrow> pystr list \<Rightarrow> pystr \<Rightarrow> int \<Rightarrow> task_chunk list" where
  "specialist_chunks w ctx cfg source spec base =
     (let scope = (if spec = ''iac'' then filter is_iac_file source else source);
          buckets = pack w (s3_specialist_loc cfg) (or_default 25 (s3_max_files cfg)) (char_budget cfg) (cohesive_groups ctx scope)
      in map (\<lambda>(shard, label, files, loc).
           mk_specialist spec shard label files loc (base + int shard) (detect_languages (w_source w) files)
             (focus_entry_points files (cp_call_graph_files ctx))) (enumerate 1 buckets))"

fun all_specialists ::
    "world \<Rightarrow> decompose_context \<Rightarrow> step3_cfg \<Rightarrow> pystr list \<Rightarrow> pystr list \<Rightarrow> int \<Rightarrow> task_chunk list" where
  "all_specialists w ctx cfg source [] base = []"
| "all_specialists w ctx cfg source (spec # specs) base =
     (let new = specialist_chunks w ctx cfg source spec base
      in new @ all_specialists w ctx cfg source specs (base + int (length new)))"

definition add_specialist_chunks :: "world \<Rightarrow> decompose_context \<Rightarrow> step3_cfg \<Rightarrow> manifest \<Rightarrow> manifest" where
  "add_specialist_chunks w ctx cfg m =
     (let source = filter is_source (cp_all_files ctx);
          enabled = filter (specialist_gate w ctx source) (or_default [''crypto'', ''logic-bug''] (s3_specialists cfg))
      in if enabled = [] \<or> source = [] then m
         else m\<lparr>mf_chunks := mf_chunks m @ all_specialists w ctx cfg source enabled (max_rank (mf_chunks m))\<rparr>)"

section \<open>The surface of a threat\<close>

definition threat_iac_re :: re where
  "threat_iac_re = words [seqs [lit ''supply'', spaces, lit ''chain''], lit ''dependency'', lit ''dependencies'', lit ''package'',
     lit ''sbom'', lit ''build'', lit ''release'', seqs [lit ''ci'', opt (lit ''/''), lit ''cd''], lit ''pipeline'', lit ''workflow'',
     plural ''action'', seqs [lit ''github'', spaces, lit ''actions''], lit ''jenkins'', lit ''docker'',
     lit ''kubernetes'', lit ''k8s'', lit ''terraform'', lit ''helm'', lit ''image'']"

definition threat_llm_re :: re where
  "threat_llm_re = words [lit ''llm'', lit ''prompt'', lit ''jailbreak'', lit ''rag'', seqs [lit ''tool'', spaces, lit ''call''],
     lit ''agent'', lit ''assistant'', seqs [lit ''model'', spaces, lit ''output''],
     seqs [lit ''prompt'', spaces, lit ''inject''], seqs [lit ''indirect'', spaces, lit ''inject'']]"

definition threat_authz_re :: re where
  "threat_authz_re = words [lit ''authz'', lit ''authorization'', seqs [lit ''access'', spaces, lit ''control''], lit ''idor'',
     lit ''rbac'', lit ''acl'', lit ''privilege'', lit ''session'', lit ''csrf'', lit ''oauth'', lit ''jwt'',
     seqs [lit ''tenant'', spaces, lit ''isolation'']]"

definition threat_crypto_re :: re where
  "threat_crypto_re = words [lit ''crypto'', lit ''cipher'', lit ''encryption'', lit ''decrypt'', lit ''signature'', lit ''hmac'',
     lit ''hash'', lit ''md5'', lit ''sha'', lit ''tls'', lit ''ssl'', lit ''x509'', lit ''certificate'',
     seqs [lit ''secret'', spaces, lit ''key''], seqs [lit ''key'', spaces, lit ''management'']]"

definition threat_deser_re :: re where
  "threat_deser_re = words [lit ''deserial'', lit ''pickle'', lit ''marshal'', lit ''yaml.load'', lit ''objectinputstream'',
     lit ''readobject'', lit ''binaryformatter'', lit ''xstream'', lit ''snakeyaml'', lit ''hessian'', lit ''kryo'']"

definition threat_batch_re :: re where
  "threat_batch_re = words [lit ''batch'', lit ''etl'', seqs [lit ''file'', spaces, lit ''ingest''],
     seqs [lit ''bulk'', spaces, lit ''import''], seqs [lit ''job'', spaces, lit ''scheduler''], lit ''mainframe'', lit ''jcl'',
     lit ''cobol'', seqs [lit ''record'', spaces, lit ''format'']]"

definition threat_config_re :: re where
  "threat_config_re = words [lit ''config'', lit ''configuration'', lit ''policy'', seqs [lit ''feature'', spaces, lit ''flag''],
     seqs [lit ''runtime'', spaces, lit ''toggle''], seqs [lit ''environment'', spaces, lit ''variable''],
     Seq (lit ''env'') Wordb, seqs [lit ''deployment'', spaces, lit ''setting'']]"

definition threat_iac_path_re :: re where
  "threat_iac_path_re = nocase (Grp 1 (alts [lit ''.github/workflows/'', lit ''dockerfile'', lit ''jenkinsfile'', lit ''.gitlab-ci'',
     lit ''azure-pipelines'', Seq (lit ''.tf'') Eol, lit ''helm/'', lit ''k8s/'', lit ''kubernetes/'',
     seqs [lit ''chart'', dot_yaml, Eol], seqs [lit ''values'', dot_yaml, Eol],
     Seq (lit ''pom.xml'') Eol, Seq (lit ''package.json'') Eol, seqs [lit ''requirements'', opt (Grp 2 (lit ''.txt'')), Eol],
     Seq (lit ''pyproject.toml'') Eol, Seq (lit ''poetry.lock'') Eol, Seq (lit ''setup.py'') Eol]))"

definition llm_path_re :: re where
  "llm_path_re = nocase (Grp 1 (alts (map lit [''llm'', ''prompt'', ''agent'', ''assistant'', ''openai'', ''anthropic'', ''rag'',
     ''chat'', ''completion'', ''tool''])))"

definition authz_path_re :: re where
  "authz_path_re = nocase (Grp 1 (alts (map lit [''auth'', ''oauth'', ''jwt'', ''rbac'', ''acl'', ''permission'', ''policy'',
     ''session'', ''tenant''])))"

definition config_exts :: "pystr list" where
  "config_exts = [''.yml'', ''.yaml'', ''.json'', ''.toml'', ''.ini'', ''.conf'', ''.properties'', ''.xml'', ''.env'']"

text \<open>\<open>_TOKEN_RX.findall(s.lower())\<close>: the runs of lower-case letters and digits.\<close>

definition token_re :: re where
  "token_re = plus (Cls (\<lambda>c. is_lower_char c \<or> py_digit c))"

definition tok :: "pystr \<Rightarrow> pystr list" where
  "tok s = (let s = py_lower s in map (\<lambda>m. group_or s m 0) (finditer token_re s))"

definition is_config_file :: "pystr \<Rightarrow> bool" where
  "is_config_file rel \<longleftrightarrow>
     (let name = py_lower (path_name rel) in
      prefix ''.env'' name \<or> py_lower (path_suffix rel) \<in> set config_exts \<or>
      list_ex (\<lambda>s. sublist s name) [''config'', ''policy'', ''settings''])"

definition threat_text :: "threat \<Rightarrow> pystr" where
  "threat_text t = join_with '' '' (filter (\<lambda>s. s \<noteq> []) [th_threat t, th_surface t, th_asset t, th_controls t, th_actor t])"

definition shares_token :: "pystr list \<Rightarrow> pystr list \<Rightarrow> bool" where
  "shares_token xs ys \<longleftrightarrow> list_ex (\<lambda>x. x \<in> set ys) xs"

definition matches_threat_surface :: "entry_point \<Rightarrow> threat \<Rightarrow> bool" where
  "matches_threat_surface ep t \<longleftrightarrow>
     tok (th_surface t) \<noteq> [] \<and>
     (py_lower (ep_function ep) \<noteq> [] \<and> py_lower (th_surface t) = py_lower (ep_function ep) \<or>
      shares_token (tok (th_surface t)) (tok (ep_function ep)))"

section \<open>Chunks for threats that nothing covers\<close>

fun add_files :: "pystr list \<Rightarrow> int \<Rightarrow> pystr list \<Rightarrow> pystr list \<Rightarrow> pystr list" where
  "add_files known cap [] chosen = chosen"
| "add_files known cap (f # fs) chosen =
     (if f \<in> set known \<and> f \<notin> set chosen then
        (if cap \<le> int (length chosen) + 1 then chosen @ [f] else add_files known cap fs (chosen @ [f]))
      else add_files known cap fs chosen)"

definition candidate_files_for_threat ::
    "decompose_context \<Rightarrow> (pystr, pystr list) pydict \<Rightarrow> int \<Rightarrow> threat \<Rightarrow> pystr list" where
  "candidate_files_for_threat ctx spec_files cap t =
     (let txt = threat_text t;
          files = filter (\<lambda>f. is_source f \<or> is_config_file f) (cp_all_files ctx);
          add = add_files (cp_all_files ctx) cap; spec = (\<lambda>k. dict_get_or spec_files k []);
          actor = th_actor t; chosen = [];
          chosen = (if actor = ''supply_chain'' \<or> re_search threat_iac_re txt
            then add (filter (\<lambda>f. is_iac_file f \<or> re_search threat_iac_path_re f) files) (add (spec ''iac'') chosen) else chosen);
          chosen = (if re_search threat_llm_re txt then add (filter (re_search llm_path_re) files) chosen else chosen);
          chosen = (if actor \<in> {''remote_unauth'', ''remote_auth''} \<or> re_search threat_authz_re txt
            then add (filter (re_search authz_path_re) files) (add (spec ''access-control'') chosen) else chosen);
          chosen = (if re_search threat_crypto_re txt then add (spec ''crypto'') chosen else chosen);
          chosen = (if re_search threat_deser_re txt then add (spec ''deserialization'') chosen else chosen);
          chosen = (if re_search threat_batch_re txt then add (spec ''batch-etl'') chosen else chosen);
          chosen = (if re_search threat_config_re txt then add (filter is_config_file files) chosen else chosen);
          chosen = add (map ep_file (filter (\<lambda>ep. matches_threat_surface ep t) (cp_entry_points ctx))) chosen
      in py_take cap chosen)"

definition specialist_files :: "task_chunk list \<Rightarrow> (pystr, pystr list) pydict" where
  "specialist_files chunks =
     map (map_prod id fromkeys)
       (fold (\<lambda>c d. case c_specialist c of
          None \<Rightarrow> d | Some k \<Rightarrow> if k = [] then d else dict_set k (dict_get_or d k [] @ c_files c) d) chunks [])"

text \<open>\<open>while f"{cid}-{n}" in used: n += 1\<close>; one of the first \<open>length used + 1\<close> numbers is free.\<close>

fun free_suffix :: "nat \<Rightarrow> pystr list \<Rightarrow> pystr \<Rightarrow> nat \<Rightarrow> pystr" where
  "free_suffix 0 used cid n = cid @ ''-'' @ show_nat n"
| "free_suffix (Suc k) used cid n =
     (if cid @ ''-'' @ show_nat n \<in> set used then free_suffix k used cid (n + 1) else cid @ ''-'' @ show_nat n)"

definition free_id :: "pystr list \<Rightarrow> pystr \<Rightarrow> pystr" where
  "free_id used cid = (if cid \<in> set used then free_suffix (length used) used cid 2 else cid)"

definition threat_chunk ::
    "world \<Rightarrow> decompose_context \<Rightarrow> pystr list \<Rightarrow> int \<Rightarrow> threat \<Rightarrow> pystr list \<Rightarrow> task_chunk" where
  "threat_chunk w ctx used rank t files =
     \<lparr>c_id = free_id used (''threat-'' @ py_lower (th_id t) @ ''-fallback''), c_size = size_for (total_loc w files),
      c_risk_rank = rank, c_files = files,
      c_focus_entry_points = take 8 (map ep_function (filter (\<lambda>ep. matches_threat_surface ep t) (cp_entry_points ctx))),
      c_hypothesis = ''Deterministic threat-surface fallback for '' @ th_id t @ '': '' @ th_threat t @
        ''. Review likely files derived from actor/surface signals and repository specialist coverage.'',
      c_specialist = None, c_path_funcs = [], c_source_ref = [], c_sink_ref = [],
      c_related_cves = [], c_threat_id = Some (th_id t), c_languages = [], c_sink_cwe = []\<rparr>"

definition cover_threat ::
    "world \<Rightarrow> decompose_context \<Rightarrow> step3_cfg \<Rightarrow> (pystr, pystr list) pydict \<Rightarrow> int \<Rightarrow> threat
      \<Rightarrow> task_chunk list \<times> int \<Rightarrow> task_chunk list \<times> int" where
  "cover_threat w ctx cfg spec_files base t st =
     (let (chunks, added) = st; files = candidate_files_for_threat ctx spec_files (s3_threat_max_files cfg) t in
      if files = [] then st
      else (chunks @ [threat_chunk w ctx (map c_id chunks) (base + added + 1) t files], added + 1))"

definition add_threat_fallback_chunks :: "world \<Rightarrow> decompose_context \<Rightarrow> step3_cfg \<Rightarrow> manifest \<Rightarrow> manifest" where
  "add_threat_fallback_chunks w ctx cfg m =
     (if \<not> s3_threat_fallbacks cfg then m
      else let chunks = mf_chunks m;
               covered = filter (\<lambda>i. i \<noteq> []) (List.map_filter c_threat_id chunks);
               missing = filter (\<lambda>t. th_id t \<notin> set covered) (filter (\<lambda>t. th_id t \<noteq> []) (cp_threats ctx));
               (chunks', _) = fold (cover_threat w ctx cfg (specialist_files chunks) (max_rank chunks)) missing (chunks, 0)
           in m\<lparr>mf_chunks := chunks'\<rparr>)"

text \<open>An unknown threat is taken off its chunk.\<close>

definition drop_unknown_threats :: "decompose_context \<Rightarrow> manifest \<Rightarrow> manifest" where
  "drop_unknown_threats ctx m =
     (if cp_threats ctx = [] then m
      else m\<lparr>mf_chunks := map (\<lambda>c. case c_threat_id c of
               Some i \<Rightarrow> if i \<noteq> [] \<and> i \<notin> set (map th_id (cp_threats ctx)) then c\<lparr>c_threat_id := None\<rparr> else c
             | None \<Rightarrow> c) (mf_chunks m)\<rparr>)"

end
