(* ===== verification/TaintChunks.thy ===== *)
theory TaintChunks
  imports Specialists
begin

text \<open>
  Step 3 continued: the chunks along taint paths (\<open>pipeline/stages/s3_decompose.py\<close>): the
  search from an entry point to the sinks, the paths that the seed engine proved, and the
  whole step.
\<close>

section \<open>The search for sinks\<close>

definition sanitizer_bare :: "pystr list" where
  "sanitizer_bare = [
     ''escape'', ''quote'', ''sanitize'', ''clean'', ''encode'', ''validate'',
     ''strip_tags'', ''html_escape'', ''xml_escape'', ''quote_plus'', ''urlencode'',
     ''bleach_clean'', ''prepared_statement'', ''parameterized'',
     ''to_int'', ''int'', ''float'', ''bool'']"

definition is_sanitizer :: "pystr \<Rightarrow> bool" where
  "is_sanitizer qn \<longleftrightarrow> py_lower (q_name qn) \<in> set sanitizer_bare"

text \<open>A point of the frontier: the path to a node, and whether a sanitizer lies on it.\<close>

type_synonym hop = "pystr list \<times> bool"

record hunt =
  hu_visited :: "pystr list"
  hu_out :: "(pystr \<times> pystr list) list"
  hu_next :: "hop list"

definition hunt_callee :: "pystr list \<Rightarrow> int \<Rightarrow> hop \<Rightarrow> pystr \<Rightarrow> hunt \<Rightarrow> hunt" where
  "hunt_callee sinks max_hops h callee st =
     (if callee \<in> set (hu_visited st) then st
      else let (path, sanitized) = h; hit = sanitized \<or> is_sanitizer callee; p = path @ [callee] in
      \<lparr>hu_visited = callee # hu_visited st,
       hu_out = (if callee \<in> set sinks \<and> \<not> hit then hu_out st @ [(callee, p)] else hu_out st),
       hu_next = (if int (length p) \<le> max_hops then hu_next st @ [(p, hit)] else hu_next st)\<rparr>)"

definition hunt_hop ::
    "(pystr, pystr list) pydict \<Rightarrow> pystr list \<Rightarrow> int \<Rightarrow> hop \<Rightarrow> hunt \<Rightarrow> hunt" where
  "hunt_hop graph sinks max_hops h st =
     fold (hunt_callee sinks max_hops h) (dict_get_or graph (last (fst h)) []) st"

definition hunt_round ::
    "(pystr, pystr list) pydict \<Rightarrow> pystr list \<Rightarrow> int \<Rightarrow> hop list \<Rightarrow> hunt \<Rightarrow> hunt" where
  "hunt_round graph sinks max_hops frontier st =
     fold (hunt_hop graph sinks max_hops) frontier (st\<lparr>hu_next := []\<rparr>)"

text \<open>A round only adds to what has been visited, and each point of the next frontier is new.\<close>

definition hunt_grows :: "(pystr, pystr list) pydict \<Rightarrow> pystr list \<Rightarrow> hunt \<Rightarrow> bool" where
  "hunt_grows graph visited st \<longleftrightarrow>
     set visited \<subseteq> set (hu_visited st) \<and>
     (\<forall>h \<in> set (hu_next st). last (fst h) \<in> set (hu_visited st) \<and> last (fst h) \<notin> set visited \<and>
        last (fst h) \<in> set (graph_targets graph))"

lemma targets_of: "set (dict_get_or graph n []) \<subseteq> set (graph_targets graph)"
  using next_files_targets[of graph "[n]"] by (simp add: next_files_def)

lemma hunt_hop_grows: "hunt_grows graph visited st \<Longrightarrow> hunt_grows graph visited (hunt_hop graph sinks max_hops h st)"
  unfolding hunt_hop_def
  by (rule List.fold_invariant[where Q = "\<lambda>x. x \<in> set (graph_targets graph)"])
    (use targets_of in \<open>auto simp: hunt_grows_def hunt_callee_def Let_def split: prod.splits\<close>)

lemma hunt_round_grows: "hunt_grows graph (hu_visited st) (hunt_round graph sinks max_hops frontier st)"
  unfolding hunt_round_def
  by (rule List.fold_invariant[where Q = "\<lambda>_. True"]) (auto simp: hunt_hop_grows, simp add: hunt_grows_def)

function hunt_loop :: "(pystr, pystr list) pydict \<Rightarrow> pystr list \<Rightarrow> int \<Rightarrow> hop list \<Rightarrow> hunt \<Rightarrow> hunt" where
  "hunt_loop graph sinks max_hops [] st = st"
| "hunt_loop graph sinks max_hops (h # hs) st =
     (let st' = hunt_round graph sinks max_hops (h # hs) st in hunt_loop graph sinks max_hops (hu_next st') st')"
  by pat_completeness auto
termination
proof (relation "measures [\<lambda>(graph, sinks, max_hops, frontier, st). card (set (graph_targets graph) - set (hu_visited st)),
    \<lambda>(graph, sinks, max_hops, frontier, st). length frontier]", goal_cases)
  case (2 graph sinks max_hops h hs st st')
  then have g: "hunt_grows graph (hu_visited st) st'" by (simp add: hunt_round_grows)
  then have le: "card (set (graph_targets graph) - set (hu_visited st')) \<le> card (set (graph_targets graph) - set (hu_visited st))"
    by (intro card_mono) (auto simp: hunt_grows_def)
  show ?case
  proof (cases "hu_next st'")
    case (Cons k ks)
    with g have "last (fst k) \<in> set (graph_targets graph) - set (hu_visited st)" "last (fst k) \<in> set (hu_visited st')"
      by (auto simp: hunt_grows_def)
    then have "set (graph_targets graph) - set (hu_visited st') \<subset> set (graph_targets graph) - set (hu_visited st)"
      using g by (auto simp: hunt_grows_def)
    then show ?thesis by (simp add: psubset_card_mono)
  qed (use le in auto)
qed simp

definition bfs_to_sinks ::
    "pystr \<Rightarrow> (pystr, pystr list) pydict \<Rightarrow> pystr list \<Rightarrow> int \<Rightarrow> (pystr \<times> pystr list) list" where
  "bfs_to_sinks start graph sinks max_hops =
     (if start = [] then []
      else hu_out (hunt_loop graph sinks max_hops [([start], False)] \<lparr>hu_visited = [start], hu_out = [], hu_next = []\<rparr>))"

section \<open>Names in the call graph\<close>

definition graph_nodes :: "(pystr, pystr list) pydict \<Rightarrow> pystr list" where
  "graph_nodes graph = remdups (dict_keys graph @ concat (map snd graph))"

definition path_suffix_match :: "pystr \<Rightarrow> pystr \<Rightarrow> bool" where
  "path_suffix_match a b \<longleftrightarrow> a = b \<or> suffix (CHR ''/'' # b) a \<or> suffix (CHR ''/'' # a) b"

text \<open>The code walks a set of nodes; the world says in which order.\<close>

definition match_qnodes :: "world \<Rightarrow> (pystr, pystr list) pydict \<Rightarrow> pystr \<Rightarrow> pystr \<Rightarrow> pystr list" where
  "match_qnodes w graph f name =
     (let cands = filter (\<lambda>k. q_name k = name) (w_walk w (graph_nodes graph));
          hit = filter (\<lambda>k. q_file k = f) cands in
      if hit \<noteq> [] then hit
      else let hit = filter (\<lambda>k. path_suffix_match (q_file k) f) cands in
      if hit \<noteq> [] then hit else [q_join f name])"

definition qnode_for_file_line :: "decompose_context \<Rightarrow> pystr \<Rightarrow> int \<Rightarrow> pystr option" where
  "qnode_for_file_line ctx f line =
     (if line \<le> 0 then None
      else case qnodes_at (graph_view_of (context_package.truncate ctx)) f line line 1 True of [] \<Rightarrow> None | qn # _ \<Rightarrow> Some qn)"

definition sink_qnodes_for_sink :: "world \<Rightarrow> decompose_context \<Rightarrow> sink \<Rightarrow> pystr list" where
  "sink_qnodes_for_sink w ctx s =
     (let out = (if sk_function s \<noteq> [] then match_qnodes w (cp_call_graph ctx) (sk_file s) (sk_function s) else []) in
      if out = [] \<and> sk_line s \<noteq> 0 then
        (case qnode_for_file_line ctx (sk_file s) (sk_line s) of None \<Rightarrow> [] | Some qn \<Rightarrow> if qn = [] then [] else [qn])
      else fromkeys out)"

text \<open>The sinks at each node, in order.\<close>

definition sinks_by_qnode :: "world \<Rightarrow> decompose_context \<Rightarrow> (pystr, sink list) pydict" where
  "sinks_by_qnode w ctx =
     fold (\<lambda>s d. if sk_function s = [] \<and> sk_line s = 0 then d
                 else fold (\<lambda>qn. dict_append qn s) (sink_qnodes_for_sink w ctx s) d) (cp_unsafe_sinks ctx) []"

section \<open>Files along a path\<close>

fun common_length :: "'a list \<Rightarrow> 'a list \<Rightarrow> nat" where
  "common_length (x # xs) (y # ys) = (if x = y then Suc (common_length xs ys) else 0)"
| "common_length _ _ = 0"

definition affinity :: "pystr list \<Rightarrow> pystr \<Rightarrow> int" where
  "affinity anchors f =
     int (fold max (map (\<lambda>a. common_length (split_on (CHR ''/'') f) (split_on (CHR ''/'') a)) (filter (\<lambda>a. a \<noteq> []) anchors)) 0)"

definition pick_hop_files :: "pystr list \<Rightarrow> pystr list \<Rightarrow> int \<Rightarrow> pystr list" where
  "pick_hop_files candidates anchors cap =
     (let cands = fromkeys candidates in
      if cap \<le> 0 \<or> int (length cands) \<le> cap then cands
      else take (nat cap) (sort_key (\<lambda>f. (- affinity anchors f, f)) cands))"

section \<open>Paths that the seed engine proved\<close>

record seed_hit =
  sh_sink :: pystr
  sh_path :: "pystr list"
  sh_source_ref :: pystr
  sh_sink_ref :: pystr
  sh_cwe :: "pystr list"

definition seed_ref_file :: "pystr \<Rightarrow> pystr" where
  "seed_ref_file ref = (case cut_first qsep ref of Some (f, _) \<Rightarrow> f | None \<Rightarrow> ref_file_part ref)"

definition seed_ref_line :: "pystr \<Rightarrow> int" where
  "seed_ref_line ref =
     (if cut_first qsep ref \<noteq> None then 0
      else let (_, _, l) = rpartition '':'' ref in if py_isdigit l then int (digits_val l) else 0)"

definition cwes_at :: "(pystr, sink list) pydict \<Rightarrow> pystr \<Rightarrow> pystr list" where
  "cwes_at sink_by_qn qn = sort (remdups (concat (map sk_cwe (dict_get_or sink_by_qn qn []))))"

definition evidence_hit ::
    "decompose_context \<Rightarrow> (pystr, sink list) pydict \<Rightarrow> pystr \<Rightarrow> evidence_path \<Rightarrow> seed_hit option" where
  "evidence_hit ctx sink_by_qn epf e =
     (let known = (\<lambda>f. f \<in> set (cp_all_files ctx));
          source_file = replace_char (CHR 0x5C) (CHR ''/'') (seed_ref_file (ev_source_ref e));
          sink_file = replace_char (CHR 0x5C) (CHR ''/'') (seed_ref_file (ev_sink_ref e)) in
      if ev_sanitized e \<or> source_file \<noteq> epf then None
      else let qpath = fromkeys (ev_path_funcs e);
               hops = filter known (fromkeys (filter (\<lambda>f. f \<noteq> []) (map q_file qpath)));
               hops = (if hops = [] then filter known [source_file, sink_file] else hops) in
      if length hops < 2 then None
      else let line = seed_ref_line (ev_sink_ref e);
               qn = (if known sink_file \<and> 0 < line then or_default [] (qnode_for_file_line ctx sink_file line) else []);
               qn = (if qn = [] \<and> qpath \<noteq> [] then last qpath else qn);
               cwe = sort (remdups (ev_sink_cwe e));
               cwe = (if cwe = [] \<and> dict_get sink_by_qn qn \<noteq> None then cwes_at sink_by_qn qn else cwe)
           in Some \<lparr>sh_sink = qn, sh_path = qpath, sh_source_ref = ev_source_ref e, sh_sink_ref = ev_sink_ref e, sh_cwe = cwe\<rparr>)"

definition same_evidence :: "seed_hit \<Rightarrow> pystr \<times> pystr \<times> pystr list" where
  "same_evidence h = (sh_source_ref h, sh_sink_ref h, sh_path h)"

fun new_hits :: "seed_hit list \<Rightarrow> (pystr \<times> pystr \<times> pystr list) list \<Rightarrow> seed_hit list" where
  "new_hits [] seen = []"
| "new_hits (h # hs) seen =
     (if same_evidence h \<in> set seen then new_hits hs seen else h # new_hits hs (same_evidence h # seen))"

text \<open>A hop of a seed path: its file, and the function at its line.\<close>

definition hop_file :: "pystr \<Rightarrow> pystr" where
  "hop_file hop = (let (hf, _, hline) = rpartition '':'' hop in
     replace_char (CHR 0x5C) (CHR ''/'') (if hline \<noteq> [] then hf else hop))"

definition hop_qnode :: "decompose_context \<Rightarrow> pystr \<Rightarrow> pystr option" where
  "hop_qnode ctx hop = (let (_, _, hline) = rpartition '':'' hop in
     if py_isdigit hline
     then (case qnode_for_file_line ctx (hop_file hop) (int (digits_val hline)) of
             Some qn \<Rightarrow> nonempty qn | None \<Rightarrow> None) else None)"

definition path_hit ::
    "decompose_context \<Rightarrow> (pystr, sink list) pydict \<Rightarrow> pystr list \<Rightarrow> seed_hit option" where
  "path_hit ctx sink_by_qn path =
     (let hops = filter (\<lambda>hop. hop_file hop \<in> set (cp_all_files ctx)) path in
      if length path < 2 \<or> length hops < 2 then None
      else let (sf, _, sl) = rpartition '':'' (last path);
               qn = (if sf \<noteq> [] \<and> py_isdigit sl then or_default [] (qnode_for_file_line ctx sf (int (digits_val sl))) else [])
           in Some \<lparr>sh_sink = qn, sh_path = List.map_filter (hop_qnode ctx) hops, sh_source_ref = hd path, sh_sink_ref = last path,
                    sh_cwe = (if sf \<noteq> [] \<and> py_isdigit sl then cwes_at sink_by_qn qn else [])\<rparr>)"

definition seed_paths_for_entry ::
    "decompose_context \<Rightarrow> (pystr, sink list) pydict \<Rightarrow> entry_point \<Rightarrow> seed_hit list" where
  "seed_paths_for_entry ctx sink_by_qn ep =
     (let out = new_hits (List.map_filter (evidence_hit ctx sink_by_qn (ep_file ep)) (cp_seed_taint_evidence ctx)) [] in
      if out \<noteq> [] then out
      else List.map_filter (path_hit ctx sink_by_qn)
             (dict_get_or (seed_paths_by_file (cp_seed_taint_paths ctx)) (ep_file ep) []))"

section \<open>Taint chunks\<close>

definition threat_for :: "threat list \<Rightarrow> entry_point \<Rightarrow> pystr option" where
  "threat_for threats ep =
     (let ts = filter (\<lambda>t. th_surface t \<noteq> []) threats; fn = py_lower (ep_function ep) in
      case find (\<lambda>t. py_lower (th_surface t) = fn) ts of
        Some t \<Rightarrow> Some (th_id t)
      | None \<Rightarrow> map_option th_id (find (\<lambda>t. shares_token (tok (th_surface t)) (tok fn)) ts))"

text \<open>What identifies a path: the entry function, the sink and the sorted files.\<close>

type_synonym path_sig = "pystr \<times> pystr \<times> pystr list"

record taint_state =
  ts_added :: nat
  ts_seen :: "path_sig list"
  ts_chunks :: "task_chunk list"

definition first_of :: "pystr list \<Rightarrow> pystr" where
  "first_of xs = (case filter (\<lambda>x. x \<noteq> []) xs of [] \<Rightarrow> [] | x # _ \<Rightarrow> x)"

definition known_files :: "decompose_context \<Rightarrow> pystr list \<Rightarrow> pystr list" where
  "known_files ctx files = filter (\<lambda>f. f \<in> set (cp_all_files ctx)) (fromkeys files)"

definition taint_chunk ::
    "world \<Rightarrow> decompose_context \<Rightarrow> entry_point \<Rightarrow> nat \<Rightarrow> pystr list \<Rightarrow> pystr \<Rightarrow> pystr list \<Rightarrow> pystr \<Rightarrow> pystr \<Rightarrow> pystr list
      \<Rightarrow> task_chunk" where
  "taint_chunk w ctx ep n files hypothesis path source_ref sink_ref cwe =
     \<lparr>c_id = ''taint-'' @ two_digits n, c_size = size_for (total_loc w files), c_risk_rank = int n, c_files = files,
      c_focus_entry_points = [ep_function ep], c_hypothesis = hypothesis, c_specialist = None,
      c_path_funcs = path, c_source_ref = source_ref, c_sink_ref = sink_ref,
      c_related_cves = [], c_threat_id = threat_for (cp_threats ctx) ep, c_languages = [], c_sink_cwe = cwe\<rparr>"

text \<open>Both loops add a chunk unless it has no file, its signature was seen, or the cap is reached.\<close>

definition add_path ::
    "int \<Rightarrow> pystr list \<Rightarrow> path_sig \<Rightarrow> (nat \<Rightarrow> task_chunk) \<Rightarrow> taint_state \<Rightarrow> taint_state" where
  "add_path cap files sig mk st =
     (if cap \<le> int (ts_added st) \<or> files = [] \<or> sig \<in> set (ts_seen st) then st
      else \<lparr>ts_added = ts_added st + 1, ts_seen = sig # ts_seen st, ts_chunks = ts_chunks st @ [mk (ts_added st + 1)]\<rparr>)"

definition seed_files :: "decompose_context \<Rightarrow> step3_cfg \<Rightarrow> entry_point \<Rightarrow> seed_hit \<Rightarrow> pystr list" where
  "seed_files ctx cfg ep h =
     (let hops = filter (\<lambda>f. f \<noteq> []) (map q_file (sh_path h));
          hops = (if hops = []
                  then filter (\<lambda>f. f \<noteq> []) [fst (rpartition '':'' (sh_source_ref h)), fst (rpartition '':'' (sh_sink_ref h))]
                  else hops);
          n = (if sh_path h = [] then 2 else int (length (sh_path h)))
      in known_files ctx
           (pick_hop_files hops [ep_file ep] (s3_files_per_hop cfg * max 1 n) @ [ep_file ep] @
            (if sh_sink_ref h = [] then [] else filter (\<lambda>f. f \<noteq> []) [fst (rpartition '':'' (sh_sink_ref h))])))"

definition seed_hypothesis :: "entry_point \<Rightarrow> seed_hit \<Rightarrow> pystr" where
  "seed_hypothesis ep h =
     ''Seed path evidence: '' @ ep_kind ep @ '' input at '' @ ep_function ep @ ''() ['' @ ep_file ep @ ''] reaches sink ['' @
     first_of [sh_sink_ref h, sh_sink h, ''unknown''] @
     '']. Validate each hop for missing sanitization and real exploitability.''"

definition add_seed_path ::
    "world \<Rightarrow> decompose_context \<Rightarrow> step3_cfg \<Rightarrow> entry_point \<Rightarrow> seed_hit \<Rightarrow> taint_state \<Rightarrow> taint_state" where
  "add_seed_path w ctx cfg ep h =
     (let files = seed_files ctx cfg ep h in
      add_path (s3_taint_max_chunks cfg) files
        (ep_function ep, first_of [sh_sink h, sh_sink_ref h, ''seed''], sort files)
        (\<lambda>n. taint_chunk w ctx ep n files (seed_hypothesis ep h) (sh_path h)
           (first_of [sh_source_ref h, q_join (ep_file ep) (ep_function ep)])
           (first_of [sh_sink_ref h, if sh_sink h = [] then [] else q_file (sh_sink h)]) (sh_cwe h)))"

definition entry_hits ::
    "world \<Rightarrow> decompose_context \<Rightarrow> step3_cfg \<Rightarrow> (pystr, sink list) pydict \<Rightarrow> entry_point \<Rightarrow> (pystr \<times> pystr list) list" where
  "entry_hits w ctx cfg sink_by_qn ep =
     (let hits = concat (map (\<lambda>start. bfs_to_sinks start (cp_call_graph ctx) (dict_keys sink_by_qn) (s3_taint_max_hops cfg))
            (match_qnodes w (cp_call_graph ctx) (ep_file ep) (ep_function ep)))
      in if hits \<noteq> [] then hits
         else map (\<lambda>s. (q_join (sk_file s) (sk_function s),
                [q_join (ep_file ep) (ep_function ep), q_join (sk_file s) (sk_function s)]))
              (filter (\<lambda>s. sk_file s = ep_file ep) (cp_unsafe_sinks ctx)))"

definition sink_files :: "sink list \<Rightarrow> pystr \<Rightarrow> pystr list" where
  "sink_files sinks qn = (if sinks = [] then [q_file qn] else map sk_file sinks)"

definition path_files ::
    "decompose_context \<Rightarrow> step3_cfg \<Rightarrow> entry_point \<Rightarrow> sink list \<Rightarrow> pystr \<times> pystr list \<Rightarrow> pystr list" where
  "path_files ctx cfg ep sinks hit =
     (let (qn, path) = hit; ends = sink_files sinks qn in
      known_files ctx
        (pick_hop_files (filter (\<lambda>f. f \<noteq> []) (map q_file path)) (ep_file ep # ends)
           (s3_files_per_hop cfg * max 1 (int (length path))) @ [ep_file ep] @ ends))"

definition sink_text :: "sink \<Rightarrow> pystr" where
  "sink_text s = sk_file s @ '':'' @ show_int (sk_line s)"

definition path_hypothesis :: "entry_point \<Rightarrow> sink list \<Rightarrow> pystr \<times> pystr list \<Rightarrow> pystr" where
  "path_hypothesis ep sinks hit =
     (let (qn, path) = hit in
      ''Taint path: '' @ (if ep_reachable_from_unauth ep then ''UNAUTH '' else []) @ ep_kind ep @ '' input at '' @
      ep_function ep @ ''() ['' @ ep_file ep @ ''] flows via '' @ join_with '' -> '' (map q_name path) @ '' to sink '' @
      q_name qn @ ''() ['' @ first_of [join_with '', '' (map sink_text (take 3 sinks)), q_file qn] @
      '']. Verify every hop for sanitization/validation; if none, this is exploitable.'')"

definition add_hit ::
    "world \<Rightarrow> decompose_context \<Rightarrow> step3_cfg \<Rightarrow> (pystr, sink list) pydict \<Rightarrow> entry_point \<Rightarrow> pystr \<times> pystr list
      \<Rightarrow> taint_state \<Rightarrow> taint_state" where
  "add_hit w ctx cfg sink_by_qn ep hit =
     (let (qn, path) = hit; sinks = dict_get_or sink_by_qn qn []; files = path_files ctx cfg ep sinks hit in
      add_path (s3_taint_max_chunks cfg) files (ep_function ep, qn, sort files)
        (\<lambda>n. taint_chunk w ctx ep n files (path_hypothesis ep sinks hit) path
           (q_join (ep_file ep) (ep_function ep))
           (case sinks of [] \<Rightarrow> q_file qn | s # _ \<Rightarrow> sink_text s) (cwes_at sink_by_qn qn)))"

definition taint_entry ::
    "world \<Rightarrow> decompose_context \<Rightarrow> step3_cfg \<Rightarrow> (pystr, sink list) pydict \<Rightarrow> entry_point \<Rightarrow> taint_state \<Rightarrow> taint_state" where
  "taint_entry w ctx cfg sink_by_qn ep st =
     fold (add_hit w ctx cfg sink_by_qn ep) (entry_hits w ctx cfg sink_by_qn ep)
       (fold (add_seed_path w ctx cfg ep) (seed_paths_for_entry ctx sink_by_qn ep) st)"

definition sorted_entries :: "entry_point list \<Rightarrow> entry_point list" where
  "sorted_entries eps = sort_key (\<lambda>e. (\<not> ep_reachable_from_unauth e, ep_kind e)) eps"

definition shift_rank :: "int \<Rightarrow> task_chunk \<Rightarrow> task_chunk" where
  "shift_rank k c = c\<lparr>c_risk_rank := c_risk_rank c + k\<rparr>"

definition add_taint_chunks :: "world \<Rightarrow> decompose_context \<Rightarrow> step3_cfg \<Rightarrow> manifest \<Rightarrow> manifest" where
  "add_taint_chunks w ctx cfg m =
     (if \<not> s3_taint_chunks cfg \<or> cp_entry_points ctx = [] \<or> cp_unsafe_sinks ctx = [] then m
      else let shifted = map (shift_rank (s3_taint_max_chunks cfg)) (mf_chunks m);
               st = fold (taint_entry w ctx cfg (sinks_by_qnode w ctx)) (sorted_entries (cp_entry_points ctx))
                 \<lparr>ts_added = 0, ts_seen = [], ts_chunks = []\<rparr>
           in m\<lparr>mf_chunks := (if ts_added st = 0 then mf_chunks m else shifted @ ts_chunks st)\<rparr>)"

section \<open>The step\<close>

definition tag_languages :: "world \<Rightarrow> manifest \<Rightarrow> manifest" where
  "tag_languages w m =
     m\<lparr>mf_chunks := map (\<lambda>c. c\<lparr>c_languages := detect_languages (w_source w) (c_files c)\<rparr>) (mf_chunks m)\<rparr>"

text \<open>\<open>reply\<close> is the strategist's answer as a manifest, \<open>None\<close> when it cannot be used.\<close>

definition decompose_run :: "world \<Rightarrow> step3_cfg \<Rightarrow> decompose_context \<Rightarrow> manifest option \<Rightarrow> manifest" where
  "decompose_run w cfg ctx reply =
     (let m = or_default \<lparr>mf_chunks = [], mf_unreachable = []\<rparr> reply;
          m = m\<lparr>mf_chunks := map (normalize_chunk_files (cp_all_files ctx)) (mf_chunks m)\<rparr>;
          m = add_taint_chunks w ctx cfg m;
          m = m\<lparr>mf_chunks := split_oversize_risk_chunks w ctx cfg (mf_chunks m)\<rparr>;
          m = tag_languages w (add_catchall_chunks w ctx cfg m);
          m = add_threat_fallback_chunks w ctx cfg (add_specialist_chunks w ctx cfg m)
      in drop_unknown_threats ctx m)"

end
