(* ===== verification/DecomposeProps.thy ===== *)
theory DecomposeProps
  imports TaintChunks
begin

text \<open>
  What step 3 guarantees: the groups of files are a cover in which files that call each other
  stay together, packing loses nothing and keeps its bounds, and every file that may matter
  is in a chunk or is recorded as unreachable.
\<close>

section \<open>Groups\<close>

definition group_files :: "(pystr \<times> pystr list) list \<Rightarrow> pystr set" where
  "group_files groups = set (concat (map snd groups))"

lemma group_files_simps [simp]:
  "group_files [] = {}" "group_files (g # gs) = set (snd g) \<union> group_files gs"
  "group_files (gs @ hs) = group_files gs \<union> group_files hs"
  by (simp_all add: group_files_def)

lemma module_groups_cover:
  assumes "fold module_group ms (pending, groups) = (pending', groups')"
  shows "set pending' \<union> group_files groups' = set pending \<union> group_files groups \<and> set pending' \<subseteq> set pending"
  using assms
proof (induction ms arbitrary: pending groups)
  case (Cons m ms)
  obtain p g where step: "module_group m (pending, groups) = (p, g)" by force
  then have "set p \<union> group_files g = set pending \<union> group_files groups \<and> set p \<subseteq> set pending"
    by (auto simp: module_group_def Let_def split: if_splits)
  with Cons.IH[of p g] Cons.prems step show ?case by auto
qed simp

lemma component_new:
  "component adj pending visited found stack = (visited', found') \<Longrightarrow>
    \<exists>new. found' = found @ new \<and> visited' = rev new @ visited \<and> set new \<subseteq> set pending - set visited"
proof (induction adj pending visited found stack arbitrary: visited' found' rule: component.induct)
  case (2 adj pending visited found n stack)
  show ?case
  proof (cases "n \<in> set visited \<or> n \<notin> set pending")
    case False
    with 2 obtain new where
      "found' = (found @ [n]) @ new" "visited' = rev new @ n # visited" "set new \<subseteq> set pending - set (n # visited)"
      by fastforce
    then show ?thesis using False by (intro exI[of _ "n # new"]) auto
  qed (use 2 in auto)
qed simp

lemma component_group_grows: "component_group adj pending f (visited, groups) = (v, g) \<Longrightarrow> set visited \<subseteq> set v"
  using component_new[of adj pending visited "[]" "[f]"]
  by (auto simp: component_group_def Let_def split: if_splits prod.splits list.splits)

lemma component_fold_grows:
  "fold (component_group adj pending) fs (visited, groups) = (visited', groups') \<Longrightarrow> set visited \<subseteq> set visited'"
proof (induction fs arbitrary: visited groups)
  case (Cons f fs)
  obtain v g where "component_group adj pending f (visited, groups) = (v, g)" by force
  with Cons component_group_grows[OF this] show ?case by fastforce
qed simp

lemma component_groups_cover:
  assumes "fold (component_group adj pending) fs (visited, groups) = (visited', groups')"
    and "set visited \<subseteq> set pending" and "set visited \<subseteq> group_files groups"
  shows "group_files groups' = group_files groups \<union> set visited' \<and> set visited' \<subseteq> set pending"
  using assms
proof (induction fs arbitrary: visited groups)
  case (Cons f fs)
  obtain v g where step: "component_group adj pending f (visited, groups) = (v, g)" by force
  then have "group_files g = group_files groups \<union> set v \<and> set v \<subseteq> set pending"
    using Cons.prems(2,3) component_new[of adj pending visited "[]" "[f]"]
    by (auto simp: component_group_def Let_def set_insort_key split: if_splits prod.splits list.splits)
  moreover have "fold (component_group adj pending) fs (v, g) = (visited', groups')" using Cons.prems(1) step by simp
  moreover from component_fold_grows[OF this] have "set v \<subseteq> set visited'" .
  ultimately show ?case using Cons.IH[of v g] by auto
qed auto

definition by_directory :: "pystr list \<Rightarrow> (pystr, pystr list) pydict" where
  "by_directory files = fold (\<lambda>f. dict_append (dir_key f) f) files []"

lemma by_directory_get:
  "dict_get (by_directory files) k =
    (if k \<in> dir_key ` set files then Some (filter (\<lambda>f. dir_key f = k) files) else None)"
proof -
  have "by_directory files = fold (\<lambda>(k, v). dict_append k v) (map (\<lambda>f. (dir_key f, f)) files) []"
    by (simp add: by_directory_def fold_map comp_def)
  then show ?thesis
    by (simp add: dict_get_group image_image comp_def filter_map dict_get_or_def)
qed

lemma directory_groups_cover:
  "group_files (map (\<lambda>key. (key, dict_get_or (by_directory files) key [])) (sort (dict_keys (by_directory files)))) = set files"
proof -
  have "dom (map_of (by_directory files)) = dir_key ` set files"
    by (auto simp: dom_def by_directory_get)
  then have "set (dict_keys (by_directory files)) = dir_key ` set files"
    by (simp add: dom_map_of_conv_image_fst)
  then show ?thesis
    by (auto simp: group_files_def dict_get_or_def by_directory_get)
qed

lemma cohesive_groups_cover: "group_files (cohesive_groups ctx files) = set files"
proof -
  obtain pending groups where m: "fold module_group (cp_modules ctx) (remdups files, []) = (pending, groups)" by force
  let ?adj = "file_call_graph (cp_call_graph ctx)"
  obtain visited groups' where c: "fold (component_group ?adj pending) (sort pending) ([], groups) = (visited, groups')" by force
  from module_groups_cover[OF m] have "set pending \<union> group_files groups = set files" by simp
  moreover from component_groups_cover[OF c]
  have "group_files groups' = group_files groups \<union> set visited" "set visited \<subseteq> set pending" by auto
  moreover have "cohesive_groups ctx files =
      (let by_dir = by_directory (sort (filter (\<lambda>f. f \<notin> set visited) pending))
       in groups' @ map (\<lambda>key. (key, dict_get_or by_dir key [])) (sort (dict_keys by_dir)))"
    using m c by (simp add: cohesive_groups_def by_directory_def)
  ultimately show ?thesis by (auto simp: Let_def directory_groups_cover)
qed

section \<open>Packing\<close>

definition shard_files :: "shard_state \<Rightarrow> pystr list" where
  "shard_files st = concat (map fst (sh_done st)) @ sh_files st"

text \<open>What a finished shard may hold: the caps, unless it is a single file.\<close>

definition shard_fits :: "world \<Rightarrow> int \<Rightarrow> int \<Rightarrow> int option \<Rightarrow> pystr list \<Rightarrow> bool" where
  "shard_fits w max_loc max_files max_chars fs \<longleftrightarrow>
     fs \<noteq> [] \<and>
     (length fs = 1 \<or> int (length fs) \<le> max_files \<and>
        (case max_chars of None \<Rightarrow> total_loc w fs \<le> max_loc | Some m \<Rightarrow> sum_list (map (w_bytes w) fs) \<le> m))"

definition shards_ok :: "world \<Rightarrow> int \<Rightarrow> int \<Rightarrow> int option \<Rightarrow> shard_state \<Rightarrow> bool" where
  "shards_ok w max_loc max_files max_chars st \<longleftrightarrow>
     list_all (\<lambda>(fs, loc). shard_fits w max_loc max_files max_chars fs \<and> loc = total_loc w fs) (sh_done st) \<and>
     (sh_files st = [] \<or> shard_fits w max_loc max_files max_chars (sh_files st)) \<and>
     sh_loc st = total_loc w (sh_files st) \<and>
     (\<forall>m. max_chars = Some m \<longrightarrow> sh_chars st = sum_list (map (w_bytes w) (sh_files st)))"

lemma pack_file_ok:
  "shards_ok w max_loc max_files max_chars st \<Longrightarrow> shards_ok w max_loc max_files max_chars (pack_file w max_loc max_files max_chars f st)"
  by (cases max_chars) (auto simp: shards_ok_def pack_file_def shard_fits_def total_loc_def Let_def)

lemma pack_file_keeps: "shard_files (pack_file w max_loc max_files max_chars f st) = shard_files st @ [f]"
  by (simp add: pack_file_def shard_files_def Let_def)

lemma pack_fold:
  assumes "shards_ok w max_loc max_files max_chars st"
  shows "shards_ok w max_loc max_files max_chars (fold (pack_file w max_loc max_files max_chars) fs st) \<and>
    shard_files (fold (pack_file w max_loc max_files max_chars) fs st) = shard_files st @ fs"
  using assms by (induction fs arbitrary: st) (auto simp: pack_file_ok pack_file_keeps)

lemma shards_exact:
  "concat (map fst (shards w max_loc max_files max_chars fs)) = fs \<and>
   list_all (\<lambda>(fs, loc). shard_fits w max_loc max_files max_chars fs \<and> loc = total_loc w fs)
     (shards w max_loc max_files max_chars fs)"
proof -
  let ?st = "fold (pack_file w max_loc max_files max_chars) fs \<lparr>sh_done = [], sh_files = [], sh_loc = 0, sh_chars = 0\<rparr>"
  have "shards_ok w max_loc max_files max_chars \<lparr>sh_done = [], sh_files = [], sh_loc = 0, sh_chars = 0\<rparr>"
    by (simp add: shards_ok_def total_loc_def)
  from pack_fold[OF this, of fs] show ?thesis
    by (auto simp: shards_def Let_def shard_files_def shards_ok_def)
qed

section \<open>Callers and callees\<close>

definition nbrs :: "(pystr, pystr list) pydict \<Rightarrow> pystr \<Rightarrow> pystr set" where
  "nbrs adj x = set (dict_get_or adj x [])"

lemma nbrs_add_new: "nbrs (dict_add_new a b adj) x = nbrs adj x \<union> (if x = a then {b} else {})"
proof (cases "b \<in> set (dict_get_or adj a [])")
  case False
  have "dict_get_or (dict_append a b adj) x [] = (if x = a then dict_get_or adj a [] @ [b] else dict_get_or adj x [])"
    by (simp add: dict_get_or_def dict_get_append)
  with False show ?thesis by (simp add: nbrs_def dict_add_new_def)
qed (auto simp: nbrs_def dict_add_new_def)

lemma nbrs_add_edge: "y \<in> nbrs (add_edge a b adj) x \<longleftrightarrow> y \<in> nbrs adj x \<or> x = a \<and> y = b \<or> x = b \<and> y = a"
  by (simp add: add_edge_def nbrs_add_new)

lemma nbrs_add_edges:
  "y \<in> nbrs (fold (\<lambda>(a, b). add_edge a b) ps adj) x \<longleftrightarrow> y \<in> nbrs adj x \<or> (x, y) \<in> set ps \<or> (y, x) \<in> set ps"
proof (induction ps arbitrary: adj)
  case (Cons p ps)
  obtain a b where "p = (a, b)" by (cases p)
  with Cons.IH[of "add_edge a b adj"] show ?case by (auto simp only: fold.simps comp_apply prod.case nbrs_add_edge list.set prod.inject insert_iff)
qed simp

lemma nbrs_file_call_graph:
  "y \<in> nbrs (file_call_graph calls) x \<longleftrightarrow> (x, y) \<in> set (call_pairs calls) \<or> (y, x) \<in> set (call_pairs calls)"
  by (simp add: file_call_graph_def nbrs_add_edges) (simp add: nbrs_def dict_get_or_def)

lemma component_closes:
  assumes "component adj pending visited found stack = (visited', found')"
    and "\<forall>x \<in> set visited. nbrs adj x \<inter> set pending \<subseteq> set visited \<union> set stack"
  shows "set stack \<inter> set pending \<subseteq> set visited' \<and> (\<forall>x \<in> set visited'. nbrs adj x \<inter> set pending \<subseteq> set visited')"
  using assms
proof (induction adj pending visited found stack arbitrary: visited' found' rule: component.induct)
  case (2 adj pending visited found n stack)
  show ?case
  proof (cases "n \<in> set visited \<or> n \<notin> set pending")
    case True
    then have rest: "component adj pending visited found stack = (visited', found')" using 2(3) by auto
    have "\<forall>x \<in> set visited. nbrs adj x \<inter> set pending \<subseteq> set visited \<union> set stack" using 2(4) True by auto
    from 2(1)[OF True rest this] True component_new[OF rest] show ?thesis by auto
  next
    case False
    then have rest: "component adj pending (n # visited) (found @ [n]) (rev (dict_get_or adj n []) @ stack) = (visited', found')"
      using 2(3) by simp
    have "\<forall>x \<in> set (n # visited). nbrs adj x \<inter> set pending \<subseteq> set (n # visited) \<union> set (rev (dict_get_or adj n []) @ stack)"
      using 2(4) by (auto simp: nbrs_def)
    from 2(2)[OF False rest this] component_new[OF rest] show ?thesis by auto
  qed
qed simp

text \<open>Every visited file stands in a group with its neighbours.\<close>

definition kept_together :: "(pystr, pystr list) pydict \<Rightarrow> pystr list \<Rightarrow> pystr list \<times> (pystr \<times> pystr list) list \<Rightarrow> bool" where
  "kept_together adj pending st \<longleftrightarrow>
     (\<forall>x \<in> set (fst st). nbrs adj x \<inter> set pending \<subseteq> set (fst st)) \<and>
     (\<forall>x \<in> set (fst st). \<exists>g \<in> set (snd st). x \<in> set (snd g) \<and> nbrs adj x \<inter> set pending \<subseteq> set (snd g))"

lemma component_group_together:
  assumes "kept_together adj pending st" and sym: "\<And>x y. y \<in> nbrs adj x \<Longrightarrow> x \<in> nbrs adj y" and "f \<in> set pending"
    and st: "set (fst st) \<subseteq> set pending"
  shows "kept_together adj pending (component_group adj pending f st) \<and>
    set (fst (component_group adj pending f st)) \<subseteq> set pending \<and>
    set (fst st) \<subseteq> set (fst (component_group adj pending f st)) \<and>
    (dict_get adj f \<noteq> None \<longrightarrow> f \<in> set (fst (component_group adj pending f st)))"
proof (cases "f \<in> set (fst st) \<or> dict_get adj f = None")
  case True
  with assms show ?thesis by (cases st) (auto simp: component_group_def)
next
  case False
  obtain visited groups where s: "st = (visited, groups)" by (cases st)
  obtain v found where c: "component adj pending visited [] [f] = (v, found)" by force
  from component_new[OF c] have v: "v = rev found @ visited" and new: "set found \<subseteq> set pending - set visited" by auto
  have kept: "\<forall>x \<in> set visited. nbrs adj x \<inter> set pending \<subseteq> set visited"
    "\<forall>x \<in> set visited. \<exists>g \<in> set groups. x \<in> set (snd g) \<and> nbrs adj x \<inter> set pending \<subseteq> set (snd g)"
    using assms(1) s by (auto simp: kept_together_def)
  with component_closes[OF c] assms(3)
  have f: "f \<in> set v" and cl: "\<forall>x \<in> set v. nbrs adj x \<inter> set pending \<subseteq> set v" by auto
  have together: "nbrs adj x \<inter> set pending \<subseteq> set found" if x: "x \<in> set found" for x
  proof
    fix y assume y: "y \<in> nbrs adj x \<inter> set pending"
    with x cl v have "y \<in> set v" by auto
    moreover have "y \<notin> set visited" using kept(1) sym[of y x] x y new by blast
    ultimately show "y \<in> set found" using v by simp
  qed
  obtain h t where "found = h # t" using f v False s by (cases found) auto
  have "kept_together adj pending (v, groups @ [(''cg:'' @ path_stem h, sort found)])"
    unfolding kept_together_def fst_conv snd_conv
  proof (intro conjI ballI)
    fix x assume "x \<in> set v"
    with cl show "nbrs adj x \<inter> set pending \<subseteq> set v" by blast
    from \<open>x \<in> set v\<close> v consider "x \<in> set found" | "x \<in> set visited" by auto
    then show "\<exists>g \<in> set (groups @ [(''cg:'' @ path_stem h, sort found)]).
        x \<in> set (snd g) \<and> nbrs adj x \<inter> set pending \<subseteq> set (snd g)"
    proof cases
      case 1
      with together show ?thesis by (intro bexI[of _ "(''cg:'' @ path_stem h, sort found)"]) auto
    next
      case 2
      with kept(2) show ?thesis by (metis UnCI set_append)
    qed
  qed
  moreover have "component_group adj pending f st = (v, groups @ [(''cg:'' @ path_stem h, sort found)])"
    using False c s \<open>found = h # t\<close> by (simp add: component_group_def)
  ultimately show ?thesis using v new st s f by auto
qed

lemma nbrs_sym: "y \<in> nbrs (file_call_graph calls) x \<Longrightarrow> x \<in> nbrs (file_call_graph calls) y"
  by (auto simp: nbrs_file_call_graph)

lemma component_groups_together:
  assumes "kept_together adj pending st" and "\<And>x y. y \<in> nbrs adj x \<Longrightarrow> x \<in> nbrs adj y"
    and "set fs \<subseteq> set pending" and "set (fst st) \<subseteq> set pending"
  shows "kept_together adj pending (fold (component_group adj pending) fs st) \<and>
    set (fst st) \<subseteq> set (fst (fold (component_group adj pending) fs st)) \<and>
    (\<forall>f \<in> set fs. dict_get adj f \<noteq> None \<longrightarrow> f \<in> set (fst (fold (component_group adj pending) fs st)))"
  using assms(1,3,4)
proof (induction fs arbitrary: st)
  case (Cons f fs)
  let ?st = "component_group adj pending f st"
  have "kept_together adj pending ?st \<and> set (fst ?st) \<subseteq> set pending \<and> set (fst st) \<subseteq> set (fst ?st) \<and>
      (dict_get adj f \<noteq> None \<longrightarrow> f \<in> set (fst ?st))"
    by (rule component_group_together) (use Cons.prems assms(2) in auto)
  moreover from this Cons.prems have "kept_together adj pending (fold (component_group adj pending) fs ?st) \<and>
    set (fst ?st) \<subseteq> set (fst (fold (component_group adj pending) fs ?st)) \<and>
    (\<forall>f \<in> set fs. dict_get adj f \<noteq> None \<longrightarrow> f \<in> set (fst (fold (component_group adj pending) fs ?st)))"
    by (intro Cons.IH) auto
  ultimately show ?case by auto
qed simp

lemma module_groups_keep:
  assumes "fold module_group ms (pending, groups) = (pending', groups')" and "f \<in> set pending"
    and "\<forall>m \<in> set ms. f \<notin> set (mi_files m)"
  shows "f \<in> set pending'"
  using assms
proof (induction ms arbitrary: pending groups)
  case (Cons m ms)
  obtain p g where step: "module_group m (pending, groups) = (p, g)" by force
  with Cons.prems have "f \<in> set p" by (auto simp: module_group_def Let_def split: if_splits)
  with Cons step show ?case by auto
qed simp

text \<open>Two files of a chunk, one of which calls the other, are in one group, unless a module
  of the mapper claims one of them.\<close>

lemma callers_stay_together:
  assumes "(f, g) \<in> set (call_pairs (cp_call_graph ctx))" and "f \<in> set files" and "g \<in> set files"
    and "\<forall>m \<in> set (cp_modules ctx). f \<notin> set (mi_files m) \<and> g \<notin> set (mi_files m)"
  shows "\<exists>grp \<in> set (cohesive_groups ctx files). f \<in> set (snd grp) \<and> g \<in> set (snd grp)"
proof -
  let ?adj = "file_call_graph (cp_call_graph ctx)"
  obtain pending groups where m: "fold module_group (cp_modules ctx) (remdups files, []) = (pending, groups)" by force
  let ?st = "fold (component_group ?adj pending) (sort pending) ([], groups)"
  have pend: "f \<in> set pending" "g \<in> set pending"
    using module_groups_keep[OF m] assms(2-4) by auto
  have nbr: "g \<in> nbrs ?adj f" using assms(1) by (simp add: nbrs_file_call_graph)
  then have "dict_get ?adj f \<noteq> None" by (cases "dict_get ?adj f") (simp_all add: nbrs_def dict_get_or_def)
  moreover have "kept_together ?adj pending ?st \<and> set (fst ([], groups)) \<subseteq> set (fst ?st) \<and>
      (\<forall>f \<in> set (sort pending). dict_get ?adj f \<noteq> None \<longrightarrow> f \<in> set (fst ?st))"
    by (rule component_groups_together) (auto simp: kept_together_def nbrs_sym)
  ultimately have "kept_together ?adj pending ?st" "f \<in> set (fst ?st)" using pend by auto
  then obtain grp where grp: "grp \<in> set (snd ?st)" "f \<in> set (snd grp)" "nbrs ?adj f \<inter> set pending \<subseteq> set (snd grp)"
    unfolding kept_together_def by blast
  have "set (snd ?st) \<subseteq> set (cohesive_groups ctx files)"
    using m by (simp add: cohesive_groups_def case_prod_beta Let_def)
  with grp nbr pend show ?thesis by blast
qed

section \<open>Buckets and splitting\<close>

definition bucket_files :: "(pystr \<times> pystr list \<times> int) list \<Rightarrow> pystr set" where
  "bucket_files buckets = set (concat (map (\<lambda>b. fst (snd b)) buckets))"

lemma bucket_files_simps [simp]:
  "bucket_files [] = {}" "bucket_files (b # bs) = set (fst (snd b)) \<union> bucket_files bs"
  "bucket_files (bs @ cs) = bucket_files bs \<union> bucket_files cs"
  by (simp_all add: bucket_files_def)

lemma bucket_files_enum: "bucket_files (map (\<lambda>(k, bf, bl). (lab k, bf, bl)) (enumerate i sh)) = set (concat (map fst sh))"
  by (induction sh arbitrary: i) auto

lemma pack_files: "bucket_files (pack w max_loc max_files max_chars groups) = group_files groups"
proof (induction groups)
  case (Cons g groups)
  let ?sh = "shards w max_loc max_files max_chars (snd g)"
  have "pack w max_loc max_files max_chars (g # groups) =
      map (\<lambda>(k, bf, bl). (shard_label (fst g) k (length ?sh), bf, bl)) (enumerate 1 ?sh) @ pack w max_loc max_files max_chars groups"
    by (simp add: pack_def case_prod_beta Let_def)
  with Cons shards_exact[of w max_loc max_files max_chars "snd g"] show ?case
    by (simp only: bucket_files_simps bucket_files_enum group_files_simps)
qed (simp add: pack_def)

lemma pack_fits:
  assumes "(label, fs, loc) \<in> set (pack w max_loc max_files max_chars groups)"
  shows "shard_fits w max_loc max_files max_chars fs \<and> loc = total_loc w fs"
proof -
  from assms obtain g files k where "(g, files) \<in> set groups"
    "(k, fs, loc) \<in> set (enumerate 1 (shards w max_loc max_files max_chars files))"
    by (auto simp: pack_def Let_def)
  then have "(fs, loc) \<in> set (shards w max_loc max_files max_chars files)"
    by (metis set_zip_rightD enumerate_eq_zip)
  with shards_exact[of w max_loc max_files max_chars files] show ?thesis
    by (auto simp: list_all_iff)
qed

lemma covered_files_simps [simp]:
  "set (covered_files []) = {}" "set (covered_files (c # cs)) = set (c_files c) \<union> set (covered_files cs)"
  "set (covered_files (cs @ ds)) = set (covered_files cs) \<union> set (covered_files ds)"
  by (simp_all add: covered_files_def)

lemma covered_map: "(\<And>c. c_files (f c) = c_files c) \<Longrightarrow> set (covered_files (map f cs)) = set (covered_files cs)"
  by (induction cs) auto

lemma split_parts_cover:
  "set (covered_files (map (\<lambda>(i, _, files, loc). split_part c i files loc) (enumerate i bs))) = bucket_files bs"
  by (induction bs arbitrary: i) (auto simp: split_part_def)

lemma split_chunk_covers: "set (covered_files (split_chunk w ctx cfg c)) = set (c_files c)"
  by (simp add: split_chunk_def split_parts_cover pack_files cohesive_groups_cover)

lemma split_covers: "set (covered_files (split_oversize_risk_chunks w ctx cfg cs)) = set (covered_files cs)"
proof -
  have "set (covered_files (concat (map (split_chunk w ctx cfg) cs))) = set (covered_files cs)"
    by (induction cs) (auto simp: split_chunk_covers)
  then show ?thesis by (simp add: split_oversize_risk_chunks_def)
qed

text \<open>After splitting a chunk is within the caps, or is a single file.\<close>

lemma split_bounded:
  assumes "s3_risk_chunk_loc cfg \<noteq> 0 \<or> char_budget cfg \<noteq> None"
    and "c \<in> set (split_oversize_risk_chunks w ctx cfg cs)"
  shows "length (c_files c) = 1 \<or> fits w cfg c"
proof -
  from assms obtain d where d: "c \<in> set (split_chunk w ctx cfg d)" by (auto simp: split_oversize_risk_chunks_def)
  show ?thesis
  proof (cases "fits w cfg d")
    case True
    with d show ?thesis by (auto simp: split_chunk_def fits_def split: option.splits)
  next
    case False
    with d obtain i b where "(i, b) \<in> set (enumerate 0 (pack w (s3_risk_chunk_loc cfg) (or_default 25 (s3_max_files cfg))
        (char_budget cfg) (cohesive_groups ctx (c_files d))))" and c: "c_files c = fst (snd b)"
      by (auto simp: split_chunk_def split_part_def)
    then have "b \<in> set (pack w (s3_risk_chunk_loc cfg) (or_default 25 (s3_max_files cfg))
        (char_budget cfg) (cohesive_groups ctx (c_files d)))"
      by (metis set_zip_rightD enumerate_eq_zip)
    then have "shard_fits w (s3_risk_chunk_loc cfg) (or_default 25 (s3_max_files cfg)) (char_budget cfg) (c_files c)"
      using pack_fits[of "fst b" "fst (snd b)" "snd (snd b)"] c by simp
    then show ?thesis by (simp add: shard_fits_def fits_def)
  qed
qed

section \<open>Reachable files\<close>

definition edges_of :: "(pystr, pystr list) pydict \<Rightarrow> (pystr \<times> pystr) set" where
  "edges_of graph = {(a, b). b \<in> nbrs graph a}"

lemma round_sets:
  assumes "reach_round graph seen frontier = (seen', nxt)"
  shows "set seen' = set seen \<union> (edges_of graph `` set frontier)" "set nxt = (edges_of graph `` set frontier) - set seen"
  using assms by (auto simp: reach_round_eq set_fromkeys_seen next_files_def edges_of_def nbrs_def)

lemma reach_closed:
  assumes "edges_of graph `` (set seen - set frontier) \<subseteq> set seen" and "set frontier \<subseteq> set seen"
  shows "set seen \<subseteq> set (reach graph seen frontier) \<and>
    edges_of graph `` set (reach graph seen frontier) \<subseteq> set (reach graph seen frontier) \<and>
    set (reach graph seen frontier) \<subseteq> (edges_of graph)\<^sup>* `` set seen"
  using assms
proof (induction graph seen frontier rule: reach.induct)
  case (2 graph seen n ns)
  obtain seen' nxt where r: "reach_round graph seen (n # ns) = (seen', nxt)" by force
  note sets = round_sets[OF r]
  have "set seen \<subseteq> set (reach graph seen' nxt)" "edges_of graph `` set (reach graph seen' nxt) \<subseteq> set (reach graph seen' nxt)"
    "set (reach graph seen' nxt) \<subseteq> (edges_of graph)\<^sup>* `` set seen'"
    using "2.IH"[OF r[symmetric] refl] sets "2.prems" by blast+
  moreover have "(edges_of graph)\<^sup>* `` set seen' \<subseteq> (edges_of graph)\<^sup>* `` set seen"
    using sets(1) "2.prems"(2) by (auto intro: converse_rtrancl_into_rtrancl)
  ultimately show ?case using r by simp
qed auto

text \<open>The search returns exactly the files reachable from the seeds.\<close>

lemma reach_exact: "set (reach graph seeds seeds) = (edges_of graph)\<^sup>* `` set seeds"
proof -
  have c: "set seeds \<subseteq> set (reach graph seeds seeds)" "edges_of graph `` set (reach graph seeds seeds) \<subseteq> set (reach graph seeds seeds)"
    "set (reach graph seeds seeds) \<subseteq> (edges_of graph)\<^sup>* `` set seeds"
    using reach_closed[of graph seeds seeds] by auto
  from c(1,2) have "(edges_of graph)\<^sup>* `` set seeds \<subseteq> set (reach graph seeds seeds)"
    using Image_closed_trancl[of "edges_of graph" "set (reach graph seeds seeds)"] by blast
  with c(3) show ?thesis by blast
qed

lemma nbrs_add_pairs:
  "y \<in> nbrs (fold (\<lambda>(a, b). dict_add_new a b) ps adj) x \<longleftrightarrow> y \<in> nbrs adj x \<or> (x, y) \<in> set ps"
proof (induction ps arbitrary: adj)
  case (Cons p ps)
  obtain a b where "p = (a, b)" by (cases p)
  moreover have "y \<in> nbrs (dict_add_new a b adj) x \<longleftrightarrow> y \<in> nbrs adj x \<or> x = a \<and> y = b"
    by (simp add: nbrs_add_new)
  ultimately show ?case using Cons.IH[of "dict_add_new a b adj"]
    by (auto simp only: fold.simps comp_apply prod.case list.set prod.inject insert_iff)
qed simp

lemma edges_of_graph: "edges_of (graph_of ps) = set ps"
  by (simp add: edges_of_def graph_of_def nbrs_add_pairs) (simp add: nbrs_def dict_get_or_def)

lemma set_swap: "set (map prod.swap ps) = (set ps)\<inverse>"
  by force

text \<open>C36. The files marked reachable are exactly those that an entry file calls, over any number of
  calls, that call a file with a sink, that lie on a proved path, or whose language the graph
  does not know.\<close>

theorem reachable_files_exact:
  "set (reachable_files ctx) =
    (set (file_edges ctx))\<^sup>* `` set (entry_files ctx) \<union> ((set (file_edges ctx))\<inverse>)\<^sup>* `` set (sink_file_list ctx) \<union>
    set (seed_reachable_files (cp_seed_taint_paths ctx)) \<union> set (unknown_lang_files ctx)"
  unfolding reachable_files_def Let_def set_append reach_exact edges_of_graph set_swap by blast

section \<open>Coverage\<close>

lemma gate_splits:
  assumes "reachable_gate ctx cfg eligible unreachable = (kept, unreachable')" and "f \<in> set eligible"
  shows "f \<in> set kept \<or> f \<in> set unreachable' \<and> py_lower (s3_catchall_mode cfg) = ''reachable_only'' \<and>
    (f \<notin> set (reachable_files ctx) \<or> f \<notin> set (cp_all_files ctx))"
  using assms by (auto simp: reachable_gate_def Let_def split: if_splits)

lemma gate_kept: "reachable_gate ctx cfg eligible unreachable = (kept, unreachable') \<Longrightarrow> set kept \<subseteq> set eligible"
  by (auto simp: reachable_gate_def Let_def split: if_splits)

lemma catchalls_cover:
  "set (covered_files (map (\<lambda>(idx, label, files, loc). mk_catchall w idx label files loc (base + int idx)) (enumerate i bs)))
    = bucket_files bs"
  by (induction bs arbitrary: i) (auto simp: mk_catchall_def)

definition catchall_candidates :: "decompose_context \<Rightarrow> manifest \<Rightarrow> pystr list" where
  "catchall_candidates ctx m =
     filter catchall_eligible (filter (\<lambda>f. f \<notin> set (covered_files (mf_chunks m))) (cp_all_files ctx))"

lemma catchall_result:
  assumes "s3_catchall_enabled cfg"
    and "reachable_gate ctx cfg (catchall_candidates ctx m) (mf_unreachable m) = (kept, unreachable)"
  shows "set (covered_files (mf_chunks (add_catchall_chunks w ctx cfg m))) = set (covered_files (mf_chunks m)) \<union> set kept \<and>
    mf_unreachable (add_catchall_chunks w ctx cfg m) = unreachable"
  using assms
  by (simp add: add_catchall_chunks_def catchall_candidates_def[symmetric] Let_def catchalls_cover pack_files cohesive_groups_cover
      del: filter_filter)

lemma catchall_step:
  assumes "s3_catchall_enabled cfg" and "f \<in> set (cp_all_files ctx)" and "catchall_eligible f"
  shows "f \<in> set (covered_files (mf_chunks (add_catchall_chunks w ctx cfg m))) \<or>
    f \<in> set (mf_unreachable (add_catchall_chunks w ctx cfg m)) \<and>
    py_lower (s3_catchall_mode cfg) = ''reachable_only'' \<and> f \<notin> set (reachable_files ctx)"
proof -
  obtain kept unreachable where g: "reachable_gate ctx cfg (catchall_candidates ctx m) (mf_unreachable m) = (kept, unreachable)"
    by force
  have "f \<in> set (covered_files (mf_chunks m)) \<or> f \<in> set (catchall_candidates ctx m)"
    using assms by (simp add: catchall_candidates_def)
  with gate_splits[OF g, of f] catchall_result[OF assms(1) g, of w] assms(2) show ?thesis by auto
qed

lemma catchall_known:
  assumes "set (covered_files (mf_chunks m)) \<subseteq> set (cp_all_files ctx)"
  shows "set (covered_files (mf_chunks (add_catchall_chunks w ctx cfg m))) \<subseteq> set (cp_all_files ctx)"
proof (cases "s3_catchall_enabled cfg")
  case True
  obtain kept unreachable where g: "reachable_gate ctx cfg (catchall_candidates ctx m) (mf_unreachable m) = (kept, unreachable)"
    by force
  from gate_kept[OF g] have "set kept \<subseteq> set (cp_all_files ctx)" by (auto simp: catchall_candidates_def)
  with catchall_result[OF True g, of w] assms show ?thesis by auto
qed (use assms in \<open>simp add: add_catchall_chunks_def\<close>)

subsection \<open>The other steps\<close>

lemma fix_file_known: "fix_file truth f = Some g \<Longrightarrow> g \<in> set truth"
proof -
  have by_name: "dict_get_or (files_by_name truth) n [] = filter (\<lambda>f. path_name f = n) truth" for n
  proof -
    have "files_by_name truth = fold (\<lambda>(k, v). dict_append k v) (map (\<lambda>f. (path_name f, f)) truth) []"
      by (simp add: files_by_name_def fold_map comp_def)
    then show ?thesis
      by (auto simp: dict_get_or_def dict_get_group filter_map comp_def image_image intro!: filter_False[symmetric])
  qed
  show "fix_file truth f = Some g \<Longrightarrow> g \<in> set truth"
    unfolding fix_file_def Let_def by_name
    by (auto split: if_splits list.splits dest: filter_eq_ConsD)
qed

lemma normalize_known: "set (covered_files (map (normalize_chunk_files truth) cs)) \<subseteq> set truth"
  by (induction cs) (auto simp: normalize_chunk_files_def map_filter_def dest: fix_file_known)

lemma add_path_known:
  assumes "set (covered_files (ts_chunks st)) \<subseteq> known" and "set files \<subseteq> known" and "\<And>n. c_files (mk n) = files"
  shows "set (covered_files (ts_chunks (add_path cap files sig mk st))) \<subseteq> known"
  using assms by (simp add: add_path_def)

lemma taint_chunk_files [simp]: "c_files (taint_chunk w ctx ep n files hyp path src snk cwe) = files"
  by (simp add: taint_chunk_def)

lemma known_files_known: "set (known_files ctx files) \<subseteq> set (cp_all_files ctx)"
  by (auto simp: known_files_def)

lemma taint_entry_known:
  assumes "set (covered_files (ts_chunks st)) \<subseteq> set (cp_all_files ctx)"
  shows "set (covered_files (ts_chunks (taint_entry w ctx cfg by_qn ep st))) \<subseteq> set (cp_all_files ctx)"
proof -
  have seed: "set (covered_files (ts_chunks (add_seed_path w ctx cfg ep h st))) \<subseteq> set (cp_all_files ctx)"
    if "set (covered_files (ts_chunks st)) \<subseteq> set (cp_all_files ctx)" for h st
    using that known_files_known by (simp add: add_seed_path_def Let_def add_path_known seed_files_def)
  have hit: "set (covered_files (ts_chunks (add_hit w ctx cfg by_qn ep h st))) \<subseteq> set (cp_all_files ctx)"
    if "set (covered_files (ts_chunks st)) \<subseteq> set (cp_all_files ctx)" for h st
    using that known_files_known by (cases h) (simp add: add_hit_def Let_def add_path_known path_files_def)
  show ?thesis
    unfolding taint_entry_def
    by (rule List.fold_invariant[where Q = "\<lambda>_. True"], simp, rule List.fold_invariant[where Q = "\<lambda>_. True"])
      (use assms seed hit in auto)
qed

lemma taint_step:
  assumes "set (covered_files (mf_chunks m)) \<subseteq> set (cp_all_files ctx)"
  shows "set (covered_files (mf_chunks (add_taint_chunks w ctx cfg m))) \<subseteq> set (cp_all_files ctx)"
proof -
  let ?st = "fold (taint_entry w ctx cfg (sinks_by_qnode w ctx)) (sorted_entries (cp_entry_points ctx))
    \<lparr>ts_added = 0, ts_seen = [], ts_chunks = []\<rparr>"
  have "set (covered_files (ts_chunks ?st)) \<subseteq> set (cp_all_files ctx)"
    by (rule List.fold_invariant[where Q = "\<lambda>_. True"]) (simp_all add: taint_entry_known)
  moreover have "set (covered_files (map (shift_rank k) (mf_chunks m))) = set (covered_files (mf_chunks m))" for k
    by (rule covered_map) (simp add: shift_rank_def)
  ultimately show ?thesis using assms by (simp add: add_taint_chunks_def Let_def)
qed

lemma tag_covers [simp]: "set (covered_files (mf_chunks (tag_languages w m))) = set (covered_files (mf_chunks m))"
  by (simp add: tag_languages_def covered_map)

lemma drop_covers [simp]: "set (covered_files (mf_chunks (drop_unknown_threats ctx m))) = set (covered_files (mf_chunks m))"
  by (simp add: drop_unknown_threats_def covered_map split: option.splits)

lemma unreachable_kept [simp]:
  "mf_unreachable (tag_languages w m) = mf_unreachable m"
  "mf_unreachable (drop_unknown_threats ctx m) = mf_unreachable m"
  "mf_unreachable (add_threat_fallback_chunks w ctx cfg m) = mf_unreachable m"
  "mf_unreachable (add_specialist_chunks w ctx cfg m) = mf_unreachable m"
  by (simp_all add: tag_languages_def drop_unknown_threats_def add_threat_fallback_chunks_def add_specialist_chunks_def
      Let_def case_prod_beta)

lemma specialists_cover:
  "set (covered_files (map (\<lambda>(shard, label, files, loc). mk_specialist spec shard label files loc (base + int shard)
      (langs files) (focus files)) (enumerate i bs))) = bucket_files bs"
  by (induction bs arbitrary: i) (auto simp: mk_specialist_def)

lemma all_specialists_known: "set (covered_files (all_specialists w ctx cfg source specs base)) \<subseteq> set source"
proof (induction specs arbitrary: base)
  case (Cons spec specs)
  have "set (covered_files (specialist_chunks w ctx cfg source spec base)) \<subseteq> set source"
    by (simp add: specialist_chunks_def Let_def specialists_cover pack_files cohesive_groups_cover)
  with Cons show ?case by (auto simp: Let_def)
qed simp

lemma specialist_step:
  "set (covered_files (mf_chunks m)) \<subseteq> set (covered_files (mf_chunks (add_specialist_chunks w ctx cfg m))) \<and>
   set (covered_files (mf_chunks (add_specialist_chunks w ctx cfg m))) \<subseteq> set (covered_files (mf_chunks m)) \<union> set (cp_all_files ctx)"
proof -
  have "set (covered_files (all_specialists w ctx cfg (filter is_source (cp_all_files ctx)) specs base)) \<subseteq> set (cp_all_files ctx)"
    for specs base using all_specialists_known[of w ctx cfg "filter is_source (cp_all_files ctx)" specs base] by auto
  then show ?thesis by (auto simp: add_specialist_chunks_def Let_def)
qed

lemma add_files_known: "set (add_files known cap fs chosen) \<subseteq> set known \<union> set chosen"
  by (induction known cap fs chosen rule: add_files.induct) (auto simp: Let_def)

lemma py_take_subset: "set (py_take n xs) \<subseteq> set xs"
  by (auto simp: py_take_def dest: in_set_takeD)

lemma candidates_known: "set (candidate_files_for_threat ctx spec_files cap t) \<subseteq> set (cp_all_files ctx)"
proof -
  have add: "set (add_files (cp_all_files ctx) cap fs xs) \<subseteq> set (cp_all_files ctx)" if "set xs \<subseteq> set (cp_all_files ctx)" for fs xs
    using add_files_known[of "cp_all_files ctx" cap fs xs] that by blast
  have either: "set (if b then add_files (cp_all_files ctx) cap fs ys else xs) \<subseteq> set (cp_all_files ctx)"
    if "set xs \<subseteq> set (cp_all_files ctx)" "set ys \<subseteq> set (cp_all_files ctx)" for b fs xs ys
    using that add[of ys fs] by simp
  have taken: "set (py_take cap xs) \<subseteq> set (cp_all_files ctx)" if "set xs \<subseteq> set (cp_all_files ctx)" for xs
    using that py_take_subset[of cap xs] by blast
  show ?thesis
    unfolding candidate_files_for_threat_def Let_def
    by (intro taken add either) simp_all
qed

lemma cover_threat_known:
  assumes "set (covered_files (fst st)) \<subseteq> set (cp_all_files ctx)"
  shows "set (covered_files (fst (cover_threat w ctx cfg spec_files base t st))) \<subseteq> set (cp_all_files ctx) \<and>
    set (covered_files (fst st)) \<subseteq> set (covered_files (fst (cover_threat w ctx cfg spec_files base t st)))"
  using assms candidates_known[of ctx spec_files "s3_threat_max_files cfg" t]
  by (auto simp: cover_threat_def threat_chunk_def Let_def split: prod.splits)

lemma threat_step:
  assumes "set (covered_files (mf_chunks m)) \<subseteq> set (cp_all_files ctx)"
  shows "set (covered_files (mf_chunks m)) \<subseteq> set (covered_files (mf_chunks (add_threat_fallback_chunks w ctx cfg m))) \<and>
    set (covered_files (mf_chunks (add_threat_fallback_chunks w ctx cfg m))) \<subseteq> set (cp_all_files ctx)"
proof -
  have "set (covered_files (mf_chunks m)) \<subseteq> set (covered_files (fst (fold (cover_threat w ctx cfg d b) ts (mf_chunks m, 0)))) \<and>
      set (covered_files (fst (fold (cover_threat w ctx cfg d b) ts (mf_chunks m, 0)))) \<subseteq> set (cp_all_files ctx)" for d b ts
  proof (rule List.fold_invariant[where Q = "\<lambda>_. True"], goal_cases)
    case (3 t st)
    with cover_threat_known[of st ctx w cfg d b t] show ?case by auto
  qed (use assms in auto)
  with assms show ?thesis by (simp add: add_threat_fallback_chunks_def Let_def case_prod_beta)
qed

section \<open>The step as a whole\<close>

definition after_catchall :: "world \<Rightarrow> step3_cfg \<Rightarrow> decompose_context \<Rightarrow> manifest option \<Rightarrow> manifest" where
  "after_catchall w cfg ctx reply =
     (let m = or_default \<lparr>mf_chunks = [], mf_unreachable = []\<rparr> reply;
          m = m\<lparr>mf_chunks := map (normalize_chunk_files (cp_all_files ctx)) (mf_chunks m)\<rparr>;
          m = add_taint_chunks w ctx cfg m;
          m = m\<lparr>mf_chunks := split_oversize_risk_chunks w ctx cfg (mf_chunks m)\<rparr>
      in add_catchall_chunks w ctx cfg m)"

lemma decompose_run_after:
  "decompose_run w cfg ctx reply = drop_unknown_threats ctx (add_threat_fallback_chunks w ctx cfg
    (add_specialist_chunks w ctx cfg (tag_languages w (after_catchall w cfg ctx reply))))"
  by (simp add: decompose_run_def after_catchall_def Let_def)

lemma after_catchall_known: "set (covered_files (mf_chunks (after_catchall w cfg ctx reply))) \<subseteq> set (cp_all_files ctx)"
  unfolding after_catchall_def Let_def
  by (intro catchall_known) (simp add: split_covers taint_step normalize_known)

text \<open>Every chunk of a scan names only files of the repository, whatever files the
  strategist's reply, the seed engine or the modules name.\<close>

lemma chunks_name_known_files: "set (covered_files (mf_chunks (decompose_run w cfg ctx reply))) \<subseteq> set (cp_all_files ctx)"
proof -
  let ?m = "add_specialist_chunks w ctx cfg (tag_languages w (after_catchall w cfg ctx reply))"
  have "set (covered_files (mf_chunks ?m)) \<subseteq> set (cp_all_files ctx)"
    using specialist_step[of "tag_languages w (after_catchall w cfg ctx reply)" w ctx cfg]
      after_catchall_known[of w cfg ctx reply] by auto
  from threat_step[OF this, of w cfg] show ?thesis by (simp add: decompose_run_after)
qed

text \<open>C35. The coverage guarantee: with catch-all chunks on, every file of the repository that may
  carry a flaw is in some chunk, whatever the strategist replied, or, in the mode that scans
  reachable files only, it is not reachable and is recorded as such.\<close>

theorem decompose_covers:
  assumes "s3_catchall_enabled cfg" and "f \<in> set (cp_all_files ctx)" and "catchall_eligible f"
  shows "f \<in> set (covered_files (mf_chunks (decompose_run w cfg ctx reply))) \<or>
    f \<in> set (mf_unreachable (decompose_run w cfg ctx reply)) \<and>
    py_lower (s3_catchall_mode cfg) = ''reachable_only'' \<and> f \<notin> set (reachable_files ctx)"
proof -
  let ?a = "after_catchall w cfg ctx reply"
  let ?m = "add_specialist_chunks w ctx cfg (tag_languages w ?a)"
  have "set (covered_files (mf_chunks ?a)) \<subseteq> set (covered_files (mf_chunks ?m))"
    using specialist_step[of "tag_languages w ?a" w ctx cfg] by simp
  also have "\<dots> \<subseteq> set (covered_files (mf_chunks (decompose_run w cfg ctx reply)))"
  proof -
    have "set (covered_files (mf_chunks ?m)) \<subseteq> set (cp_all_files ctx)"
      using specialist_step[of "tag_languages w ?a" w ctx cfg] after_catchall_known[of w cfg ctx reply] by auto
    from threat_step[OF this, of w cfg] show ?thesis by (simp add: decompose_run_after)
  qed
  finally have "set (covered_files (mf_chunks ?a)) \<subseteq> set (covered_files (mf_chunks (decompose_run w cfg ctx reply)))" .
  moreover have "mf_unreachable (decompose_run w cfg ctx reply) = mf_unreachable ?a" by (simp add: decompose_run_after)
  ultimately show ?thesis
    using catchall_step[OF assms, of w] unfolding after_catchall_def Let_def by auto
qed

section \<open>A small repository\<close>

definition small_repo :: decompose_context where
  "small_repo = \<lparr>cp_call_graph = [(''web/a.py::f'', [''db/b.py::g''])], cp_call_graph_files = [], cp_def_spans = [],
     cp_seed_taint_paths = [], cp_seed_taint_evidence = [],
     cp_entry_points = [\<lparr>ep_file = ''web/a.py'', ep_function = ''f'', ep_kind = ''network'', ep_reachable_from_unauth = True\<rparr>],
     cp_all_files = [''web/a.py'', ''db/b.py'', ''cfg.py''],
     cp_unsafe_sinks = [\<lparr>sk_file = ''db/b.py'', sk_line = 3, sk_function = ''g'', sk_cwe = []\<rparr>],
     cp_modules = [], cp_threats = [], cp_control_kinds = [], cp_externally_facing = False\<rparr>"

definition small_world :: world where
  "small_world = \<lparr>w_source = (\<lambda>_. Source (''x'' @ [CHR 0x0A])), w_bytes = (\<lambda>_. 2), w_walk = (\<lambda>xs. xs), w_dash = ''-''\<rparr>"

definition small_cfg :: "int \<Rightarrow> step3_cfg" where
  "small_cfg loc = \<lparr>s3_pack_by = ''loc'', s3_token_budget = 0, s3_overhead_tokens = 0, s3_risk_chunk_loc = loc,
     s3_max_files = None, s3_catchall_enabled = True, s3_catchall_mode = ''all'', s3_catchall_loc = 20000,
     s3_catchall_max_files = None, s3_reachable_min_ratio = 0, s3_reachable_min_files = 0, s3_specialists = Some [],
     s3_specialist_loc = 6000, s3_taint_chunks = True, s3_taint_max_hops = 8, s3_taint_max_chunks = 40,
     s3_files_per_hop = 5, s3_threat_fallbacks = True, s3_threat_max_files = 12\<rparr>"

lemma decompose_covers_witness:
  "''cfg.py'' \<in> set (covered_files (mf_chunks (decompose_run small_world (small_cfg 8000) small_repo None)))"
proof -
  have "s3_catchall_enabled (small_cfg 8000)" "''cfg.py'' \<in> set (cp_all_files small_repo)" "catchall_eligible ''cfg.py''"
    "py_lower (s3_catchall_mode (small_cfg 8000)) \<noteq> ''reachable_only''"
    by code_simp+
  with decompose_covers[of "small_cfg 8000" "''cfg.py''" small_repo small_world None] show ?thesis by simp
qed

end
