(* ===== verification/TaintChunksProps.thy ===== *)
theory TaintChunksProps
  imports DecomposeProps
begin

text \<open>
  The search for sinks: what it returns is a walk through the call graph without a sanitizer,
  and without sanitizers it finds every sink within its bound; a sanitized path can hide
  another.  The numbering and ranks of taint chunks, and the chunks of uncovered threats.
\<close>

section \<open>Rounds of the search\<close>

definition hunt_pairs :: "(pystr, pystr list) pydict \<Rightarrow> hop list \<Rightarrow> (hop \<times> pystr) list" where
  "hunt_pairs graph frontier = concat (map (\<lambda>h. map (Pair h) (dict_get_or graph (last (fst h)) [])) frontier)"

lemma hunt_round_pairs:
  "hunt_round graph sinks max_hops frontier st =
    fold (\<lambda>(h, callee). hunt_callee sinks max_hops h callee) (hunt_pairs graph frontier) (st\<lparr>hu_next := []\<rparr>)"
proof -
  have "fold (hunt_hop graph sinks max_hops) frontier st =
      fold (\<lambda>(h, callee). hunt_callee sinks max_hops h callee) (hunt_pairs graph frontier) st" for st
    by (induction frontier arbitrary: st) (auto simp: hunt_pairs_def hunt_hop_def fold_map comp_def)
  then show ?thesis by (simp add: hunt_round_def)
qed

definition ends :: "hop list \<Rightarrow> pystr set" where
  "ends frontier = (\<lambda>h. last (fst h)) ` set frontier"

lemma hunt_pairs_targets: "snd ` set (hunt_pairs graph frontier) = edges_of graph `` ends frontier"
proof -
  have "snd ` set (hunt_pairs graph frontier) = (\<Union>h \<in> set frontier. nbrs graph (last (fst h)))"
    by (induction frontier) (auto simp: hunt_pairs_def nbrs_def image_Un image_image)
  then show ?thesis by (simp add: edges_of_def ends_def Image_def) blast
qed

abbreviation hunt_all :: "pystr list \<Rightarrow> int \<Rightarrow> (hop \<times> pystr) list \<Rightarrow> hunt \<Rightarrow> hunt" where
  "hunt_all sinks max_hops \<equiv> fold (\<lambda>(h, callee). hunt_callee sinks max_hops h callee)"

lemma callee_visited: "set (hu_visited (hunt_callee sinks max_hops h c st)) = insert c (set (hu_visited st))"
  by (auto simp: hunt_callee_def Let_def split: prod.splits)

lemma callee_ends:
  "ends (hu_next (hunt_callee sinks max_hops h c st)) =
    ends (hu_next st) \<union> (if int (length (fst h)) + 1 \<le> max_hops \<and> c \<notin> set (hu_visited st) then {c} else {})"
  by (auto simp: hunt_callee_def ends_def Let_def split: prod.splits)

lemma callee_lengths:
  "h' \<in> set (hu_next (hunt_callee sinks max_hops h c st)) \<Longrightarrow> h' \<in> set (hu_next st) \<or> length (fst h') = length (fst h) + 1"
  by (auto simp: hunt_callee_def Let_def split: prod.splits if_splits)

lemma all_visited: "set (hu_visited (hunt_all sinks max_hops ps st)) = set (hu_visited st) \<union> snd ` set ps"
  by (induction ps arbitrary: st) (auto simp: callee_visited)

lemma all_lengths:
  "\<forall>x \<in> set ps. length (fst (fst x)) = L \<Longrightarrow> \<forall>h \<in> set (hu_next st). length (fst h) = L + 1 \<Longrightarrow>
    \<forall>h \<in> set (hu_next (hunt_all sinks max_hops ps st)). length (fst h) = L + 1"
proof (induction ps arbitrary: st)
  case (Cons x ps)
  have "\<forall>h \<in> set (hu_next (hunt_callee sinks max_hops (fst x) (snd x) st)). length (fst h) = L + 1"
  proof
    fix h assume "h \<in> set (hu_next (hunt_callee sinks max_hops (fst x) (snd x) st))"
    from callee_lengths[OF this] Cons.prems show "length (fst h) = L + 1" by auto
  qed
  with Cons.IH[OF _ this] Cons.prems(1) show ?case by (simp add: case_prod_beta)
qed simp

lemma ends_split: "A \<union> (if c \<notin> V then {c} else {}) \<union> (S - insert c V) = A \<union> (insert c S - V)"
  by (cases "c \<in> V") auto

lemma all_ends:
  fixes L :: nat
  assumes "\<forall>x \<in> set ps. length (fst (fst x)) = L"
  shows "ends (hu_next (hunt_all sinks max_hops ps st)) =
      ends (hu_next st) \<union> (if int L + 1 \<le> max_hops then snd ` set ps - set (hu_visited st) else {})"
  using assms
proof (induction ps arbitrary: st)
  case (Cons x ps)
  obtain h c where x: "x = (h, c)" by (cases x)
  have "ends (hu_next (hunt_all sinks max_hops (x # ps) st)) = ends (hu_next (hunt_callee sinks max_hops h c st)) \<union>
      (if int L + 1 \<le> max_hops then snd ` set ps - insert c (set (hu_visited st)) else {})"
    using Cons x by (simp add: callee_visited)
  also have "\<dots> = ends (hu_next st) \<union> (if int L + 1 \<le> max_hops then insert c (snd ` set ps) - set (hu_visited st) else {})"
    using Cons.prems x by (cases "int L + 1 \<le> max_hops") (simp_all add: callee_ends ends_split)
  finally show ?case by (simp add: x)
qed simp

lemma hunt_round_step:
  assumes "\<forall>h \<in> set frontier. length (fst h) = L"
  shows "set (hu_visited (hunt_round graph sinks max_hops frontier st)) = set (hu_visited st) \<union> edges_of graph `` ends frontier"
    and "ends (hu_next (hunt_round graph sinks max_hops frontier st)) =
      (if int L + 1 \<le> max_hops then edges_of graph `` ends frontier - set (hu_visited st) else {})"
    and "\<forall>h \<in> set (hu_next (hunt_round graph sinks max_hops frontier st)). length (fst h) = L + 1"
proof -
  have "\<forall>x \<in> set (hunt_pairs graph frontier). length (fst (fst x)) = L"
    using assms by (auto simp: hunt_pairs_def)
  note pairs = all_visited[of sinks max_hops "hunt_pairs graph frontier" "st\<lparr>hu_next := []\<rparr>"]
    all_ends[OF this, of sinks max_hops "st\<lparr>hu_next := []\<rparr>"] all_lengths[OF this, of "st\<lparr>hu_next := []\<rparr>" sinks max_hops]
  show "set (hu_visited (hunt_round graph sinks max_hops frontier st)) = set (hu_visited st) \<union> edges_of graph `` ends frontier"
    and "ends (hu_next (hunt_round graph sinks max_hops frontier st)) =
      (if int L + 1 \<le> max_hops then edges_of graph `` ends frontier - set (hu_visited st) else {})"
    and "\<forall>h \<in> set (hu_next (hunt_round graph sinks max_hops frontier st)). length (fst h) = L + 1"
    using pairs by (simp_all add: hunt_round_pairs hunt_pairs_targets) (simp_all add: ends_def)
qed

lemma relpow_closed: "E `` V \<subseteq> V \<Longrightarrow> (E ^^ n) `` V \<subseteq> V"
  by (induction n) (auto simp: relcomp_unfold)

lemma relpow_Suc_image: "(E ^^ Suc m) `` V = (E ^^ m) `` (E `` V)"
  by (simp add: relpow_commute[symmetric] relcomp_Image)

text \<open>Everything within the bound is visited.\<close>

lemma hunt_loop_visits:
  assumes "ends frontier \<subseteq> set (hu_visited st)" and "\<forall>h \<in> set frontier. length (fst h) = k + 1"
  shows "set (hu_visited st) \<subseteq> set (hu_visited (hunt_loop graph sinks max_hops frontier st)) \<and>
    (edges_of graph `` (set (hu_visited st) - ends frontier) \<subseteq> set (hu_visited st) \<longrightarrow>
      (\<forall>n. int (k + n) \<le> max 1 max_hops \<longrightarrow>
        (edges_of graph ^^ n) `` set (hu_visited st) \<subseteq> set (hu_visited (hunt_loop graph sinks max_hops frontier st))))"
  using assms
proof (induction graph sinks max_hops frontier st arbitrary: k rule: hunt_loop.induct)
  case (1 graph sinks max_hops st)
  then show ?case using relpow_closed[of "edges_of graph" "set (hu_visited st)"] by (auto simp: ends_def)
next
  case (2 graph sinks max_hops h hs st)
  define st' where "st' = hunt_round graph sinks max_hops (h # hs) st"
  note step = hunt_round_step[OF 2(3), of graph sinks max_hops st, folded st'_def]
  let ?E = "edges_of graph" and ?V = "set (hu_visited st)" and ?V' = "set (hu_visited st')"
    and ?W = "set (hu_visited (hunt_loop graph sinks max_hops (hu_next st') st'))"
  have "ends (hu_next st') \<subseteq> ?V'" using step(1,2) by (auto split: if_splits)
  moreover have "\<forall>h \<in> set (hu_next st'). length (fst h) = Suc k + 1" using step(3) by simp
  ultimately have IH: "?V' \<subseteq> ?W"
    "?E `` (?V' - ends (hu_next st')) \<subseteq> ?V' \<Longrightarrow> int (Suc k + n) \<le> max 1 max_hops \<Longrightarrow> (?E ^^ n) `` ?V' \<subseteq> ?W" for n
    using 2(1)[OF st'_def, of "Suc k"] by auto
  have "(?E ^^ n) `` ?V \<subseteq> ?W" if closed: "?E `` (?V - ends (h # hs)) \<subseteq> ?V" and n: "int (k + n) \<le> max 1 max_hops" for n
  proof (cases n)
    case 0
    then show ?thesis using IH(1) step(1) by auto
  next
    case (Suc m)
    have next_in: "?E `` ?V \<subseteq> ?V'" using closed step(1) by auto
    have sub: "(?E ^^ n) `` ?V \<subseteq> (?E ^^ m) `` ?V'"
      unfolding Suc relpow_Suc_image by (rule Image_mono[OF order_refl next_in])
    show ?thesis
    proof (cases "int (k + 1) + 1 \<le> max_hops")
      case True
      then have "?E `` (?V' - ends (hu_next st')) \<subseteq> ?V'"
        using next_in step(1,2) by auto
      from IH(2)[OF this, of m] n Suc sub show ?thesis by auto
    next
      case False
      with n Suc have "m = 0" by (auto simp: max_def split: if_splits)
      then show ?thesis using sub IH(1) by auto
    qed
  qed
  moreover have "?V \<subseteq> ?W" using IH(1) step(1) by auto
  ultimately show ?case by (simp add: st'_def[symmetric])
qed

section \<open>What the search returns\<close>

text \<open>A walk from the start along the calls; the flag says whether a sanitizer follows the start.\<close>

definition calls_walk :: "(pystr, pystr list) pydict \<Rightarrow> pystr \<Rightarrow> pystr list \<Rightarrow> bool" where
  "calls_walk graph start p \<longleftrightarrow>
     p \<noteq> [] \<and> hd p = start \<and> successively (\<lambda>x y. y \<in> set (dict_get_or graph x [])) p"

lemma calls_walk_snoc:
  "calls_walk graph start p \<Longrightarrow> c \<in> set (dict_get_or graph (last p) []) \<Longrightarrow> calls_walk graph start (p @ [c])"
  by (simp add: calls_walk_def successively_append_iff)

definition hop_ok :: "(pystr, pystr list) pydict \<Rightarrow> pystr \<Rightarrow> hop \<Rightarrow> bool" where
  "hop_ok graph start h \<longleftrightarrow> calls_walk graph start (fst h) \<and> snd h = list_ex is_sanitizer (tl (fst h))"

definition result_ok :: "(pystr, pystr list) pydict \<Rightarrow> pystr list \<Rightarrow> int \<Rightarrow> pystr \<Rightarrow> pystr \<times> pystr list \<Rightarrow> bool" where
  "result_ok graph sinks max_hops start r \<longleftrightarrow>
     hop_ok graph start (snd r, False) \<and> last (snd r) = fst r \<and> fst r \<in> set sinks \<and>
     2 \<le> length (snd r) \<and> int (length (snd r)) \<le> max 1 max_hops + 1"

definition hunt_sound :: "(pystr, pystr list) pydict \<Rightarrow> pystr list \<Rightarrow> int \<Rightarrow> pystr \<Rightarrow> hunt \<Rightarrow> bool" where
  "hunt_sound graph sinks max_hops start st \<longleftrightarrow>
     (\<forall>h \<in> set (hu_next st). hop_ok graph start h \<and> int (length (fst h)) \<le> max 1 max_hops) \<and>
     (\<forall>r \<in> set (hu_out st). result_ok graph sinks max_hops start r) \<and>
     distinct (map fst (hu_out st)) \<and> fst ` set (hu_out st) \<subseteq> set (hu_visited st)"

lemma callee_sound:
  assumes "hunt_sound graph sinks max_hops start st" and "hop_ok graph start h" and "int (length (fst h)) \<le> max 1 max_hops"
    and "c \<in> set (dict_get_or graph (last (fst h)) [])"
  shows "hunt_sound graph sinks max_hops start (hunt_callee sinks max_hops h c st)"
proof (cases "c \<in> set (hu_visited st)")
  case False
  obtain p b where h: "h = (p, b)" by (cases h)
  have p: "p \<noteq> []" using assms(2) h by (auto simp: hop_ok_def calls_walk_def)
  then have "hop_ok graph start (p @ [c], b \<or> is_sanitizer c)"
    using assms(2,4) h by (auto simp: hop_ok_def calls_walk_snoc)
  moreover have "2 \<le> length (p @ [c])" using p by (cases p) auto
  ultimately show ?thesis
    using False assms h
    by (auto simp: hunt_sound_def hunt_callee_def result_ok_def Let_def intro!: imageI)
qed (use assms in \<open>simp add: hunt_callee_def\<close>)

lemma round_sound:
  assumes "hunt_sound graph sinks max_hops start st"
    and "\<forall>h \<in> set frontier. hop_ok graph start h \<and> int (length (fst h)) \<le> max 1 max_hops"
  shows "hunt_sound graph sinks max_hops start (hunt_round graph sinks max_hops frontier st)"
  unfolding hunt_round_pairs
proof (rule List.fold_invariant[where Q = "\<lambda>(h, c). hop_ok graph start h \<and> int (length (fst h)) \<le> max 1 max_hops \<and>
        c \<in> set (dict_get_or graph (last (fst h)) [])"], goal_cases)
  case (1 x)
  then show ?case using assms(2) by (auto simp: hunt_pairs_def)
next
  case 2
  then show ?case using assms(1) by (simp add: hunt_sound_def)
next
  case (3 x st)
  then show ?case using callee_sound[of graph sinks max_hops start st "fst x" "snd x"] by (simp add: case_prod_beta)
qed

lemma loop_sound:
  assumes "hunt_sound graph sinks max_hops start st"
    and "\<forall>h \<in> set frontier. hop_ok graph start h \<and> int (length (fst h)) \<le> max 1 max_hops"
  shows "hunt_sound graph sinks max_hops start (hunt_loop graph sinks max_hops frontier st)"
  using assms
proof (induction graph sinks max_hops frontier st rule: hunt_loop.induct)
  case (2 graph sinks max_hops h hs st)
  let ?st = "hunt_round graph sinks max_hops (h # hs) st"
  have "hunt_sound graph sinks max_hops start ?st" by (rule round_sound) (use 2 in auto)
  moreover from this have "\<forall>h \<in> set (hu_next ?st). hop_ok graph start h \<and> int (length (fst h)) \<le> max 1 max_hops"
    by (simp add: hunt_sound_def)
  ultimately show ?case using 2(1)[OF refl] by (simp add: Let_def)
qed simp

text \<open>C37. What the search for sinks returns is, for each sink once, a walk along the call graph from
  the start to that sink, of at most the bound, with no sanitizer after the start.\<close>

theorem bfs_sound:
  "distinct (map fst (bfs_to_sinks start graph sinks max_hops)) \<and>
   list_all (result_ok graph sinks max_hops start) (bfs_to_sinks start graph sinks max_hops)"
proof (cases "start = []")
  case False
  have "hunt_sound graph sinks max_hops start
      (hunt_loop graph sinks max_hops [([start], False)] \<lparr>hu_visited = [start], hu_out = [], hu_next = []\<rparr>)"
    by (rule loop_sound) (auto simp: hunt_sound_def hop_ok_def calls_walk_def)
  with False show ?thesis by (simp add: bfs_to_sinks_def hunt_sound_def list_all_iff)
qed (simp add: bfs_to_sinks_def)

section \<open>What the search finds\<close>

definition hunt_complete :: "pystr list \<Rightarrow> pystr \<Rightarrow> hunt \<Rightarrow> bool" where
  "hunt_complete sinks start st \<longleftrightarrow>
     (\<forall>h \<in> set (hu_next st). \<not> snd h) \<and>
     (\<forall>v \<in> set (hu_visited st). v \<in> set sinks \<longrightarrow> v = start \<or> v \<in> fst ` set (hu_out st))"

lemma round_complete:
  assumes "hunt_complete sinks start st" and "\<forall>h \<in> set frontier. \<not> snd h"
    and "list_all (\<lambda>c. \<not> is_sanitizer c) (graph_targets graph)"
  shows "hunt_complete sinks start (hunt_round graph sinks max_hops frontier st)"
  unfolding hunt_round_pairs
proof (rule List.fold_invariant[where Q = "\<lambda>(h, c). \<not> snd h \<and> \<not> is_sanitizer c"], goal_cases)
  case (1 x)
  then show ?case using assms(2,3) targets_of by (fastforce simp: hunt_pairs_def list_all_iff)
next
  case 2
  then show ?case using assms(1) by (simp add: hunt_complete_def)
next
  case (3 x st)
  then show ?case by (cases x; cases "fst x") (auto simp: hunt_complete_def hunt_callee_def Let_def)
qed

lemma loop_complete:
  assumes "hunt_complete sinks start st" and "\<forall>h \<in> set frontier. \<not> snd h"
    and "list_all (\<lambda>c. \<not> is_sanitizer c) (graph_targets graph)"
  shows "hunt_complete sinks start (hunt_loop graph sinks max_hops frontier st)"
  using assms
proof (induction graph sinks max_hops frontier st rule: hunt_loop.induct)
  case (2 graph sinks max_hops h hs st)
  let ?st = "hunt_round graph sinks max_hops (h # hs) st"
  have "hunt_complete sinks start ?st" by (rule round_complete) (use 2 in auto)
  moreover from this have "\<forall>h \<in> set (hu_next ?st). \<not> snd h" by (simp add: hunt_complete_def)
  ultimately show ?case using 2 by (simp add: Let_def)
qed simp

text \<open>C38. When no callee is named like a sanitizer, the search finds every sink other than the start
  itself that the calls reach within the bound.\<close>

theorem bfs_complete:
  assumes "list_all (\<lambda>c. \<not> is_sanitizer c) (graph_targets graph)" and "start \<noteq> []"
    and "(start, s) \<in> edges_of graph ^^ n" and "int n \<le> max 1 max_hops" and "s \<in> set sinks" and "s \<noteq> start"
  shows "s \<in> fst ` set (bfs_to_sinks start graph sinks max_hops)"
proof -
  let ?st = "\<lparr>hu_visited = [start], hu_out = [], hu_next = []\<rparr>"
  let ?fin = "hunt_loop graph sinks max_hops [([start], False)] ?st"
  have "(edges_of graph ^^ n) `` set (hu_visited ?st) \<subseteq> set (hu_visited ?fin)"
    using hunt_loop_visits[of "[([start], False)]" ?st 0 graph sinks max_hops] assms(4) by (simp add: ends_def)
  with assms(3) have "s \<in> set (hu_visited ?fin)" by auto
  moreover have "hunt_complete sinks start ?fin"
    by (rule loop_complete) (use assms(1) in \<open>auto simp: hunt_complete_def\<close>)
  ultimately show ?thesis using assms(2,5,6) by (auto simp: hunt_complete_def bfs_to_sinks_def simp del: hunt_loop.simps)
qed

text \<open>A sanitized path hides another: \<open>x\<close> is first seen behind \<open>clean\<close>, so the call of \<open>x\<close>
  from \<open>c\<close>, on a path without a sanitizer, is not followed.\<close>

definition shadow_graph :: "(pystr, pystr list) pydict" where
  "shadow_graph = [(''a.py::in'', [''a.py::clean'', ''a.py::b'']), (''a.py::clean'', [''a.py::x'']),
     (''a.py::b'', [''a.py::c'']), (''a.py::c'', [''a.py::x'']), (''a.py::x'', [''a.py::exec''])]"

lemma sanitized_path_hides_another:
  "calls_walk shadow_graph ''a.py::in'' [''a.py::in'', ''a.py::b'', ''a.py::c'', ''a.py::x'', ''a.py::exec''] \<and>
   \<not> list_ex is_sanitizer [''a.py::b'', ''a.py::c'', ''a.py::x'', ''a.py::exec''] \<and>
   bfs_to_sinks ''a.py::in'' shadow_graph [''a.py::exec''] 8 = []"
  by code_simp

lemma bfs_complete_witness:
  "''a.py::exec'' \<in> fst ` set (bfs_to_sinks ''a.py::in'' [(''a.py::in'', [''a.py::x'']), (''a.py::x'', [''a.py::exec''])] [''a.py::exec''] 2)"
proof (rule bfs_complete[where n = 2])
  let ?g = "[(''a.py::in'', [''a.py::x'']), (''a.py::x'', [''a.py::exec''])]"
  show "list_all (\<lambda>c. \<not> is_sanitizer c) (graph_targets ?g)" by code_simp
  have "(''a.py::in'', ''a.py::x'') \<in> edges_of ?g" "(''a.py::x'', ''a.py::exec'') \<in> edges_of ?g"
    by (simp_all add: edges_of_def nbrs_def dict_get_or_def)
  then show "(''a.py::in'', ''a.py::exec'') \<in> edges_of ?g ^^ 2" by (auto simp: numeral_2_eq_2)
qed simp_all

section \<open>Numbers, ranks and entries of the chunks\<close>

definition from_entry :: "decompose_context \<Rightarrow> task_chunk \<Rightarrow> bool" where
  "from_entry ctx c \<longleftrightarrow>
     list_ex (\<lambda>ep. c_focus_entry_points c = [ep_function ep] \<and>
       (ep_file ep \<in> set (cp_all_files ctx) \<longrightarrow> ep_file ep \<in> set (c_files c))) (cp_entry_points ctx)"

definition taint_ok :: "decompose_context \<Rightarrow> int \<Rightarrow> taint_state \<Rightarrow> bool" where
  "taint_ok ctx cap st \<longleftrightarrow>
     length (ts_chunks st) = ts_added st \<and> int (ts_added st) \<le> max 0 cap \<and>
     map c_risk_rank (ts_chunks st) = map int [1..<Suc (ts_added st)] \<and>
     list_all (\<lambda>c. c_files c \<noteq> [] \<and> from_entry ctx c) (ts_chunks st)"

lemma add_path_ok:
  assumes "taint_ok ctx cap st" and "\<And>n. c_risk_rank (mk n) = int n" and "\<And>n. c_files (mk n) = files"
    and "\<And>n. c_focus_entry_points (mk n) = [ep_function ep]" and "ep \<in> set (cp_entry_points ctx)"
    and "ep_file ep \<in> set (cp_all_files ctx) \<Longrightarrow> ep_file ep \<in> set files"
  shows "taint_ok ctx cap (add_path cap files sig mk st)"
proof (cases "cap \<le> int (ts_added st) \<or> files = [] \<or> sig \<in> set (ts_seen st)")
  case False
  have "from_entry ctx (mk n)" for n using assms(3-6) by (auto simp: from_entry_def list_ex_iff)
  with False assms show ?thesis by (auto simp: taint_ok_def add_path_def)
qed (use assms in \<open>auto simp: add_path_def\<close>)

lemma known_entry: "ep_file ep \<in> set (cp_all_files ctx) \<Longrightarrow>
    ep_file ep \<in> set (known_files ctx (xs @ [ep_file ep] @ ys))"
  by (simp add: known_files_def)

lemma taint_entry_ok:
  assumes "taint_ok ctx (s3_taint_max_chunks cfg) st" and "ep \<in> set (cp_entry_points ctx)"
  shows "taint_ok ctx (s3_taint_max_chunks cfg) (taint_entry w ctx cfg by_qn ep st)"
proof -
  have seed: "taint_ok ctx (s3_taint_max_chunks cfg) (add_seed_path w ctx cfg ep h st)"
    if "taint_ok ctx (s3_taint_max_chunks cfg) st" for h st
    unfolding add_seed_path_def Let_def
    by (rule add_path_ok[OF that _ _ _ assms(2)]) (auto simp: taint_chunk_def seed_files_def Let_def intro: known_entry[simplified])
  have hit: "taint_ok ctx (s3_taint_max_chunks cfg) (add_hit w ctx cfg by_qn ep h st)"
    if "taint_ok ctx (s3_taint_max_chunks cfg) st" for h st
    unfolding add_hit_def Let_def prod.case_eq_if
    by (rule add_path_ok[OF that _ _ _ assms(2)])
      (auto simp: taint_chunk_def path_files_def case_prod_beta Let_def intro: known_entry[simplified])
  show ?thesis
    unfolding taint_entry_def
    by (rule List.fold_invariant[where Q = "\<lambda>_. True"], simp, rule List.fold_invariant[where Q = "\<lambda>_. True"])
      (use assms(1) seed hit in auto)
qed

text \<open>C39. The taint chunks are numbered by rank from 1 without a gap, are at most the configured
  number, each hold the file of the entry point they focus on, and come before every chunk of the
  strategist whose rank was positive.\<close>

theorem taint_chunks_first:
  assumes "mf_chunks (add_taint_chunks w ctx cfg m) \<noteq> mf_chunks m"
  shows "\<exists>old new. mf_chunks (add_taint_chunks w ctx cfg m) = old @ new \<and> length old = length (mf_chunks m) \<and>
    map c_risk_rank new = map int [1..<Suc (length new)] \<and> int (length new) \<le> s3_taint_max_chunks cfg \<and>
    (\<forall>c \<in> set new. c_files c \<noteq> [] \<and> from_entry ctx c) \<and>
    (list_all (\<lambda>c. 0 < c_risk_rank c) (mf_chunks m) \<longrightarrow> (\<forall>c \<in> set new. \<forall>d \<in> set old. c_risk_rank c < c_risk_rank d))"
proof -
  let ?cap = "s3_taint_max_chunks cfg"
  define st where "st = fold (taint_entry w ctx cfg (sinks_by_qnode w ctx)) (sorted_entries (cp_entry_points ctx))
    \<lparr>ts_added = 0, ts_seen = [], ts_chunks = []\<rparr>"
  have ok: "taint_ok ctx ?cap st"
    unfolding st_def
  proof (rule List.fold_invariant[where Q = "\<lambda>ep. ep \<in> set (cp_entry_points ctx)"], goal_cases)
    case (1 ep)
    then show ?case by (simp add: sorted_entries_def)
  next
    case 2
    then show ?case by (simp add: taint_ok_def)
  next
    case (3 ep st)
    then show ?case by (simp add: taint_entry_ok)
  qed
  have added: "ts_added st \<noteq> 0" and chunks: "mf_chunks (add_taint_chunks w ctx cfg m) = map (shift_rank ?cap) (mf_chunks m) @ ts_chunks st"
    using assms by (auto simp: add_taint_chunks_def Let_def st_def[symmetric] split: if_splits)
  have len: "length (ts_chunks st) = ts_added st" "int (ts_added st) \<le> ?cap"
    and ranks: "map c_risk_rank (ts_chunks st) = map int [1..<Suc (ts_added st)]"
    and files: "list_all (\<lambda>c. c_files c \<noteq> [] \<and> from_entry ctx c) (ts_chunks st)"
    using ok added by (auto simp: taint_ok_def max_def split: if_splits)
  have rank_le: "c_risk_rank c \<le> ?cap" if "c \<in> set (ts_chunks st)" for c
  proof -
    have "c_risk_rank c \<in> set (map int [1..<Suc (ts_added st)])" using that unfolding ranks[symmetric] by simp
    then show ?thesis using len(2) by auto
  qed
  have "c_risk_rank c < c_risk_rank d"
    if "list_all (\<lambda>c. 0 < c_risk_rank c) (mf_chunks m)" "c \<in> set (ts_chunks st)" "d \<in> set (map (shift_rank ?cap) (mf_chunks m))" for c d
    using that rank_le[OF that(2)] by (fastforce simp: shift_rank_def list_all_iff)
  then show ?thesis
    using chunks len ranks files
    by (intro exI[of _ "map (shift_rank ?cap) (mf_chunks m)"] exI[of _ "ts_chunks st"]) (auto simp: list_all_iff)
qed

section \<open>Splitting a taint chunk\<close>

lemma small_taint:
  "map (\<lambda>c. (c_id c, c_risk_rank c, c_files c))
     (mf_chunks (add_taint_chunks small_world small_repo (small_cfg 8000) \<lparr>mf_chunks = [], mf_unreachable = []\<rparr>))
   = [(''taint-01'', 1, [''web/a.py'', ''db/b.py''])]"
  by code_simp

lemma taint_chunks_first_witness:
  "\<exists>old new. mf_chunks (add_taint_chunks small_world small_repo (small_cfg 8000) \<lparr>mf_chunks = [], mf_unreachable = []\<rparr>) = old @ new \<and>
    old = [] \<and> map c_risk_rank new = map int [1..<Suc (length new)] \<and> int (length new) \<le> 40"
proof -
  have "mf_chunks (add_taint_chunks small_world small_repo (small_cfg 8000) \<lparr>mf_chunks = [], mf_unreachable = []\<rparr>) \<noteq> []"
    using small_taint by auto
  then have "\<exists>old new. mf_chunks (add_taint_chunks small_world small_repo (small_cfg 8000) \<lparr>mf_chunks = [], mf_unreachable = []\<rparr>) = old @ new \<and>
      length old = 0 \<and> map c_risk_rank new = map int [1..<Suc (length new)] \<and> int (length new) \<le> 40"
    using taint_chunks_first[of small_world small_repo "small_cfg 8000" "\<lparr>mf_chunks = [], mf_unreachable = []\<rparr>"]
    by (simp add: small_cfg_def)
  then show ?thesis by (metis length_0_conv)
qed

text \<open>A taint chunk over the cap is split like any other: the source and the sink end up in
  different chunks, each with the whole path.\<close>

lemma split_parts_source_and_sink:
  "map (\<lambda>c. (c_id c, c_files c, c_path_funcs c))
     (split_oversize_risk_chunks small_world small_repo (small_cfg 1)
       (mf_chunks (add_taint_chunks small_world small_repo (small_cfg 1) \<lparr>mf_chunks = [], mf_unreachable = []\<rparr>)))
   = [(''taint-01-a'', [''db/b.py''], [''web/a.py::f'', ''db/b.py::g'']),
      (''taint-01-b'', [''web/a.py''], [''web/a.py::f'', ''db/b.py::g''])]"
  by code_simp

section \<open>Chunks for uncovered threats\<close>









section \<open>A word that a pattern misses\<close>

text \<open>The stem \<open>deserial\<close> is followed by \<open>\b\<close>, so no form of the word matches.\<close>

lemma deserialize_not_recognised: "\<not> re_search threat_deser_re ''deserialize''"
  by code_simp

end
