(* ===== verification/Spec2Isabelle.thy ===== *)
theory Spec2Isabelle
  imports ScoringProps ConsensusProps HostScoreProps PolicyGateProps RepoFsProps PostGateProps SelectProps
    CallGraphProps CvssProps PipelineProps DeepDiveProps RedactProps CoerceProps MarkdownProps SandboxProps ToolGateProps JsonExtractProps CodeSliceProps DecomposeProps
    TaintChunksProps
begin

text \<open>
  Verification development for vvaharness.
\<close>

end
